(* ===== verification/Prelude.thy ===== *)
theory Prelude
  imports
    Main
    "HOL-Library.List_Lexorder"
    "HOL-Library.Char_ord"
    "HOL-Library.Product_Lexorder"
    "HOL-Library.Multiset"
begin

text \<open>
  What every component shares: the machine arithmetic the sources use (signed
  64-bit wrap-around of a release build, the \<^verbatim>\<open>as\<close> casts), instants and
  durations, the ordered string maps (\<^verbatim>\<open>BTreeMap\<close>), the stable comparison
  sort of the Rust standard library, and the few string functions.

  Instants are integers counting nanoseconds, as are durations; a duration of
  chrono that overflows panics in the source, so the model is that of specs
  whose seconds stay below 2^63 / 10^9.  Strings are lists of 8-bit characters
  (the bytes of the UTF-8 string), so their order is the byte order of Rust.
\<close>

named_theorems time_simps \<open>conversions between seconds and durations\<close>
named_theorems bt_simps \<open>the laws of the ordered string maps\<close>
named_theorems sort_simps \<open>what the comparison sort keeps\<close>

section \<open>Machine integers\<close>

text \<open>Signed 64-bit wrap-around, written out on integers.\<close>

definition wrap_i64 :: "int \<Rightarrow> int" where
  "wrap_i64 x = (x + 2 ^ 63) mod 2 ^ 64 - 2 ^ 63"

abbreviation (input) in_i64 :: "int \<Rightarrow> bool" where
  "in_i64 x \<equiv> - (2 ^ 63) \<le> x \<and> x < 2 ^ 63"

lemma wrap_i64_id [simp]: "in_i64 x \<Longrightarrow> wrap_i64 x = x"
  by (simp add: wrap_i64_def)

lemma wrap_i64_range: "in_i64 (wrap_i64 x)"
proof -
  have "(x + 2 ^ 63) mod 2 ^ 64 < (2 :: int) ^ 64" by (rule pos_mod_bound) simp
  moreover have "0 \<le> (x + 2 ^ 63) mod (2 :: int) ^ 64" by (rule pos_mod_sign) simp
  ultimately show ?thesis by (simp add: wrap_i64_def)
qed

text \<open>Evaluated with the bounds as literals.\<close>

lemma wrap_i64_code [code]:
  "wrap_i64 x = (if - 9223372036854775808 \<le> x \<and> x < 9223372036854775808 then x
     else (x + 9223372036854775808) mod 18446744073709551616 - 9223372036854775808)"
  using wrap_i64_id [of x] by (simp add: wrap_i64_def)

text \<open>The casts \<^verbatim>\<open>u64 as i64\<close> and \<^verbatim>\<open>usize as u32\<close>.\<close>

definition as_i64 :: "nat \<Rightarrow> int" where
  "as_i64 n = wrap_i64 (int n)"

definition as_u32 :: "nat \<Rightarrow> nat" where
  "as_u32 n = n mod 2 ^ 32"

lemma as_u32_code [code]: "as_u32 n = (if n < 4294967296 then n else n mod 4294967296)"
  by (simp add: as_u32_def)

lemma as_i64_id [simp]: "n < 2 ^ 63 \<Longrightarrow> as_i64 n = int n"
  by (simp add: as_i64_def)

lemma as_u32_id [simp]: "n < 2 ^ 32 \<Longrightarrow> as_u32 n = n"
  by (simp add: as_u32_def)

section \<open>Instants and durations\<close>

type_synonym instant = int
type_synonym duration = int

definition secs :: "int \<Rightarrow> duration" where
  "secs n = n * 1000000000"

text \<open>\<^verbatim>\<open>TimeDelta::num_seconds\<close> truncates towards zero.\<close>

definition num_seconds :: "duration \<Rightarrow> int" where
  "num_seconds d = (if 0 \<le> d then d div 1000000000 else - ((- d) div 1000000000))"

lemma secs_mono [time_simps]: "secs a \<le> secs b \<longleftrightarrow> a \<le> b"
  by (simp add: secs_def)

lemma secs_less [time_simps]: "secs a < secs b \<longleftrightarrow> a < b"
  by (simp add: secs_def)

lemma secs_nonneg [time_simps]: "0 \<le> secs a \<longleftrightarrow> 0 \<le> a"
  by (simp add: secs_def)

lemma num_seconds_secs [time_simps]: "num_seconds (secs n) = n"
  by (cases "0 \<le> n") (auto simp: num_seconds_def secs_def)

lemma le_div_int_iff:
  assumes "0 < (k :: int)" shows "n \<le> d div k \<longleftrightarrow> n * k \<le> d"
proof
  assume "n \<le> d div k"
  then have "n * k \<le> d div k * k" using assms by (simp add: mult_right_mono)
  also have "\<dots> \<le> d" using assms by (metis add_increasing2 div_mult_mod_eq order_refl pos_mod_sign)
  finally show "n * k \<le> d" .
next
  assume "n * k \<le> d"
  then show "n \<le> d div k" using zdiv_mono1 [OF _ assms, of "n * k" d] assms by simp
qed

lemma num_seconds_ge [time_simps]:
  assumes "0 < n" shows "n \<le> num_seconds d \<longleftrightarrow> secs n \<le> d"
proof (cases "0 \<le> d")
  case True
  then show ?thesis by (simp add: num_seconds_def secs_def le_div_int_iff)
next
  case False
  then have "0 \<le> (- d) div 1000000000" by (simp add: pos_imp_zdiv_nonneg_iff)
  with False assms show ?thesis by (simp add: num_seconds_def secs_def)
qed

section \<open>Options\<close>

definition opt_or :: "'a option \<Rightarrow> 'a option \<Rightarrow> 'a option" where
  "opt_or a b = (case a of Some x \<Rightarrow> Some x | None \<Rightarrow> b)"

definition unwrap_or :: "'a option \<Rightarrow> 'a \<Rightarrow> 'a" where
  "unwrap_or a d = (case a of Some x \<Rightarrow> x | None \<Rightarrow> d)"

definition is_some_and :: "'a option \<Rightarrow> ('a \<Rightarrow> bool) \<Rightarrow> bool" where
  "is_some_and a p = (case a of Some x \<Rightarrow> p x | None \<Rightarrow> False)"

definition is_none_or :: "'a option \<Rightarrow> ('a \<Rightarrow> bool) \<Rightarrow> bool" where
  "is_none_or a p = (case a of Some x \<Rightarrow> p x | None \<Rightarrow> True)"

lemma opt_or_simps [simp]: "opt_or (Some x) b = Some x" "opt_or None b = b"
  by (simp_all add: opt_or_def)

lemma unwrap_or_simps [simp]: "unwrap_or (Some x) d = x" "unwrap_or None d = d"
  by (simp_all add: unwrap_or_def)

lemma is_some_and_simps [simp]: "is_some_and (Some x) p = p x" "is_some_and None p = False"
  by (simp_all add: is_some_and_def)

lemma is_none_or_simps [simp]: "is_none_or (Some x) p = p x" "is_none_or None p = True"
  by (simp_all add: is_none_or_def)

lemma is_some_and_iff: "is_some_and a p \<longleftrightarrow> (\<exists>x. a = Some x \<and> p x)"
  by (cases a) auto

text \<open>\<^verbatim>\<open>filter_map\<close> and \<^verbatim>\<open>flatten\<close> over options.\<close>

fun filter_map :: "('a \<Rightarrow> 'b option) \<Rightarrow> 'a list \<Rightarrow> 'b list" where
  "filter_map f [] = []"
| "filter_map f (x # xs) = (case f x of Some y \<Rightarrow> y # filter_map f xs | None \<Rightarrow> filter_map f xs)"

abbreviation flatten_opts :: "'a option list \<Rightarrow> 'a list" where
  "flatten_opts \<equiv> filter_map (\<lambda>x. x)"

lemma set_filter_map [simp]: "set (filter_map f xs) = {y. \<exists>x \<in> set xs. f x = Some y}"
  by (induction xs) (auto split: option.splits)

text \<open>\<^verbatim>\<open>Iterator::max\<close> and \<^verbatim>\<open>Iterator::min\<close> on values whose equality is identity, and
  \<^verbatim>\<open>max_by_key\<close>, which keeps the last of equal keys.\<close>

definition iter_max :: "'a :: linorder list \<Rightarrow> 'a option" where
  "iter_max xs = (case xs of [] \<Rightarrow> None | x # rest \<Rightarrow> Some (foldl max x rest))"

definition iter_min :: "'a :: linorder list \<Rightarrow> 'a option" where
  "iter_min xs = (case xs of [] \<Rightarrow> None | x # rest \<Rightarrow> Some (foldl min x rest))"

definition max_by_key :: "('a \<Rightarrow> 'k :: linorder) \<Rightarrow> 'a list \<Rightarrow> 'a option" where
  "max_by_key f xs = (case xs of [] \<Rightarrow> None
     | x # rest \<Rightarrow> Some (foldl (\<lambda>acc y. if f y < f acc then acc else y) x rest))"

lemma foldl_max_member: "foldl max (x :: 'a :: linorder) xs \<in> set (x # xs)"
  by (induction xs arbitrary: x) (auto simp: max_def)

lemma foldl_max_ge: "y \<in> set (x # xs) \<Longrightarrow> y \<le> foldl max (x :: 'a :: linorder) xs"
proof (induction xs arbitrary: x y)
  case Nil
  then show ?case by simp
next
  case (Cons a xs)
  have "max x a \<le> foldl max (max x a) xs" by (rule Cons.IH) simp
  then have "x \<le> foldl max (max x a) xs" "a \<le> foldl max (max x a) xs" by simp_all
  then show ?case using Cons.prems Cons.IH [of y "max x a"] by auto
qed

lemma iter_max_SomeD:
  assumes "iter_max xs = Some m"
  shows "m \<in> set xs" and "\<And>x. x \<in> set xs \<Longrightarrow> x \<le> m"
proof -
  obtain y ys where xs: "xs = y # ys" and m: "m = foldl max y ys"
    using assms by (auto simp: iter_max_def split: list.splits)
  show "m \<in> set xs" unfolding xs m by (rule foldl_max_member)
  show "x \<le> m" if "x \<in> set xs" for x using that unfolding xs m by (rule foldl_max_ge)
qed

lemma iter_max_None [simp]: "iter_max xs = None \<longleftrightarrow> xs = []"
  by (simp add: iter_max_def split: list.split)

lemma foldl_min_member: "foldl min (x :: 'a :: linorder) xs \<in> set (x # xs)"
  by (induction xs arbitrary: x) (auto simp: min_def)

lemma foldl_min_le: "y \<in> set (x # xs) \<Longrightarrow> foldl min (x :: 'a :: linorder) xs \<le> y"
proof (induction xs arbitrary: x y)
  case Nil
  then show ?case by simp
next
  case (Cons a xs)
  have "foldl min (min x a) xs \<le> min x a" by (rule Cons.IH) simp
  then have "foldl min (min x a) xs \<le> x" "foldl min (min x a) xs \<le> a" by simp_all
  then show ?case using Cons.prems Cons.IH [of y "min x a"] by auto
qed

lemma iter_min_SomeD:
  assumes "iter_min xs = Some m"
  shows "m \<in> set xs" and "\<And>x. x \<in> set xs \<Longrightarrow> m \<le> x"
proof -
  obtain y ys where xs: "xs = y # ys" and m: "m = foldl min y ys"
    using assms by (auto simp: iter_min_def split: list.splits)
  show "m \<in> set xs" unfolding xs m by (rule foldl_min_member)
  show "m \<le> x" if "x \<in> set xs" for x using that unfolding xs m by (rule foldl_min_le)
qed

lemma iter_min_None [simp]: "iter_min xs = None \<longleftrightarrow> xs = []"
  by (simp add: iter_min_def split: list.split)

lemma max_by_key_fold_member:
  "foldl (\<lambda>acc y. if (f y :: 'k :: linorder) < f acc then acc else y) x xs \<in> set (x # xs)"
proof (induction xs arbitrary: x)
  case Nil
  then show ?case by simp
next
  case (Cons a xs)
  show ?case using Cons.IH [of x] Cons.IH [of a] by auto
qed

lemma max_by_key_fold_ge:
  "y \<in> set (x # xs) \<Longrightarrow> (f y :: 'k :: linorder) \<le> f (foldl (\<lambda>acc y. if f y < f acc then acc else y) x xs)"
proof (induction xs arbitrary: x y)
  case Nil
  then show ?case by simp
next
  case (Cons a xs)
  let ?b = "if f a < f x then x else a"
  have "f ?b \<le> f (foldl (\<lambda>acc y. if f y < f acc then acc else y) ?b xs)"
    by (rule Cons.IH) simp
  moreover have "f x \<le> f ?b" "f a \<le> f ?b" by auto
  ultimately show ?case using Cons.prems Cons.IH [of y ?b] by (force intro: order_trans)
qed

lemma max_by_key_SomeD:
  assumes "max_by_key f xs = Some m"
  shows "m \<in> set xs" and "\<And>x. x \<in> set xs \<Longrightarrow> f x \<le> f m"
proof -
  let ?g = "foldl (\<lambda>acc y. if f y < f acc then acc else y)"
  obtain y ys where xs: "xs = y # ys" and m: "m = ?g y ys"
    using assms by (auto simp: max_by_key_def split: list.splits)
  show "m \<in> set xs" unfolding xs m by (rule max_by_key_fold_member)
  show "f x \<le> f m" if "x \<in> set xs" for x using that unfolding xs m by (rule max_by_key_fold_ge)
qed

lemma max_by_key_None [simp]: "max_by_key f xs = None \<longleftrightarrow> xs = []"
  by (simp add: max_by_key_def split: list.split)

section \<open>Ordered string maps\<close>

text \<open>
  A \<^verbatim>\<open>BTreeMap\<close> with string keys is its list of entries in key order, each key
  once: what iterating over it yields.
\<close>

type_synonym 'v btmap = "(string \<times> 'v) list"

fun bt_get :: "'v btmap \<Rightarrow> string \<Rightarrow> 'v option" where
  "bt_get [] k = None"
| "bt_get ((k', v) # m) k = (if k = k' then Some v else bt_get m k)"

fun bt_insert :: "string \<Rightarrow> 'v \<Rightarrow> 'v btmap \<Rightarrow> 'v btmap" where
  "bt_insert k v [] = [(k, v)]"
| "bt_insert k v ((k', v') # m) =
     (if k = k' then (k, v) # m else if k < k' then (k, v) # (k', v') # m
      else (k', v') # bt_insert k v m)"

fun bt_remove :: "string \<Rightarrow> 'v btmap \<Rightarrow> 'v btmap" where
  "bt_remove k [] = []"
| "bt_remove k ((k', v') # m) = (if k = k' then m else (k', v') # bt_remove k m)"

definition bt_ok :: "'v btmap \<Rightarrow> bool" where
  "bt_ok m = sorted_wrt (<) (map fst m)"

definition bt_collect :: "(string \<times> 'v) list \<Rightarrow> 'v btmap" where
  "bt_collect kvs = foldl (\<lambda>m (k, v). bt_insert k v m) [] kvs"

text \<open>\<^verbatim>\<open>entry(k).or_insert(v)\<close>: the map after it, keeping a present value.\<close>

definition bt_or_insert :: "string \<Rightarrow> 'v \<Rightarrow> 'v btmap \<Rightarrow> 'v btmap" where
  "bt_or_insert k v m = (case bt_get m k of Some _ \<Rightarrow> m | None \<Rightarrow> bt_insert k v m)"

definition bt_retain :: "(string \<Rightarrow> 'v \<Rightarrow> bool) \<Rightarrow> 'v btmap \<Rightarrow> 'v btmap" where
  "bt_retain p m = filter (\<lambda>(k, v). p k v) m"

abbreviation (input) bt_keys :: "'v btmap \<Rightarrow> string list" where
  "bt_keys m \<equiv> map fst m"

lemma bt_get_map_of: "bt_get m k = map_of m k"
  by (induction m k rule: bt_get.induct) auto

lemma bt_get_notin: "k \<notin> set (bt_keys m) \<Longrightarrow> bt_get m k = None"
  by (simp add: bt_get_map_of map_of_eq_None_iff)

lemma bt_get_None_iff: "bt_get m k = None \<longleftrightarrow> k \<notin> set (bt_keys m)"
  by (simp add: bt_get_map_of map_of_eq_None_iff)

lemma bt_get_SomeD: "bt_get m k = Some v \<Longrightarrow> (k, v) \<in> set m"
  by (simp add: bt_get_map_of map_of_SomeD)

lemma bt_keys_insert: "set (bt_keys (bt_insert k v m)) = insert k (set (bt_keys m))"
  by (induction k v m rule: bt_insert.induct) auto

lemma bt_keys_remove: "set (bt_keys (bt_remove k m)) \<subseteq> set (bt_keys m)"
  by (induction k m rule: bt_remove.induct) auto

lemma bt_ok_Nil [simp]: "bt_ok []"
  by (simp add: bt_ok_def)

lemma bt_ok_Cons: "bt_ok (e # m) \<longleftrightarrow> (\<forall>k' \<in> set (bt_keys m). fst e < k') \<and> bt_ok m"
  by (simp add: bt_ok_def)

lemma bt_get_insert [bt_simps]: "bt_get (bt_insert k v m) k' = (if k' = k then Some v else bt_get m k')"
  by (induction k v m rule: bt_insert.induct) auto

lemma bt_ok_insert [bt_simps]: "bt_ok m \<Longrightarrow> bt_ok (bt_insert k v m)"
proof (induction k v m rule: bt_insert.induct)
  case (2 k v k' v' m)
  show ?case
  proof (cases "k = k' \<or> k < k'")
    case True
    with 2 show ?thesis by (auto simp: bt_ok_Cons)
  next
    case False
    with 2 have "bt_ok (bt_insert k v m)" by (simp add: bt_ok_Cons)
    moreover have "\<forall>x \<in> set (bt_keys (bt_insert k v m)). k' < x"
      using 2 False unfolding bt_keys_insert by (auto simp: bt_ok_Cons)
    ultimately show ?thesis using False by (simp add: bt_ok_Cons)
  qed
qed (simp add: bt_ok_Cons)

lemma bt_get_remove [bt_simps]:
  "bt_ok m \<Longrightarrow> bt_get (bt_remove k m) k' = (if k' = k then None else bt_get m k')"
proof (induction k m rule: bt_remove.induct)
  case (2 k k1 v m)
  then have "k1 \<notin> set (bt_keys m)" by (force simp: bt_ok_Cons)
  then have "bt_get m k1 = None" by (rule bt_get_notin)
  with 2 show ?case by (auto simp: bt_ok_Cons)
qed simp

lemma bt_ok_remove [bt_simps]: "bt_ok m \<Longrightarrow> bt_ok (bt_remove k m)"
proof (induction k m rule: bt_remove.induct)
  case (2 k k' v' m)
  then have "\<forall>x \<in> set (bt_keys (bt_remove k m)). k' < x"
    using bt_keys_remove [of k m] unfolding bt_ok_Cons fst_conv by blast
  with 2 show ?case by (simp add: bt_ok_Cons)
qed simp

lemma bt_ok_retain [bt_simps]: "bt_ok m \<Longrightarrow> bt_ok (bt_retain p m)"
  by (induction m) (auto simp: bt_retain_def bt_ok_Cons)

lemma bt_get_retain [bt_simps]:
  "bt_ok m \<Longrightarrow> bt_get (bt_retain p m) k
     = (case bt_get m k of Some v \<Rightarrow> if p k v then Some v else None | None \<Rightarrow> None)"
proof (induction m)
  case (Cons e m)
  obtain k' v' where e: "e = (k', v')" by (cases e)
  with Cons.prems have "k' \<notin> set (bt_keys m)" by (auto simp: bt_ok_Cons)
  then have "bt_get m k' = None" by (rule bt_get_notin)
  with Cons e show ?case by (auto simp: bt_retain_def bt_ok_Cons split: option.splits)
qed (simp add: bt_retain_def)

lemma bt_ok_or_insert [bt_simps]: "bt_ok m \<Longrightarrow> bt_ok (bt_or_insert k v m)"
  by (auto simp: bt_or_insert_def bt_simps split: option.split)

lemma bt_get_or_insert [bt_simps]:
  "bt_get (bt_or_insert k v m) k' = (if k' = k then Some (unwrap_or (bt_get m k) v) else bt_get m k')"
  by (auto simp: bt_or_insert_def bt_simps split: option.split)

lemma bt_ok_collect [bt_simps]: "bt_ok (bt_collect kvs)"
proof -
  have "bt_ok m \<Longrightarrow> bt_ok (foldl (\<lambda>m (k, v). bt_insert k v m) m kvs)" for m :: "'a btmap"
    by (induction kvs arbitrary: m) (auto simp: bt_simps split: prod.split)
  then show ?thesis by (simp add: bt_collect_def)
qed

lemma bt_ok_distinct: "bt_ok m \<Longrightarrow> distinct (bt_keys m)"
  by (simp add: bt_ok_def strict_sorted_iff)

lemma bt_get_eq_iff:
  assumes "bt_ok m" shows "bt_get m k = Some v \<longleftrightarrow> (k, v) \<in> set m"
  using bt_ok_distinct [OF assms] by (simp add: bt_get_map_of)

text \<open>Two ordered maps with the same lookups are the same list.\<close>

lemma bt_ext:
  assumes "bt_ok m" "bt_ok n" and "\<And>k. bt_get m k = bt_get n k"
  shows "m = n"
proof -
  have s: "set m = set n" using assms bt_get_eq_iff by (metis prod.exhaust subset_antisym subsetI)
  have sorted: "sorted (map fst m)" "sorted (map fst n)"
    using assms(1,2) by (simp_all add: bt_ok_def strict_sorted_iff)
  have "inj_on fst (set m)" using bt_ok_distinct [OF assms(1)] by (simp add: distinct_map)
  moreover have "distinct m" "distinct n"
    using assms(1,2) bt_ok_distinct distinct_map by blast+
  ultimately show ?thesis
    using s sorted by (metis map_sorted_distinct_set_unique sup.idem
        bt_ok_distinct assms(1) assms(2))
qed

text \<open>The interface the components rely on: a map with lookup, insertion and removal.\<close>

locale kv_map =
  fixes get :: "'m \<Rightarrow> 'k \<Rightarrow> 'v option"
    and put :: "'k \<Rightarrow> 'v \<Rightarrow> 'm \<Rightarrow> 'm"
    and del :: "'k \<Rightarrow> 'm \<Rightarrow> 'm"
    and ok :: "'m \<Rightarrow> bool"
  assumes get_put: "get (put k v m) k' = (if k' = k then Some v else get m k')"
    and get_del: "ok m \<Longrightarrow> get (del k m) k' = (if k' = k then None else get m k')"
    and ok_put: "ok m \<Longrightarrow> ok (put k v m)"
    and ok_del: "ok m \<Longrightarrow> ok (del k m)"
begin

lemma get_fold_put:
  "get (foldl (\<lambda>m (k, v). put k v m) m kvs) k
     = (case map_of (rev kvs) k of Some v \<Rightarrow> Some v | None \<Rightarrow> get m k)"
  by (induction kvs arbitrary: m)
     (auto simp: get_put map_of_append map_add_def split: option.splits)

lemma ok_fold_del: "ok m \<Longrightarrow> ok (foldl (\<lambda>m k. del k m) m ks)"
  by (induction ks arbitrary: m) (auto simp: ok_del)

lemma get_fold_del:
  "ok m \<Longrightarrow> get (foldl (\<lambda>m k. del k m) m ks) k = (if k \<in> set ks then None else get m k)"
  by (induction ks arbitrary: m) (auto simp: get_del ok_del)

lemma put_then_del: "ok m \<Longrightarrow> get (del k (put k v m)) k = None"
  by (simp add: get_del ok_put)

end

interpretation btm: kv_map bt_get bt_insert bt_remove bt_ok
  by unfold_locales (simp_all add: bt_simps)

lemma bt_get_collect: "bt_get (bt_collect kvs) k = map_of (rev kvs) k"
  unfolding bt_collect_def btm.get_fold_put by (simp split: option.split)

text \<open>Collecting one entry per element of a list whose elements have different keys.\<close>

lemma bt_get_collect_Some:
  assumes "distinct (map f xs)" and "x \<in> set xs"
  shows "bt_get (bt_collect (map (\<lambda>x. (f x, g x)) xs)) (f x) = Some (g x)"
proof -
  have "distinct (map fst (rev (map (\<lambda>x. (f x, g x)) xs)))"
    using assms(1) by (simp add: rev_map [symmetric] comp_def)
  moreover have "(f x, g x) \<in> set (rev (map (\<lambda>x. (f x, g x)) xs))" using assms(2) by auto
  ultimately show ?thesis unfolding bt_get_collect by (rule map_of_is_SomeI)
qed

lemma bt_get_collect_None:
  assumes "k \<notin> f ` set xs" shows "bt_get (bt_collect (map (\<lambda>x. (f x, g x)) xs)) k = None"
proof -
  have "k \<notin> fst ` set (rev (map (\<lambda>x. (f x, g x)) xs))" using assms by auto
  then show ?thesis unfolding bt_get_collect by (simp only: map_of_eq_None_iff not_False_eq_True)
qed

section \<open>The comparison sort\<close>

datatype rust_ordering = Less | Equal | Greater

fun reverse_ord :: "rust_ordering \<Rightarrow> rust_ordering" where
  "reverse_ord Less = Greater"
| "reverse_ord Equal = Equal"
| "reverse_ord Greater = Less"

text \<open>\<^verbatim>\<open>Ord::cmp\<close>, and \<^verbatim>\<open>Ordering::then\<close>.\<close>

definition cmp_ord :: "'a :: linorder \<Rightarrow> 'a \<Rightarrow> rust_ordering" where
  "cmp_ord a b = (if a < b then Less else if a = b then Equal else Greater)"

fun then_ord :: "rust_ordering \<Rightarrow> rust_ordering \<Rightarrow> rust_ordering" where
  "then_ord Equal o2 = o2"
| "then_ord o1 o2 = o1"

lemma reverse_ord_twice [simp]: "reverse_ord (reverse_ord x) = x"
  by (cases x) auto

lemma reverse_ord_eq [simp]: "reverse_ord x = Equal \<longleftrightarrow> x = Equal" "reverse_ord x = Less \<longleftrightarrow> x = Greater"
    "reverse_ord x = Greater \<longleftrightarrow> x = Less"
  by (cases x; simp)+

lemma reverse_then [simp]: "reverse_ord (then_ord a b) = then_ord (reverse_ord a) (reverse_ord b)"
  by (cases a) auto

lemma cmp_ord_eq [simp]: "cmp_ord a b = Equal \<longleftrightarrow> a = b" "cmp_ord a b = Less \<longleftrightarrow> a < b"
    "cmp_ord a b = Greater \<longleftrightarrow> b < a"
  by (auto simp: cmp_ord_def)

lemma reverse_cmp_ord [simp]: "reverse_ord (cmp_ord a b) = cmp_ord b a"
  by (auto simp: cmp_ord_def)

text \<open>\<^verbatim>\<open>slice::sort_by\<close> is stable: equal elements keep their order.\<close>

fun insert_by :: "('a \<Rightarrow> 'a \<Rightarrow> rust_ordering) \<Rightarrow> 'a \<Rightarrow> 'a list \<Rightarrow> 'a list" where
  "insert_by c x [] = [x]"
| "insert_by c x (y # ys) = (if c x y = Greater then y # insert_by c x ys else x # y # ys)"

definition sort_by :: "('a \<Rightarrow> 'a \<Rightarrow> rust_ordering) \<Rightarrow> 'a list \<Rightarrow> 'a list" where
  "sort_by c xs = foldr (insert_by c) xs []"

lemma mset_insert_by [sort_simps]: "mset (insert_by c x xs) = add_mset x (mset xs)"
  by (induction xs) auto

lemma mset_sort_by [sort_simps]: "mset (sort_by c xs) = mset xs"
  by (induction xs) (simp_all add: sort_by_def sort_simps)

lemma set_sort_by [sort_simps, simp]: "set (sort_by c xs) = set xs"
  by (metis mset_sort_by set_mset_mset)

lemma length_sort_by [sort_simps, simp]: "length (sort_by c xs) = length xs"
  by (metis mset_sort_by size_mset)

lemma distinct_sort_by [sort_simps, simp]: "distinct (sort_by c xs) = distinct xs"
  by (metis mset_eq_imp_distinct_iff mset_sort_by)

lemma distinct_map_sort_by [sort_simps, simp]: "distinct (map f (sort_by c xs)) = distinct (map f xs)"
  by (metis mset_eq_imp_distinct_iff mset_map mset_sort_by)

text \<open>
  What \<^verbatim>\<open>sort_by\<close> needs of its comparator to sort: it is total, transitive and
  symmetric under reversal.
\<close>

locale total_cmp =
  fixes cmp :: "'a \<Rightarrow> 'a \<Rightarrow> rust_ordering"
  assumes cmp_refl: "cmp x x = Equal"
    and cmp_rev: "cmp y x = reverse_ord (cmp x y)"
    and cmp_trans: "cmp x y \<noteq> Greater \<Longrightarrow> cmp y z \<noteq> Greater \<Longrightarrow> cmp x z \<noteq> Greater"
begin

lemma cmp_total: "cmp x y \<noteq> Greater \<or> cmp y x \<noteq> Greater"
  using cmp_rev [of x y] by (cases "cmp x y") auto

lemma sorted_insert:
  "sorted_wrt (\<lambda>x y. cmp x y \<noteq> Greater) xs
     \<Longrightarrow> sorted_wrt (\<lambda>x y. cmp x y \<noteq> Greater) (insert_by cmp x xs)"
proof (induction xs)
  case (Cons y ys)
  have s: "set (insert_by cmp x ys) = insert x (set ys)"
    by (metis mset_insert_by set_mset_add_mset_insert set_mset_mset)
  show ?case
  proof (cases "cmp x y = Greater")
    case True
    then have "cmp y x \<noteq> Greater" using cmp_total by blast
    with Cons True s show ?thesis by auto
  next
    case False
    then have "\<forall>z \<in> set (y # ys). cmp x z \<noteq> Greater"
      using Cons.prems cmp_trans [of x y] by auto
    with Cons.prems False show ?thesis by simp
  qed
qed simp

lemma sorted_sort: "sorted_wrt (\<lambda>x y. cmp x y \<noteq> Greater) (sort_by cmp xs)"
  unfolding sort_by_def by (induction xs) (auto intro: sorted_insert)

text \<open>A list with one element per class is sorted in one way only.\<close>

lemma sorted_unique:
  assumes "sorted_wrt (\<lambda>x y. cmp x y \<noteq> Greater) xs" "sorted_wrt (\<lambda>x y. cmp x y \<noteq> Greater) ys"
    and "mset xs = mset ys"
    and "\<And>x y. x \<in> set xs \<Longrightarrow> y \<in> set xs \<Longrightarrow> cmp x y = Equal \<Longrightarrow> x = y"
  shows "xs = ys"
  using assms
proof (induction xs arbitrary: ys)
  case Nil
  then show ?case by simp
next
  case (Cons x xs)
  then obtain y ys' where ys: "ys = y # ys'" by (cases ys) auto
  have "y \<in> set (x # xs)" "x \<in> set ys"
    using Cons.prems(3) ys by (metis list.set_intros(1) mset_eq_setD)+
  then have "cmp x y \<noteq> Greater" "cmp y x \<noteq> Greater"
    using Cons.prems(1,2) ys cmp_refl by auto
  then have "cmp x y = Equal" using cmp_rev [where x = x and y = y] by (cases "cmp x y") auto
  then have xy: "x = y" using Cons.prems(4) \<open>y \<in> set (x # xs)\<close> by simp
  have "xs = ys'" using Cons.prems xy ys by (intro Cons.IH) auto
  with xy ys show ?case by simp
qed

lemma sort_perm:
  assumes "mset xs = mset ys"
    and "\<And>x y. x \<in> set xs \<Longrightarrow> y \<in> set xs \<Longrightarrow> cmp x y = Equal \<Longrightarrow> x = y"
  shows "sort_by cmp xs = sort_by cmp ys"
  using assms by (intro sorted_unique sorted_sort) (simp_all add: sort_simps)

lemma sort_hd_least:
  assumes "y \<in> set xs" shows "cmp (hd (sort_by cmp xs)) y \<noteq> Greater"
proof -
  obtain a l where l: "sort_by cmp xs = a # l"
    using assms set_sort_by [of cmp xs] by (cases "sort_by cmp xs") auto
  then have "y = a \<or> y \<in> set l" using assms set_sort_by [of cmp xs] by (metis set_ConsD)
  then show ?thesis using sorted_sort [of xs] l cmp_refl [of y] by auto
qed

end

text \<open>Sorting in the reversed order gives the reversed list, when no two elements tie.\<close>

definition rev_cmp :: "('a \<Rightarrow> 'a \<Rightarrow> rust_ordering) \<Rightarrow> 'a \<Rightarrow> 'a \<Rightarrow> rust_ordering" where
  "rev_cmp c x y = reverse_ord (c x y)"

lemma total_rev_cmp:
  assumes "total_cmp c" shows "total_cmp (rev_cmp c)"
proof
  fix x y z
  show "rev_cmp c x x = Equal" using total_cmp.cmp_refl [OF assms] by (simp add: rev_cmp_def)
  show "rev_cmp c y x = reverse_ord (rev_cmp c x y)"
    using total_cmp.cmp_rev [OF assms, of y x] by (simp add: rev_cmp_def)
  assume "rev_cmp c x y \<noteq> Greater" "rev_cmp c y z \<noteq> Greater"
  then have "c y x \<noteq> Greater" "c z y \<noteq> Greater"
    using total_cmp.cmp_rev [OF assms, of y x] total_cmp.cmp_rev [OF assms, of z y]
    by (simp_all add: rev_cmp_def)
  then have "c z x \<noteq> Greater" using total_cmp.cmp_trans [OF assms] by blast
  then show "rev_cmp c x z \<noteq> Greater"
    using total_cmp.cmp_rev [OF assms, of z x] by (simp add: rev_cmp_def)
qed

lemma sort_by_rev_cmp:
  assumes c: "total_cmp c"
    and anti: "\<And>x y. x \<in> set xs \<Longrightarrow> y \<in> set xs \<Longrightarrow> c x y = Equal \<Longrightarrow> x = y"
  shows "sort_by (rev_cmp c) xs = rev (sort_by c xs)"
proof (rule total_cmp.sorted_unique [OF total_rev_cmp [OF c]])
  show "sorted_wrt (\<lambda>x y. rev_cmp c x y \<noteq> Greater) (sort_by (rev_cmp c) xs)"
    by (rule total_cmp.sorted_sort [OF total_rev_cmp [OF c]])
  have "sorted_wrt (\<lambda>x y. c x y \<noteq> Greater) (sort_by c xs)"
    by (rule total_cmp.sorted_sort [OF c])
  then have "sorted_wrt (\<lambda>x y. c y x \<noteq> Greater) (rev (sort_by c xs))"
    by (simp add: sorted_wrt_rev)
  moreover have "rev_cmp c x y = c y x" for x y
    using total_cmp.cmp_rev [OF c, of y x] by (simp add: rev_cmp_def)
  ultimately show "sorted_wrt (\<lambda>x y. rev_cmp c x y \<noteq> Greater) (rev (sort_by c xs))"
    by simp
  show "mset (sort_by (rev_cmp c) xs) = mset (rev (sort_by c xs))"
    by (simp add: sort_simps)
  show "x = y" if "x \<in> set (sort_by (rev_cmp c) xs)" "y \<in> set (sort_by (rev_cmp c) xs)"
    "rev_cmp c x y = Equal" for x y
    using that anti by (simp add: rev_cmp_def)
qed

lemma total_cmp_cmp_ord: "total_cmp (cmp_ord :: 'a :: linorder \<Rightarrow> 'a \<Rightarrow> rust_ordering)"
  by unfold_locales auto

text \<open>Sorting by a key, and one comparator after another.\<close>

lemma total_cmp_on_key:
  assumes "total_cmp c" shows "total_cmp (\<lambda>x y. c (f x) (f y))"
  by unfold_locales (auto intro: total_cmp.cmp_refl [OF assms] total_cmp.cmp_rev [OF assms]
      total_cmp.cmp_trans [OF assms, THEN notE])

lemma total_cmp_then:
  assumes c: "total_cmp c" and d: "total_cmp d"
  shows "total_cmp (\<lambda>x y. then_ord (c x y) (d x y))"
proof
  fix x y z
  show "then_ord (c x x) (d x x) = Equal"
    using total_cmp.cmp_refl [OF c] total_cmp.cmp_refl [OF d] by simp
  show "then_ord (c y x) (d y x) = reverse_ord (then_ord (c x y) (d x y))"
    using total_cmp.cmp_rev [OF c, of y x] total_cmp.cmp_rev [OF d, of y x] by simp
  assume a: "then_ord (c x y) (d x y) \<noteq> Greater" "then_ord (c y z) (d y z) \<noteq> Greater"
  then have le: "c x y \<noteq> Greater" "c y z \<noteq> Greater" by auto
  then have "c x z \<noteq> Greater" by (rule total_cmp.cmp_trans [OF c])
  moreover have "d x z \<noteq> Greater" if eq: "c x z = Equal"
  proof -
    have zx: "c z x \<noteq> Greater" using eq total_cmp.cmp_rev [OF c, of z x] by simp
    have "c z y \<noteq> Greater" using zx le(1) by (rule total_cmp.cmp_trans [OF c])
    moreover have "c y x \<noteq> Greater" using le(2) zx by (rule total_cmp.cmp_trans [OF c])
    ultimately have "c x y = Equal" "c y z = Equal"
      using le total_cmp.cmp_rev [OF c, of y x] total_cmp.cmp_rev [OF c, of z y]
      by (cases "c x y"; cases "c y z"; simp)+
    with a show ?thesis using total_cmp.cmp_trans [OF d, of x y z] by simp
  qed
  ultimately show "then_ord (c x z) (d x z) \<noteq> Greater"
    by (cases "c x z") auto
qed

section \<open>Strings\<close>

text \<open>Decimal rendering of \<^verbatim>\<open>u32\<close>, \<^verbatim>\<open>u64\<close>, \<^verbatim>\<open>i64\<close> values.\<close>

fun show_nat :: "nat \<Rightarrow> string" where
  "show_nat n = (if n < 10 then [char_of (48 + n)]
                 else show_nat (n div 10) @ [char_of (48 + n mod 10)])"

declare show_nat.simps [simp del]

definition show_int :: "int \<Rightarrow> string" where
  "show_int i = (if i < 0 then ''-'' @ show_nat (nat (- i)) else show_nat (nat i))"

fun join :: "string \<Rightarrow> string list \<Rightarrow> string" where
  "join sep [] = ''''"
| "join sep [x] = x"
| "join sep (x # y # xs) = x @ sep @ join sep (y # xs)"

definition is_ascii_space :: "char \<Rightarrow> bool" where
  "is_ascii_space c = (c \<in> {CHR '' '', CHR 0x09, CHR 0x0A, CHR 0x0B, CHR 0x0C, CHR 0x0D})"

definition trim :: "string \<Rightarrow> string" where
  "trim s = rev (dropWhile is_ascii_space (rev (dropWhile is_ascii_space s)))"

definition starts_with :: "string \<Rightarrow> string \<Rightarrow> bool" where
  "starts_with s p = (take (length p) s = p)"

definition strip_prefix :: "string \<Rightarrow> string \<Rightarrow> string option" where
  "strip_prefix s p = (if starts_with s p then Some (drop (length p) s) else None)"

definition strip_suffix :: "string \<Rightarrow> string \<Rightarrow> string option" where
  "strip_suffix s p = (if starts_with (rev s) (rev p) then Some (take (length s - length p) s) else None)"

text \<open>\<^verbatim>\<open>str::split(char)\<close>: the pieces between separators, at least one.\<close>

fun split_char :: "char \<Rightarrow> string \<Rightarrow> string list" where
  "split_char d [] = [[]]"
| "split_char d (c # cs) = (if c = d then [] # split_char d cs
     else (case split_char d cs of p # ps \<Rightarrow> (c # p) # ps | [] \<Rightarrow> [[c]]))"

text \<open>\<^verbatim>\<open>str::split_once(char)\<close>.\<close>

fun split_once :: "char \<Rightarrow> string \<Rightarrow> (string \<times> string) option" where
  "split_once d [] = None"
| "split_once d (c # cs) = (if c = d then Some ([], cs)
     else (case split_once d cs of Some (a, b) \<Rightarrow> Some (c # a, b) | None \<Rightarrow> None))"

definition to_ascii_lower :: "char \<Rightarrow> char" where
  "to_ascii_lower c = (let n = of_char c :: nat in if 65 \<le> n \<and> n \<le> 90 then char_of (n + 32) else c)"

lemma split_char_nonempty [simp]: "split_char d s \<noteq> []"
  by (induction s) (auto split: list.splits)

lemma join_split_char: "join [d] (split_char d s) = s"
proof (induction s)
  case (Cons c cs)
  obtain p ps where "split_char d cs = p # ps" by (cases "split_char d cs") auto
  with Cons show ?case by (cases ps) auto
qed simp

lemma starts_with_append: "starts_with s p \<longleftrightarrow> (\<exists>t. s = p @ t)"
  by (metis append_eq_conv_conj append_take_drop_id starts_with_def)

lemma strip_prefix_Some: "strip_prefix s p = Some t \<longleftrightarrow> s = p @ t"
  by (auto simp: strip_prefix_def starts_with_append)

end
