(* ===== verification/Crd.thy ===== *)
theory Crd
  imports Json
begin

text \<open>
  The custom resources of \<^verbatim>\<open>crd.rs\<close>: the specification and the status of a
  \<^verbatim>\<open>NodePowerManagementConfig\<close> (a machine) and of a \<^verbatim>\<open>NodeScalingPool\<close>, and the
  rules that resolve a setting given both on the machine and on its pools.
  Field names carry a prefix per record, as record fields are global names.
\<close>

section \<open>Names\<close>

definition SAFE_TO_EVICT_ANNOTATION :: string where
  "SAFE_TO_EVICT_ANNOTATION = ''hardware-autoscaler.safewords.com/safe-to-evict''"

definition CORDONED_BY_ANNOTATION :: string where
  "CORDONED_BY_ANNOTATION = ''hardware-autoscaler.safewords.com/cordoned-by-operator''"

definition POWERED_OFF_ANNOTATION :: string where
  "POWERED_OFF_ANNOTATION = ''hardware-autoscaler.safewords.com/powered-off''"

section \<open>Manual power-on policy\<close>

datatype manual_power_on_policy = LeaveOn | Adopt | ManualPowerOff

fun caution :: "manual_power_on_policy \<Rightarrow> nat" where
  "caution LeaveOn = 2"
| "caution Adopt = 1"
| "caution ManualPowerOff = 0"

text \<open>Policies are ordered by caution, so that the most cautious is the greatest.\<close>

instantiation manual_power_on_policy :: linorder
begin

definition less_eq_manual_power_on_policy :: "manual_power_on_policy \<Rightarrow> manual_power_on_policy \<Rightarrow> bool" where
  "less_eq_manual_power_on_policy p q = (caution p \<le> caution q)"

definition less_manual_power_on_policy :: "manual_power_on_policy \<Rightarrow> manual_power_on_policy \<Rightarrow> bool" where
  "less_manual_power_on_policy p q = (caution p < caution q)"

instance
proof
  fix p q :: manual_power_on_policy
  assume "p \<le> q" "q \<le> p"
  then show "p = q"
    by (cases p; cases q) (simp_all add: less_eq_manual_power_on_policy_def)
qed (auto simp: less_eq_manual_power_on_policy_def less_manual_power_on_policy_def)

end

definition effective_manual_power_on_policy ::
    "manual_power_on_policy option \<Rightarrow> manual_power_on_policy option list \<Rightarrow> manual_power_on_policy" where
  "effective_manual_power_on_policy machine pools =
     (case machine of Some p \<Rightarrow> p
      | None \<Rightarrow> unwrap_or (max_by_key caution (flatten_opts pools)) LeaveOn)"

section \<open>Timeouts\<close>

definition DEFAULT_BOOT_TIMEOUT_SECONDS :: nat where
  "DEFAULT_BOOT_TIMEOUT_SECONDS = 1200"

definition effective_boot_timeout :: "nat option \<Rightarrow> nat option list \<Rightarrow> nat" where
  "effective_boot_timeout machine pools =
     unwrap_or (opt_or machine (iter_max (flatten_opts pools))) DEFAULT_BOOT_TIMEOUT_SECONDS"

definition effective_manual_power_off_cooldown :: "nat option \<Rightarrow> nat option list \<Rightarrow> nat" where
  "effective_manual_power_off_cooldown machine pools =
     unwrap_or (opt_or machine (iter_max (flatten_opts pools))) 0"

section \<open>Scale-up and scale-down settings\<close>

datatype power_on_failure_policy = Release | Retry

record preferred_node =
  pn_name :: string
  pn_weight :: nat

record scale_up_spec =
  su_enabled :: bool
  su_pending_pod_grace_seconds :: nat
  su_require_explicit_selection :: bool
  su_max_nodes_per_step :: nat
  su_prefer_s3_capable :: bool
  su_preferred_nodes :: "preferred_node list"
  su_boot_timeout_seconds :: "nat option"
  su_boot_failure_backoff_seconds :: nat
  su_power_on_timeout_seconds :: "nat option"
  su_power_on_failure_policy :: power_on_failure_policy

definition DEFAULT_BOOT_FAILURE_BACKOFF_SECONDS :: nat where
  "DEFAULT_BOOT_FAILURE_BACKOFF_SECONDS = 1800"

definition default_scale_up_spec :: scale_up_spec where
  "default_scale_up_spec = \<lparr>
     su_enabled = True,
     su_pending_pod_grace_seconds = 30,
     su_require_explicit_selection = False,
     su_max_nodes_per_step = 3,
     su_prefer_s3_capable = False,
     su_preferred_nodes = [],
     su_boot_timeout_seconds = None,
     su_boot_failure_backoff_seconds = DEFAULT_BOOT_FAILURE_BACKOFF_SECONDS,
     su_power_on_timeout_seconds = None,
     su_power_on_failure_policy = Release \<rparr>"

definition MAX_NODE_WEIGHT :: nat where
  "MAX_NODE_WEIGHT = 100"

definition node_weight :: "scale_up_spec \<Rightarrow> string \<Rightarrow> nat" where
  "node_weight spec node =
     (case find (\<lambda>p. pn_name p = node) (su_preferred_nodes spec) of
        Some p \<Rightarrow> pn_weight p | None \<Rightarrow> 0)"

record scale_down_spec =
  sd_enabled :: bool
  sd_utilization_threshold_percent :: nat
  sd_unneeded_seconds :: nat
  sd_hold_after_power_on_seconds :: "nat option"
  sd_delay_after_scale_up_seconds :: "nat option"
  sd_drain_failure_backoff_seconds :: nat
  sd_ignore_daemon_set_utilization :: bool
  sd_ignore_non_selecting_pod_utilization :: bool
  sd_max_nodes_per_step :: nat

definition DEFAULT_HOLD_AFTER_POWER_ON_SECONDS :: nat where
  "DEFAULT_HOLD_AFTER_POWER_ON_SECONDS = 600"

definition default_scale_down_spec :: scale_down_spec where
  "default_scale_down_spec = \<lparr>
     sd_enabled = True,
     sd_utilization_threshold_percent = 50,
     sd_unneeded_seconds = 600,
     sd_hold_after_power_on_seconds = None,
     sd_delay_after_scale_up_seconds = None,
     sd_drain_failure_backoff_seconds = 1800,
     sd_ignore_daemon_set_utilization = False,
     sd_ignore_non_selecting_pod_utilization = False,
     sd_max_nodes_per_step = 1 \<rparr>"

definition hold_after_power_on :: "scale_down_spec \<Rightarrow> nat" where
  "hold_after_power_on spec =
     unwrap_or (opt_or (sd_hold_after_power_on_seconds spec) (sd_delay_after_scale_up_seconds spec))
       DEFAULT_HOLD_AFTER_POWER_ON_SECONDS"

definition deprecation_warning :: "scale_down_spec \<Rightarrow> string option" where
  "deprecation_warning spec =
     (case (sd_hold_after_power_on_seconds spec, sd_delay_after_scale_up_seconds spec) of
        (Some new, Some old) \<Rightarrow>
          if new \<noteq> old then
            Some (''scaleDown.delayAfterScaleUpSeconds ('' @ show_nat old
                  @ '') is deprecated and ignored: scaleDown.holdAfterPowerOnSeconds ('' @ show_nat new
                  @ '') is also set and wins'')
          else Some ''scaleDown.delayAfterScaleUpSeconds is deprecated and ignored: scaleDown.holdAfterPowerOnSeconds is also set and wins; remove the old name''
      | (None, Some _) \<Rightarrow>
          Some ''scaleDown.delayAfterScaleUpSeconds is deprecated; rename it to scaleDown.holdAfterPowerOnSeconds''
      | _ \<Rightarrow> None)"

text \<open>The power-on failure rule of one attempt (policy and timeout in seconds).\<close>

definition power_on_timeout_of :: "nat \<Rightarrow> scale_up_spec \<Rightarrow> nat" where
  "power_on_timeout_of boot_timeout spec = unwrap_or (su_power_on_timeout_seconds spec) boot_timeout"

definition effective_power_on_failure ::
    "string option \<Rightarrow> (string \<times> scale_up_spec) list \<Rightarrow> nat \<Rightarrow> power_on_failure_policy \<times> nat" where
  "effective_power_on_failure decision_pool pools boot_timeout =
     (let owner = (case decision_pool of None \<Rightarrow> None
                   | Some name \<Rightarrow> find (\<lambda>(pool, _). pool = name) pools) in
      case owner of
        Some (_, spec) \<Rightarrow> (su_power_on_failure_policy spec, power_on_timeout_of boot_timeout spec)
      | None \<Rightarrow>
          if pools = [] then (Release, boot_timeout)
          else
            (let policy = (if (\<exists>(_, spec) \<in> set pools. su_power_on_failure_policy spec = Release)
                           then Release else Retry);
                 timeout = unwrap_or
                   (iter_min (map (\<lambda>(_, spec). power_on_timeout_of boot_timeout spec)
                      (filter (\<lambda>(_, spec). su_power_on_failure_policy spec = policy) pools)))
                   boot_timeout
             in (policy, timeout)))"

section \<open>Machines\<close>

datatype power_policy = Auto | AlwaysOn | AlwaysOff

datatype interface_action = IA_Status | IA_PowerOn | IA_PowerOff

record credentials_ref =
  cr_name :: string
  cr_username_key :: string
  cr_password_key :: string

record power_interface =
  pi_name :: "string option"
  pi_driver :: string
  pi_actions :: "interface_action list option"
  pi_timeout_seconds :: "nat option"
  pi_credentials_secret_ref :: "credentials_ref option"
  pi_config :: json

definition interface_label :: "power_interface \<Rightarrow> string" where
  "interface_label i = unwrap_or (pi_name i) (pi_driver i)"

definition handles :: "power_interface \<Rightarrow> interface_action \<Rightarrow> bool" where
  "handles i action = is_none_or (pi_actions i) (\<lambda>a. action \<in> set a)"

datatype power_off_mode = ModeShutdown | ModeStandby | ModeAuto

record lifecycle_spec =
  lc_boot_timeout_seconds :: "nat option"
  lc_drain_timeout_seconds :: nat
  lc_shutdown_timeout_seconds :: nat
  lc_force_after_drain_timeout :: bool
  lc_power_off_mode :: power_off_mode

definition default_lifecycle_spec :: lifecycle_spec where
  "default_lifecycle_spec = \<lparr>
     lc_boot_timeout_seconds = None,
     lc_drain_timeout_seconds = 300,
     lc_shutdown_timeout_seconds = 300,
     lc_force_after_drain_timeout = False,
     lc_power_off_mode = ModeShutdown \<rparr>"

record npmc_spec =
  nm_node_name :: string
  nm_power_policy :: power_policy
  nm_power_interfaces :: "power_interface list"
  nm_lifecycle :: lifecycle_spec
  nm_manual_power_on_policy :: "manual_power_on_policy option"
  nm_manual_power_off_cooldown_seconds :: "nat option"

datatype phase = Ph_Unknown | Ph_PoweringOn | Ph_On | Ph_Draining | Ph_PoweringOff | Ph_Off
  | Ph_Standby | Ph_Error | Ph_BootFailed

datatype power_state = PS_On | PS_Off | PS_Unknown

fun show_power_state :: "power_state \<Rightarrow> string" where
  "show_power_state PS_On = ''On''"
| "show_power_state PS_Off = ''Off''"
| "show_power_state PS_Unknown = ''Unknown''"

datatype power_target = Target_On | Target_Off

record scaling_decision =
  sdn_pool :: string
  sdn_target :: power_target
  sdn_reason :: string
  sdn_time :: instant

record condition =
  c_type :: string
  c_status :: string
  c_reason :: string
  c_message :: string
  c_last_transition_time :: instant

definition COND_NODE_FOUND :: string where "COND_NODE_FOUND = ''NodeFound''"
definition COND_POOL_MEMBERSHIP :: string where "COND_POOL_MEMBERSHIP = ''PoolMembership''"
definition COND_IDENTITY_VERIFIED :: string where "COND_IDENTITY_VERIFIED = ''IdentityVerified''"
definition COND_POWER_STATE_CONSISTENT :: string where
  "COND_POWER_STATE_CONSISTENT = ''PowerStateConsistent''"
definition COND_PREFERRED_NODES_VALID :: string where
  "COND_PREFERRED_NODES_VALID = ''PreferredNodesValid''"

record manual_power_change =
  mc_time :: instant
  mc_policy :: "manual_power_on_policy option"

record boot_failure =
  bf_time :: instant
  bf_left_on :: bool

record sleep_support =
  ss_boot_id :: string
  ss_s3 :: bool
  ss_detail :: string

record power_action_record =
  pa_action :: string
  pa_time :: instant
  pa_succeeded :: bool
  pa_via :: "string option"

record resource_amounts =
  cpu_millis :: int
  memory_bytes :: int
  ra_pods :: int

record npmc_status =
  st_phase :: phase
  st_phase_since :: "instant option"
  st_power_state :: power_state
  st_node_ready :: bool
  st_pool :: "string option"
  st_pools :: "string list"
  st_scaling_decision :: "scaling_decision option"
  st_conditions :: "condition list"
  st_interface_warnings :: "string list"
  st_last_power_action :: "power_action_record option"
  st_standby_since :: "instant option"
  st_standby_failed_at :: "instant option"
  st_sleep_support :: "sleep_support option"
  st_manual_power_on :: "manual_power_change option"
  st_manual_power_off :: "manual_power_change option"
  st_powered_on_not_ready_since :: "instant option"
  st_boot_failure :: "boot_failure option"
  st_forced_off_at :: "instant option"
  st_drain_failed_at :: "instant option"
  st_allocatable :: "resource_amounts option"
  st_node_labels :: "string btmap option"
  st_extended_resources :: "int btmap"
  st_message :: "string option"

definition default_npmc_status :: npmc_status where
  "default_npmc_status = \<lparr>
     st_phase = Ph_Unknown, st_phase_since = None, st_power_state = PS_Unknown,
     st_node_ready = False, st_pool = None, st_pools = [], st_scaling_decision = None,
     st_conditions = [], st_interface_warnings = [], st_last_power_action = None,
     st_standby_since = None, st_standby_failed_at = None, st_sleep_support = None,
     st_manual_power_on = None, st_manual_power_off = None,
     st_powered_on_not_ready_since = None, st_boot_failure = None, st_forced_off_at = None,
     st_drain_failed_at = None, st_allocatable = None, st_node_labels = None,
     st_extended_resources = [], st_message = None \<rparr>"

text \<open>The object: its name and generation, its specification and status.\<close>

record npmc =
  np_name :: string
  np_generation :: "int option"
  np_spec :: npmc_spec
  np_status :: "npmc_status option"

section \<open>Conditions\<close>

fun set_condition ::
    "condition list \<Rightarrow> string \<Rightarrow> string \<Rightarrow> string \<Rightarrow> string \<Rightarrow> instant \<Rightarrow> condition list" where
  "set_condition [] ty status reason message now =
     [\<lparr> c_type = ty, c_status = status, c_reason = reason, c_message = message,
        c_last_transition_time = now \<rparr>]"
| "set_condition (c # cs) ty status reason message now =
     (if c_type c = ty then
        \<lparr> c_type = c_type c, c_status = status, c_reason = reason, c_message = message,
          c_last_transition_time =
            (if c_status c \<noteq> status then now else c_last_transition_time c) \<rparr> # cs
      else c # set_condition cs ty status reason message now)"

definition status_set_condition ::
    "npmc_status \<Rightarrow> string \<Rightarrow> string \<Rightarrow> string \<Rightarrow> string \<Rightarrow> instant \<Rightarrow> npmc_status" where
  "status_set_condition st ty status reason message now =
     st\<lparr> st_conditions := set_condition (st_conditions st) ty status reason message now \<rparr>"

definition condition_is_true :: "npmc_status \<Rightarrow> string \<Rightarrow> bool" where
  "condition_is_true st ty =
     list_ex (\<lambda>c. c_type c = ty \<and> c_status c = ''True'') (st_conditions st)"

section \<open>Pools\<close>

datatype label_operator = LO_In | LO_NotIn | LO_Exists | LO_DoesNotExist

record label_requirement =
  lr_key :: string
  lr_operator :: label_operator
  lr_values :: "string list"

record node_selector =
  ns_match_labels :: "string btmap"
  ns_match_expressions :: "label_requirement list"

definition selector_is_empty :: "node_selector \<Rightarrow> bool" where
  "selector_is_empty s = (ns_match_labels s = [] \<and> ns_match_expressions s = [])"

definition label_requirement_matches :: "string btmap \<Rightarrow> label_requirement \<Rightarrow> bool" where
  "label_requirement_matches labels r =
     (let value = bt_get labels (lr_key r) in
      case lr_operator r of
        LO_In \<Rightarrow> is_some_and value (\<lambda>v. v \<in> set (lr_values r))
      | LO_NotIn \<Rightarrow> is_none_or value (\<lambda>v. v \<notin> set (lr_values r))
      | LO_Exists \<Rightarrow> value \<noteq> None
      | LO_DoesNotExist \<Rightarrow> value = None)"

definition selector_matches :: "node_selector \<Rightarrow> string btmap \<Rightarrow> bool" where
  "selector_matches s labels =
     (if selector_is_empty s then False
      else (\<forall>(k, v) \<in> set (ns_match_labels s). bt_get labels k = Some v)
         \<and> (\<forall>r \<in> set (ns_match_expressions s). label_requirement_matches labels r))"

record pool_spec =
  ps_node_selector :: node_selector
  ps_min_online :: nat
  ps_max_online :: "nat option"
  ps_scale_up :: scale_up_spec
  ps_scale_down :: scale_down_spec
  ps_manual_power_on_policy :: "manual_power_on_policy option"
  ps_manual_power_on_grace_seconds :: nat
  ps_manual_power_off_cooldown_seconds :: "nat option"

datatype decision_action = DA_PowerOn | DA_PowerOff | DA_NoAction

record decision_record =
  dr_time :: instant
  dr_action :: decision_action
  dr_node :: "string option"
  dr_reason :: string
  dr_candidates :: string

definition MAX_RECENT_DECISIONS :: nat where
  "MAX_RECENT_DECISIONS = 20"

record pool_status =
  pt_members :: "string list"
  pt_conflicts :: "string list"
  pt_releasable :: "string list"
  pt_needed :: "string btmap"
  pt_total_nodes :: nat
  pt_online_nodes :: nat
  pt_pending_pods :: nat
  pt_last_scale_up_time :: "instant option"
  pt_last_scale_down_time :: "instant option"
  pt_unneeded_since :: "instant btmap"
  pt_message :: "string option"
  pt_conditions :: "condition list"
  pt_recent_decisions :: "decision_record list"

definition default_pool_status :: pool_status where
  "default_pool_status = \<lparr>
     pt_members = [], pt_conflicts = [], pt_releasable = [], pt_needed = [],
     pt_total_nodes = 0, pt_online_nodes = 0, pt_pending_pods = 0,
     pt_last_scale_up_time = None, pt_last_scale_down_time = None, pt_unneeded_since = [],
     pt_message = None, pt_conditions = [], pt_recent_decisions = [] \<rparr>"

record pool =
  po_name :: string
  po_spec :: pool_spec
  po_status :: "pool_status option"
  po_deleting :: bool

section \<open>What the resolution rules promise\<close>

lemma caution_inj [simp]: "caution p = caution q \<longleftrightarrow> p = q"
  by (cases p; cases q) simp_all

lemma max_caution_Max:
  assumes "xs \<noteq> []" shows "max_by_key caution xs = Some (Max (set xs))"
proof -
  obtain m where m: "max_by_key caution xs = Some m"
    using assms by (metis max_by_key_None not_Some_eq)
  have "Max (set xs) = m"
    using max_by_key_SomeD [OF m]
    by (intro Max_eqI) (auto simp: less_eq_manual_power_on_policy_def)
  with m show ?thesis by simp
qed

text \<open>A machine's own \<^verbatim>\<open>manualPowerOnPolicy\<close> always wins; without one, the most cautious
  of its pools' policies applies, in the order PowerOff, Adopt, LeaveOn; and with none set
  anywhere the machine is left on.\<close>

theorem manual_policy_most_cautious:
  "effective_manual_power_on_policy machine pools =
     (case machine of Some p \<Rightarrow> p
      | None \<Rightarrow> if flatten_opts pools = [] then LeaveOn else Max (set (flatten_opts pools)))
   \<and> ManualPowerOff < Adopt \<and> Adopt < LeaveOn"
proof -
  have "max_by_key caution xs = (if xs = [] then None else Some (Max (set xs)))" for xs
    using max_caution_Max [of xs] by (auto simp: max_by_key_def)
  then have "unwrap_or (max_by_key caution xs) LeaveOn = (if xs = [] then LeaveOn else Max (set xs))" for xs
    by simp
  then show ?thesis
    by (simp add: effective_manual_power_on_policy_def less_manual_power_on_policy_def
        del: set_filter_map split: option.split)
qed

lemma find_pool_None: "find (\<lambda>(pool, _). pool = name) pools = None \<longleftrightarrow> name \<notin> fst ` set pools"
  by (force simp: find_None_iff)

lemma find_pool_SomeD:
  "find (\<lambda>(pool, _). pool = name) pools = Some (n, spec) \<Longrightarrow> n = name \<and> (name, spec) \<in> set pools"
  by (auto simp: find_Some_iff in_set_conv_nth)

text \<open>A power-on with no owning pool among the machine's pools is governed by the strictest
  of them: it is released as soon as one pool releases, and after the shortest timeout among the
  pools that have that policy.\<close>

theorem unowned_power_on_failure_strictest:
  assumes "pools \<noteq> []" and "\<forall>name. owner = Some name \<longrightarrow> name \<notin> fst ` set pools"
    and "effective_power_on_failure owner pools boot_timeout = (policy, t)"
  shows "(policy = Release \<longleftrightarrow> (\<exists>p spec. (p, spec) \<in> set pools \<and> su_power_on_failure_policy spec = Release))
    \<and> (\<exists>p spec. (p, spec) \<in> set pools \<and> su_power_on_failure_policy spec = policy
          \<and> t = power_on_timeout_of boot_timeout spec)
    \<and> (\<forall>p spec. (p, spec) \<in> set pools \<and> su_power_on_failure_policy spec = policy
          \<longrightarrow> t \<le> power_on_timeout_of boot_timeout spec)"
proof -
  define q where "q = (if (\<exists>(_, spec) \<in> set pools. su_power_on_failure_policy spec = Release)
                       then Release else Retry)"
  define ts where "ts = map (\<lambda>(_, spec). power_on_timeout_of boot_timeout spec)
                      (filter (\<lambda>(_, spec). su_power_on_failure_policy spec = q) pools)"
  have owner: "(case owner of None \<Rightarrow> None | Some name \<Rightarrow> find (\<lambda>(pool, _). pool = name) pools) = None"
    using assms(2) by (auto simp: find_pool_None split: option.split)
  have "effective_power_on_failure owner pools boot_timeout = (q, unwrap_or (iter_min ts) boot_timeout)"
    unfolding effective_power_on_failure_def Let_def owner ts_def q_def using assms(1) by simp
  then have pt: "policy = q" "t = unwrap_or (iter_min ts) boot_timeout"
    using assms(3) by simp_all
  have two: "p \<noteq> Release \<longleftrightarrow> p = Retry" for p :: power_on_failure_policy
    by (cases p) simp_all
  obtain p0 s0 where s0: "(p0, s0) \<in> set pools" "su_power_on_failure_policy s0 = q"
    using assms(1) two unfolding q_def by (cases pools) (fastforce split: if_splits)+
  then have "ts \<noteq> []" by (auto simp: ts_def filter_empty_conv)
  then obtain m where m: "iter_min ts = Some m" by (metis iter_min_None not_Some_eq)
  have "t \<in> set ts" "\<forall>x \<in> set ts. t \<le> x" using iter_min_SomeD [OF m] m pt by auto
  moreover have "(q = Release) \<longleftrightarrow> (\<exists>p spec. (p, spec) \<in> set pools \<and> su_power_on_failure_policy spec = Release)"
    by (auto simp: q_def)
  ultimately show ?thesis unfolding pt(1) by (auto simp: ts_def)
qed

lemma unowned_power_on_failure_strictest_witness:
  "effective_power_on_failure None
     [(''a'', default_scale_up_spec\<lparr> su_power_on_failure_policy := Retry \<rparr>),
      (''b'', default_scale_up_spec\<lparr> su_power_on_timeout_seconds := Some 60 \<rparr>)] 1200 = (Release, 60)
   \<and> (60 :: nat) \<le> power_on_timeout_of 1200 (default_scale_up_spec\<lparr> su_power_on_timeout_seconds := Some 60 \<rparr>)"
proof -
  let ?pools = "[(''a'', default_scale_up_spec\<lparr> su_power_on_failure_policy := Retry \<rparr>),
      (''b'', default_scale_up_spec\<lparr> su_power_on_timeout_seconds := Some 60 \<rparr>)]"
  have e: "effective_power_on_failure None ?pools 1200 = (Release, 60)"
    by (simp add: effective_power_on_failure_def default_scale_up_spec_def iter_min_def
        power_on_timeout_of_def)
  show ?thesis using unowned_power_on_failure_strictest [of ?pools None 1200 Release 60] e
    by (auto simp: default_scale_up_spec_def)
qed

abbreviation find_condition :: "string \<Rightarrow> condition list \<Rightarrow> condition option" where
  "find_condition ty \<equiv> find (\<lambda>c. c_type c = ty)"

text \<open>Setting a condition replaces the condition of that type and no other; its
  \<^verbatim>\<open>lastTransitionTime\<close> moves only when the status changes, not when the reason or message does.\<close>

theorem set_condition_lookup:
  "find_condition ty' (set_condition cs ty status reason message now) =
     (if ty' = ty then
        Some \<lparr> c_type = ty, c_status = status, c_reason = reason, c_message = message,
               c_last_transition_time =
                 (case find_condition ty cs of
                    Some c \<Rightarrow> if c_status c = status then c_last_transition_time c else now
                  | None \<Rightarrow> now) \<rparr>
      else find_condition ty' cs)"
  by (induction cs) auto

lemma set_condition_types:
  "set (map c_type (set_condition cs ty status reason message now)) = insert ty (set (map c_type cs))"
  by (induction cs) auto

lemma set_condition_distinct:
  "distinct (map c_type cs) \<Longrightarrow> distinct (map c_type (set_condition cs ty status reason message now))"
proof (induction cs)
  case (Cons c cs)
  then show ?case using set_condition_types [of cs ty status reason message now] by auto
qed simp

lemma set_condition_is_true:
  assumes "distinct (map c_type cs)"
  shows "list_ex (\<lambda>c. c_type c = ty' \<and> c_status c = ''True'') (set_condition cs ty status reason message now)
    = (if ty' = ty then status = ''True'' else list_ex (\<lambda>c. c_type c = ty' \<and> c_status c = ''True'') cs)"
  using assms
proof (induction cs)
  case (Cons c cs)
  show ?case
  proof (cases "c_type c = ty")
    case True
    then have "\<not> list_ex (\<lambda>c. c_type c = ty \<and> c_status c = ''True'') cs"
      using Cons.prems unfolding list_ex_iff by (metis distinct.simps(2) image_eqI list.simps(9) list.set_map)
    with True show ?thesis by simp
  next
    case False
    with Cons show ?thesis by simp
  qed
qed auto

lemma condition_is_true_set:
  "distinct (map c_type (st_conditions st)) \<Longrightarrow>
   condition_is_true (status_set_condition st ty status reason message now) ty' =
     (if ty' = ty then status = ''True'' else condition_is_true st ty')"
  by (simp add: condition_is_true_def status_set_condition_def set_condition_is_true)

lemma selector_empty_matches_nothing:
  "selector_is_empty s \<Longrightarrow> \<not> selector_matches s labels"
  by (simp add: selector_matches_def)

text \<open>A pool's selector never enrols a node it was not asked to: the empty selector matches
  no node, and adding a required label or expression to a non-empty selector can only shrink the
  set of nodes it matches.\<close>

theorem selector_only_narrows:
  "\<not> selector_matches \<lparr> ns_match_labels = [], ns_match_expressions = [] \<rparr> labels
   \<and> selector_matches \<lparr> ns_match_labels = ls, ns_match_expressions = r # es \<rparr> labels
     = (label_requirement_matches labels r
        \<and> (selector_matches \<lparr> ns_match_labels = ls, ns_match_expressions = es \<rparr> labels
           \<or> ls = [] \<and> es = []))
   \<and> selector_matches \<lparr> ns_match_labels = (k, v) # ls, ns_match_expressions = es \<rparr> labels
     = (bt_get labels k = Some v
        \<and> (selector_matches \<lparr> ns_match_labels = ls, ns_match_expressions = es \<rparr> labels
           \<or> ls = [] \<and> es = []))"
  by (auto simp: selector_matches_def selector_is_empty_def)

lemma node_weight_listed:
  assumes "distinct (map pn_name (su_preferred_nodes spec))" and "p \<in> set (su_preferred_nodes spec)"
  shows "node_weight spec (pn_name p) = pn_weight p"
proof -
  have "distinct (map pn_name ps) \<Longrightarrow> p \<in> set ps \<Longrightarrow> find (\<lambda>q. pn_name q = pn_name p) ps = Some p" for ps
    by (induction ps) auto
  with assms show ?thesis by (simp add: node_weight_def)
qed

lemma node_weight_unlisted:
  "name \<notin> pn_name ` set (su_preferred_nodes spec) \<Longrightarrow> node_weight spec name = 0"
proof -
  assume "name \<notin> pn_name ` set (su_preferred_nodes spec)"
  then have "find (\<lambda>p. pn_name p = name) (su_preferred_nodes spec) = None"
    by (auto simp: find_None_iff)
  then show ?thesis by (simp add: node_weight_def)
qed

end
