(* ===== verification/KubeObjects.thy ===== *)
theory KubeObjects
  imports Prelude
begin

text \<open>
  The Kubernetes objects as far as the sources read them.  Chains of optional
  structs of which only the innermost field is read are one option field: a
  pod's required node affinity is \<^verbatim>\<open>None\<close> when any of \<^verbatim>\<open>affinity\<close>, \<^verbatim>\<open>nodeAffinity\<close> or
  \<^verbatim>\<open>requiredDuringSchedulingIgnoredDuringExecution\<close> is absent, and the fields of a node's
  \<^verbatim>\<open>spec\<close> and \<^verbatim>\<open>status\<close> are \<^verbatim>\<open>None\<close> when that part of the object is.
\<close>

record resource_requirements =
  rr_limits :: "string btmap option"
  rr_requests :: "string btmap option"

record container =
  ct_resources :: "resource_requirements option"

record node_selector_requirement =
  nr_key :: string
  nr_operator :: string
  nr_values :: "string list option"

record toleration =
  to_key :: "string option"
  to_operator :: "string option"
  to_value :: "string option"
  to_effect :: "string option"

record taint =
  tt_key :: string
  tt_value :: "string option"
  tt_effect :: string

record kpod_spec =
  pd_node_name :: "string option"
  pd_containers :: "container list"
  pd_init_containers :: "container list option"
  pd_overhead :: "string btmap option"
  pd_node_selector :: "string btmap option"
  pd_required_affinity :: "node_selector_requirement list option list option"
  pd_tolerations :: "toleration list option"
  pd_scheduling_gates :: "string list option"

record pod_condition =
  pc_type :: string
  pc_status :: string
  pc_reason :: "string option"

record kpod_status =
  pq_phase :: "string option"
  pq_conditions :: "pod_condition list option"

record kpod =
  p_namespace :: "string option"
  p_name :: "string option"
  p_labels :: "string btmap option"
  p_annotations :: "string btmap option"
  p_owner_kinds :: "string list option"
  p_creation_second :: "int option"
  p_deletion_timestamp :: "instant option"
  p_spec :: "kpod_spec option"
  p_status :: "kpod_status option"

record node_condition =
  nc_type :: string
  nc_status :: string
  nc_last_transition :: "int option"

record knode =
  no_name :: string
  no_labels :: "string btmap"
  no_annotations :: "string btmap"
  no_unschedulable :: "bool option"
  no_taints :: "taint list option"
  no_allocatable :: "string btmap option"
  no_capacity :: "string btmap option"
  no_conditions :: "node_condition list option"
  no_boot_id :: "string option"
  no_system_uuid :: "string option"
  no_addresses :: "(string \<times> string) list option"

text \<open>An empty pod and an empty node, to build concrete ones from.\<close>

definition empty_pod_spec :: kpod_spec where
  "empty_pod_spec = \<lparr> pd_node_name = None, pd_containers = [], pd_init_containers = None,
     pd_overhead = None, pd_node_selector = None, pd_required_affinity = None,
     pd_tolerations = None, pd_scheduling_gates = None \<rparr>"

definition empty_pod :: kpod where
  "empty_pod = \<lparr> p_namespace = None, p_name = None, p_labels = None, p_annotations = None,
     p_owner_kinds = None, p_creation_second = None, p_deletion_timestamp = None,
     p_spec = None, p_status = None \<rparr>"

definition empty_node :: knode where
  "empty_node = \<lparr> no_name = '''', no_labels = [], no_annotations = [], no_unschedulable = None,
     no_taints = None, no_allocatable = None, no_capacity = None, no_conditions = None,
     no_boot_id = None, no_system_uuid = None, no_addresses = None \<rparr>"

end
