(* ===== verification/Float64.thy ===== *)
theory Float64
  imports Prelude
begin

text \<open>
  The \<^verbatim>\<open>f64\<close> arithmetic that quantity parsing and the utilization percentage use,
  executable: a finite value is a sign, a magnitude \<^verbatim>\<open>m\<close> and a binary exponent \<^verbatim>\<open>e\<close>, standing
  for m * 2^e, and every operation rounds the exact rational result to the nearest
  double, ties to even (53 bits of precision, least exponent -1074, overflow to infinity).
\<close>

datatype f64 = NaN | Inf bool | Fin bool int int

fun bit_len :: "int \<Rightarrow> nat" where
  "bit_len n = (if n \<le> 0 then 0 else Suc (bit_len (n div 2)))"

declare bit_len.simps [simp del]

text \<open>The power of two of an integer exponent, as numerator and denominator.\<close>

definition pow2_num :: "int \<Rightarrow> int" where "pow2_num e = 2 ^ nat e"
definition pow2_den :: "int \<Rightarrow> int" where "pow2_den e = 2 ^ nat (- e)"

text \<open>The exponent of the last place of p / q: the one with 2^52 <= p / q / 2^e < 2^53, but not
  below that of the subnormal numbers.\<close>

definition ulp_exp :: "int \<Rightarrow> int \<Rightarrow> int" where
  "ulp_exp p q =
     (let e = int (bit_len p) - int (bit_len q) - 52;
          e' = (if p * pow2_den e < 2 ^ 52 * (q * pow2_num e) then e - 1 else e)
      in max e' (- 1074))"

definition round_half_even :: "int \<Rightarrow> int \<Rightarrow> int" where
  "round_half_even num den =
     (let m = num div den; r = num mod den in
      if den < 2 * r \<or> 2 * r = den \<and> odd m then m + 1 else m)"

definition round_frac :: "bool \<Rightarrow> int \<Rightarrow> int \<Rightarrow> f64" where
  "round_frac neg p q =
     (if p = 0 then Fin neg 0 0
      else let e = ulp_exp p q;
               m = round_half_even (p * pow2_den e) (q * pow2_num e)
           in if 971 < e \<or> e = 971 \<and> 2 ^ 53 \<le> m then Inf neg else Fin neg m e)"

definition f64_of_int :: "int \<Rightarrow> f64" where
  "f64_of_int i = round_frac (i < 0) \<bar>i\<bar> 1"

fun f64_neg :: "f64 \<Rightarrow> bool" where
  "f64_neg NaN = False"
| "f64_neg (Inf n) = n"
| "f64_neg (Fin n _ _) = n"

fun f64_mul :: "f64 \<Rightarrow> f64 \<Rightarrow> f64" where
  "f64_mul (Fin n1 m1 e1) (Fin n2 m2 e2) =
     round_frac (n1 \<noteq> n2) (m1 * m2 * pow2_num (e1 + e2)) (pow2_den (e1 + e2))"
| "f64_mul NaN y = NaN"
| "f64_mul x NaN = NaN"
| "f64_mul (Inf n) (Inf n2) = Inf (n \<noteq> n2)"
| "f64_mul (Inf n) (Fin n2 m e) = (if m = 0 then NaN else Inf (n \<noteq> n2))"
| "f64_mul (Fin n2 m e) (Inf n) = (if m = 0 then NaN else Inf (n \<noteq> n2))"

fun f64_div :: "f64 \<Rightarrow> f64 \<Rightarrow> f64" where
  "f64_div (Fin n1 m1 e1) (Fin n2 m2 e2) =
     (if m2 = 0 then (if m1 = 0 then NaN else Inf (n1 \<noteq> n2))
      else round_frac (n1 \<noteq> n2) (m1 * pow2_num (e1 - e2)) (m2 * pow2_den (e1 - e2)))"
| "f64_div NaN y = NaN"
| "f64_div x NaN = NaN"
| "f64_div (Inf n) (Inf n2) = NaN"
| "f64_div (Inf n) (Fin n2 m e) = Inf (n \<noteq> n2)"
| "f64_div (Fin n2 m e) (Inf n) = Fin (n \<noteq> n2) 0 0"

text \<open>The numeric order; a comparison with NaN is false, and -0 equals 0.\<close>

fun signed_mag :: "bool \<Rightarrow> int \<Rightarrow> int" where
  "signed_mag neg m = (if neg then - m else m)"

fun f64_le :: "f64 \<Rightarrow> f64 \<Rightarrow> bool" where
  "f64_le NaN y = False"
| "f64_le x NaN = False"
| "f64_le (Inf n) (Inf n2) = (n \<or> \<not> n2)"
| "f64_le (Inf n) (Fin _ _ _) = n"
| "f64_le (Fin _ _ _) (Inf n) = (\<not> n)"
| "f64_le (Fin n1 m1 e1) (Fin n2 m2 e2) =
     (signed_mag n1 m1 * pow2_num (e1 - e2) \<le> signed_mag n2 m2 * pow2_den (e1 - e2))"

text \<open>\<^verbatim>\<open>f64::max\<close>: the other operand when one is NaN.\<close>

fun f64_max :: "f64 \<Rightarrow> f64 \<Rightarrow> f64" where
  "f64_max NaN y = y"
| "f64_max x NaN = x"
| "f64_max x y = (if f64_le x y then y else x)"

text \<open>\<^verbatim>\<open>ceil\<close> followed by the saturating cast to \<^verbatim>\<open>i64\<close>.\<close>

definition ceil_frac :: "int \<Rightarrow> int \<Rightarrow> int" where
  "ceil_frac num den = - ((- num) div den)"

definition clamp_i64 :: "int \<Rightarrow> int" where
  "clamp_i64 x = max (- (2 ^ 63)) (min (2 ^ 63 - 1) x)"

fun f64_ceil_as_i64 :: "f64 \<Rightarrow> int" where
  "f64_ceil_as_i64 NaN = 0"
| "f64_ceil_as_i64 (Inf n) = (if n then - (2 ^ 63) else 2 ^ 63 - 1)"
| "f64_ceil_as_i64 (Fin n m e) = clamp_i64 (ceil_frac (signed_mag n m * pow2_num e) (pow2_den e))"

text \<open>The \<^verbatim>\<open>{:.0}\<close> rendering: the nearest integer, ties to even, with the sign of -0 kept.\<close>

fun show_f64_0 :: "f64 \<Rightarrow> string" where
  "show_f64_0 NaN = ''NaN''"
| "show_f64_0 (Inf n) = (if n then ''-inf'' else ''inf'')"
| "show_f64_0 (Fin n m e) =
     (if n then ''-'' else '''') @ show_nat (nat (round_half_even (m * pow2_num e) (pow2_den e)))"

section \<open>Evaluation\<close>

text \<open>Lengths and powers of two computed on the binary numerals, so that evaluating a division takes
  a few steps.\<close>

fun num_len :: "num \<Rightarrow> int" where
  "num_len num.One = 1"
| "num_len (num.Bit0 n) = num_len n + 1"
| "num_len (num.Bit1 n) = num_len n + 1"

definition int_len :: "int \<Rightarrow> int" where
  "int_len n = int (bit_len n)"

lemma bit_len_numeral: "int (bit_len (numeral n)) = num_len n"
proof (induction n)
  case One show ?case by (simp add: bit_len.simps)
next
  case (Bit0 n) then show ?case by (subst bit_len.simps) simp
next
  case (Bit1 n) then show ?case by (subst bit_len.simps) simp
qed

lemma int_len_code [code]:
  "int_len 0 = 0"
  "int_len (Int.Pos n) = num_len n"
  "int_len (Int.Neg n) = 0"
  using bit_len_numeral [of n] by (simp_all add: int_len_def bit_len.simps)

lemma ulp_exp_code [code]:
  "ulp_exp p q = (let e = int_len p - int_len q - 52;
          e' = (if p * pow2_den e < 4503599627370496 * (q * pow2_num e) then e - 1 else e)
      in max e' (- 1074))"
  by (simp add: ulp_exp_def int_len_def)

lemma pow2_num_code [code]:
  "pow2_num e = (if e \<le> 0 then 1 else if even e then (let h = pow2_num (e div 2) in h * h) else 2 * pow2_num (e - 1))"
proof -
  have "pow2_num e = pow2_num (e div 2) * pow2_num (e div 2)" if "0 < e" "even e"
    using that by (simp add: pow2_num_def flip: power_add nat_add_distrib)
  moreover have "pow2_num e = 2 * pow2_num (e - 1)" if "0 < e"
    using that by (simp add: pow2_num_def nat_diff_distrib power_Suc [symmetric])
  ultimately show ?thesis by (simp add: Let_def pow2_num_def)
qed

lemma clamp_i64_code [code]: "clamp_i64 x = max (- 9223372036854775808) (min 9223372036854775807 x)"
  by (simp add: clamp_i64_def)

lemma pow2_den_code [code]: "pow2_den e = pow2_num (- e)"
  by (simp add: pow2_den_def pow2_num_def)

section \<open>Parsing a decimal number\<close>

definition is_digit :: "char \<Rightarrow> bool" where
  "is_digit c = (let n = of_char c :: nat in 48 \<le> n \<and> n \<le> 57)"

definition digits_val :: "string \<Rightarrow> int" where
  "digits_val ds = foldl (\<lambda>a c. a * 10 + (of_char c - 48)) 0 ds"

text \<open>The optional sign in front of a number and of its exponent.\<close>

fun take_sign :: "string \<Rightarrow> bool \<times> string" where
  "take_sign (c # cs) = (if c = CHR ''-'' then (True, cs) else if c = CHR ''+'' then (False, cs)
                         else (False, c # cs))"
| "take_sign [] = (False, [])"

fun parse_exp :: "string \<Rightarrow> int option" where
  "parse_exp [] = Some 0"
| "parse_exp (c # cs) =
     (if c = CHR ''e'' \<or> c = CHR ''E'' then
        (case take_sign cs of (neg, ds) \<Rightarrow>
           if ds \<noteq> [] \<and> list_all is_digit ds
           then Some (if neg then - digits_val ds else digits_val ds) else None)
      else None)"

definition decimal_value :: "bool \<Rightarrow> string \<Rightarrow> string \<Rightarrow> int \<Rightarrow> f64" where
  "decimal_value neg ip fp ex =
     (let e10 = ex - int (length fp) in
      round_frac neg (digits_val (ip @ fp) * 10 ^ nat e10) (10 ^ nat (- e10)))"

text \<open>\<^verbatim>\<open>str::parse::<f64>\<close>: a sign, digits with an optional fraction and exponent, or one of
  the names of the special values in any case.\<close>

definition parse_f64 :: "string \<Rightarrow> f64 option" where
  "parse_f64 s =
     (case take_sign s of (neg, t) \<Rightarrow>
        let low = map to_ascii_lower t in
        if low = ''inf'' \<or> low = ''infinity'' then Some (Inf neg)
        else if low = ''nan'' then Some NaN
        else
          let ip = takeWhile is_digit t; rest = dropWhile is_digit t;
              dot = (rest \<noteq> [] \<and> hd rest = CHR ''.'');
              fp = (if dot then takeWhile is_digit (tl rest) else []);
              rest' = (if dot then dropWhile is_digit (tl rest) else rest)
          in if ip = [] \<and> fp = [] then None
             else case parse_exp rest' of None \<Rightarrow> None
                  | Some ex \<Rightarrow> Some (decimal_value neg ip fp ex))"

section \<open>Integers below 2^53 are exact\<close>

lemma pow2_pos [simp]: "0 < pow2_num e" "0 < pow2_den e"
  by (simp_all add: pow2_num_def pow2_den_def)

lemma pow2_num_nonpos: "e \<le> 0 \<Longrightarrow> pow2_num e = 1"
  by (simp add: pow2_num_def)

lemma bit_len_0 [simp]: "bit_len 0 = 0"
  by (simp add: bit_len.simps)

lemma bit_len_bounds: "0 < n \<Longrightarrow> 2 ^ (bit_len n - 1) \<le> n \<and> n < 2 ^ bit_len n \<and> 0 < bit_len n"
proof (induction n rule: bit_len.induct)
  case (1 n)
  show ?case
  proof (cases "n = 1")
    case True
    then show ?thesis by (simp add: bit_len.simps)
  next
    case False
    with 1 have "2 ^ (bit_len (n div 2) - 1) \<le> n div 2" "n div 2 < 2 ^ bit_len (n div 2)"
        "0 < bit_len (n div 2)"
      by auto
    moreover have "(2 :: int) ^ bit_len (n div 2) = 2 * 2 ^ (bit_len (n div 2) - 1)"
      using \<open>0 < bit_len (n div 2)\<close> by (simp flip: power_Suc)
    moreover have b: "bit_len n = Suc (bit_len (n div 2))" using 1 by (simp add: bit_len.simps)
    moreover have "2 * (n div 2) \<le> n" "n < 2 * (n div 2) + 2" by linarith+
    ultimately have "2 ^ bit_len (n div 2) \<le> n" "n < 2 * 2 ^ bit_len (n div 2)" by linarith+
    then show ?thesis by (simp add: b)
  qed
qed

lemma bit_len_mono:
  assumes "0 < a" "a < 2 ^ k" shows "bit_len a \<le> k"
proof (rule ccontr)
  assume "\<not> bit_len a \<le> k"
  then have "(2 :: int) ^ k \<le> 2 ^ (bit_len a - 1)" by (intro power_increasing) auto
  also have "\<dots> \<le> a" using bit_len_bounds [OF assms(1)] by simp
  finally show False using assms by simp
qed

lemma bit_len_mult: "0 < a \<Longrightarrow> 0 < b \<Longrightarrow> bit_len (a * b) \<le> bit_len a + bit_len b"
  by (intro bit_len_mono) (simp_all add: power_add mult_strict_mono' bit_len_bounds)

text \<open>A quotient that is an integer below 2^53 is represented exactly, with an exponent that is
  not positive.\<close>

lemma round_frac_exact:
  assumes q: "0 < q" and k: "0 \<le> k" "k < 2 ^ 53"
  shows "\<exists>m e. round_frac neg (k * q) q = Fin neg m e \<and> e \<le> 0 \<and> m = k * pow2_den e"
proof (cases "k = 0")
  case True
  then show ?thesis by (auto simp: round_frac_def intro!: exI [of _ 0])
next
  case False
  with k have k0: "0 < k" by simp
  define e0 where "e0 = int (bit_len (k * q)) - int (bit_len q) - 52"
  have "bit_len k \<le> 53" using k k0 by (intro bit_len_mono) auto
  then have e0: "e0 \<le> 1" using bit_len_mult [OF k0 q] by (simp add: e0_def)
  have "ulp_exp (k * q) q \<le> 0"
  proof (cases "e0 = 1")
    case True
    have "k * q * pow2_den 1 < 2 ^ 52 * (q * pow2_num 1)"
      using k q by (simp add: pow2_den_def pow2_num_def)
    then show ?thesis using True e0_def by (simp add: ulp_exp_def Let_def)
  next
    case False
    then show ?thesis using e0 e0_def by (simp add: ulp_exp_def Let_def)
  qed
  then have e: "ulp_exp (k * q) q \<le> 0" .
  let ?e = "ulp_exp (k * q) q"
  have "round_half_even (k * q * pow2_den ?e) (q * pow2_num ?e) = k * pow2_den ?e"
    using q by (simp add: round_half_even_def pow2_num_nonpos [OF e] mult.assoc mult.left_commute [of k q] Let_def)
  then have "round_frac neg (k * q) q = Fin neg (k * pow2_den ?e) ?e"
    using False q e by (simp add: round_frac_def Let_def)
  then show ?thesis using e by blast
qed

text \<open>A float that is the integer k: what the exact operations produce.\<close>

definition f64_is_int :: "f64 \<Rightarrow> int \<Rightarrow> bool" where
  "f64_is_int x k = (\<exists>m e. x = Fin False m e \<and> e \<le> 0 \<and> m = k * pow2_den e)"

lemma f64_is_int_round:
  "0 < q \<Longrightarrow> 0 \<le> k \<Longrightarrow> k < 2 ^ 53 \<Longrightarrow> f64_is_int (round_frac False (k * q) q) k"
  using round_frac_exact [of q k False] by (auto simp: f64_is_int_def)

lemma f64_of_int_exact: "0 \<le> k \<Longrightarrow> k < 2 ^ 53 \<Longrightarrow> f64_is_int (f64_of_int k) k"
  using f64_is_int_round [of 1 k] by (simp add: f64_of_int_def)

lemma f64_mul_exact:
  assumes "f64_is_int x a" "f64_is_int y b" "0 \<le> a * b" "a * b < 2 ^ 53"
  shows "f64_is_int (f64_mul x y) (a * b)"
proof -
  from assms obtain e1 e2 where x: "x = Fin False (a * pow2_den e1) e1" "e1 \<le> 0"
    and y: "y = Fin False (b * pow2_den e2) e2" "e2 \<le> 0"
    by (auto simp: f64_is_int_def)
  have d: "pow2_den e1 * pow2_den e2 = pow2_den (e1 + e2)"
    using x(2) y(2) by (simp add: pow2_den_def nat_add_distrib flip: power_add)
  have "f64_mul x y = round_frac False (a * b * pow2_den (e1 + e2)) (pow2_den (e1 + e2))"
    using x y by (simp add: pow2_num_nonpos d [symmetric] ac_simps)
  then show ?thesis using assms by (simp add: f64_is_int_round)
qed

lemma ceil_exact:
  assumes "f64_is_int x k" "in_i64 k" shows "f64_ceil_as_i64 x = k"
proof -
  obtain e where "x = Fin False (k * pow2_den e) e" "e \<le> 0"
    using assms by (auto simp: f64_is_int_def)
  moreover have "- (k * pow2_den e) div pow2_den e = - k"
  proof -
    have "pow2_den e \<noteq> 0" using pow2_pos(2) [of e] by linarith
    then show ?thesis using nonzero_mult_div_cancel_right [of "pow2_den e" "- k"] by simp
  qed
  ultimately show ?thesis using assms(2)
    by (simp add: ceil_frac_def pow2_num_nonpos clamp_i64_def)
qed

section \<open>Decimal digits\<close>

lemma of_char_digit: "k < 10 \<Longrightarrow> of_char (char_of (48 + k)) = 48 + (k :: nat)"
  by simp

lemma is_digit_char: "k < 10 \<Longrightarrow> is_digit (char_of (48 + k :: nat))"
  by (simp add: is_digit_def)

lemma of_char_digit_int: "k < 10 \<Longrightarrow> (of_char (char_of (48 + k :: nat)) :: int) = 48 + int k"
  using of_char_digit [of k] by (metis of_nat_add of_nat_numeral of_nat_of_char)

lemma show_nat_digits: "list_all is_digit (show_nat n)"
proof (induction n rule: show_nat.induct)
  case (1 n)
  then show ?case
    by (subst show_nat.simps) (auto intro: is_digit_char)
qed

lemma show_nat_nonempty [simp]: "show_nat n \<noteq> []"
  by (subst show_nat.simps) simp

lemma digits_val_snoc: "digits_val (ds @ [c]) = digits_val ds * 10 + (of_char c - 48)"
  by (simp add: digits_val_def)

lemma digits_val_show_nat [simp]: "digits_val (show_nat n) = int n"
proof (induction n rule: show_nat.induct)
  case (1 n)
  show ?case
  proof (cases "n < 10")
    case True
    then show ?thesis using of_char_digit_int [OF True]
      by (subst show_nat.simps) (simp add: digits_val_def del: of_char_of)
  next
    case False
    have m: "n mod 10 < 10" by simp
    have "int (n div 10) * 10 + int (n mod 10) = int n" by presburger
    then show ?thesis using 1 False of_char_digit_int [OF m]
      by (subst show_nat.simps) (simp add: digits_val_snoc del: of_char_of)
  qed
qed

end
