(* ===== verification/Resources.thy ===== *)
theory Resources
  imports Crd KubeObjects Float64
begin

text \<open>
  \<^verbatim>\<open>resources.rs\<close>: quantities, the allocatable amounts of nodes and the requests of
  pods.  Sums are \<^verbatim>\<open>i64\<close> sums of a release build, so they wrap.
\<close>

section \<open>Quantities\<close>

definition f64_pow10 :: "int \<Rightarrow> f64" where
  "f64_pow10 k = round_frac False (10 ^ nat k) (10 ^ nat (- k))"

definition suffixes :: "(string \<times> f64) list" where
  "suffixes = [
     (''Ki'', f64_of_int 1024),
     (''Mi'', f64_of_int 1048576),
     (''Gi'', f64_of_int 1073741824),
     (''Ti'', f64_of_int 1099511627776),
     (''Pi'', f64_of_int 1125899906842624),
     (''Ei'', f64_of_int 1152921504606846976),
     (''n'', f64_pow10 (- 9)),
     (''u'', f64_pow10 (- 6)),
     (''m'', f64_pow10 (- 3)),
     (''k'', f64_pow10 3),
     (''M'', f64_pow10 6),
     (''G'', f64_pow10 9),
     (''T'', f64_pow10 12),
     (''P'', f64_pow10 15),
     (''E'', f64_pow10 18)]"

fun find_suffix :: "(string \<times> f64) list \<Rightarrow> string \<Rightarrow> (string \<times> f64) option" where
  "find_suffix [] q = None"
| "find_suffix ((s, m) # rest) q =
     (case strip_suffix q s of Some n \<Rightarrow> Some (n, m) | None \<Rightarrow> find_suffix rest q)"

definition parse_quantity :: "string \<Rightarrow> f64 \<Rightarrow> int option" where
  "parse_quantity q0 scale =
     (let q = trim q0 in
      if q = [] then None
      else
        (let (number, multiplier) = unwrap_or (find_suffix suffixes q) (q, f64_of_int 1) in
         case parse_f64 number of
           None \<Rightarrow> None
         | Some value \<Rightarrow> Some (f64_ceil_as_i64 (f64_mul (f64_mul value multiplier) scale))))"

definition get_quantity :: "string btmap \<Rightarrow> string \<Rightarrow> f64 \<Rightarrow> int" where
  "get_quantity m key scale =
     (case bt_get m key of None \<Rightarrow> 0 | Some q \<Rightarrow> unwrap_or (parse_quantity q scale) 0)"

definition amounts :: "string btmap \<Rightarrow> resource_amounts" where
  "amounts m = \<lparr> cpu_millis = get_quantity m ''cpu'' (f64_of_int 1000),
                 memory_bytes = get_quantity m ''memory'' (f64_of_int 1),
                 ra_pods = get_quantity m ''pods'' (f64_of_int 1) \<rparr>"

definition zero_amounts :: resource_amounts where
  "zero_amounts = \<lparr> cpu_millis = 0, memory_bytes = 0, ra_pods = 0 \<rparr>"

section \<open>Extended resources\<close>

definition is_extended_resource :: "string \<Rightarrow> bool" where
  "is_extended_resource name =
     (CHR ''/'' \<in> set name \<and> \<not> starts_with name ''kubernetes.io/'' \<and> \<not> starts_with name ''requests.'')"

definition extended :: "string btmap \<Rightarrow> int btmap" where
  "extended m = bt_collect (filter_map
     (\<lambda>(k, q). if is_extended_resource k
               then (case parse_quantity q (f64_of_int 1) of Some v \<Rightarrow> Some (k, v) | None \<Rightarrow> None)
               else None) m)"

definition node_extended :: "knode \<Rightarrow> int btmap" where
  "node_extended node = (case no_allocatable node of None \<Rightarrow> [] | Some m \<Rightarrow> extended m)"

definition container_extended :: "container \<Rightarrow> int btmap" where
  "container_extended c =
     (case ct_resources c of None \<Rightarrow> []
      | Some r \<Rightarrow>
          foldl (\<lambda>m (k, v). bt_insert k v m)
            (case rr_limits r of None \<Rightarrow> [] | Some l \<Rightarrow> extended l)
            (case rr_requests r of None \<Rightarrow> [] | Some q \<Rightarrow> extended q))"

definition add_extended :: "int btmap \<Rightarrow> container \<Rightarrow> int btmap" where
  "add_extended acc c = foldl (\<lambda>m (k, v). bt_insert k (wrap_i64 (unwrap_or (bt_get m k) 0 + v)) m)
     acc (container_extended c)"

definition max_extended :: "int btmap \<Rightarrow> container \<Rightarrow> int btmap" where
  "max_extended acc c = foldl (\<lambda>m (k, v). bt_insert k (max (unwrap_or (bt_get m k) 0) v) m)
     acc (container_extended c)"

definition pod_extended_requests :: "kpod \<Rightarrow> int btmap" where
  "pod_extended_requests pod =
     (case p_spec pod of None \<Rightarrow> []
      | Some spec \<Rightarrow>
          (let sum = foldl add_extended [] (pd_containers spec);
               sum = foldl max_extended sum (unwrap_or (pd_init_containers spec) [])
           in bt_retain (\<lambda>_ v. 0 < v) sum))"

section \<open>Amounts\<close>

definition node_allocatable :: "knode \<Rightarrow> resource_amounts" where
  "node_allocatable node =
     (case opt_or (no_allocatable node) (no_capacity node) of
        None \<Rightarrow> zero_amounts | Some m \<Rightarrow> amounts m)"

definition container_requests :: "container \<Rightarrow> resource_amounts" where
  "container_requests c =
     (case ct_resources c of None \<Rightarrow> zero_amounts
      | Some r \<Rightarrow> (case rr_requests r of None \<Rightarrow> zero_amounts | Some q \<Rightarrow> amounts q))"

definition add_cpu_memory :: "resource_amounts \<Rightarrow> resource_amounts \<Rightarrow> resource_amounts" where
  "add_cpu_memory acc r =
     acc\<lparr> cpu_millis := wrap_i64 (cpu_millis acc + cpu_millis r),
          memory_bytes := wrap_i64 (memory_bytes acc + memory_bytes r) \<rparr>"

definition max_cpu_memory :: "resource_amounts \<Rightarrow> resource_amounts \<Rightarrow> resource_amounts" where
  "max_cpu_memory acc r =
     acc\<lparr> cpu_millis := max (cpu_millis acc) (cpu_millis r),
          memory_bytes := max (memory_bytes acc) (memory_bytes r) \<rparr>"

definition pod_requests :: "kpod \<Rightarrow> resource_amounts" where
  "pod_requests pod =
     (case p_spec pod of None \<Rightarrow> zero_amounts\<lparr> ra_pods := 1 \<rparr>
      | Some spec \<Rightarrow>
          (let sum = foldl (\<lambda>s c. add_cpu_memory s (container_requests c)) zero_amounts
                       (pd_containers spec);
               sum = foldl (\<lambda>s c. max_cpu_memory s (container_requests c)) sum
                       (unwrap_or (pd_init_containers spec) []);
               sum = (case pd_overhead spec of None \<Rightarrow> sum
                      | Some o' \<Rightarrow> add_cpu_memory sum (amounts o'))
           in sum\<lparr> ra_pods := 1 \<rparr>))"

definition ra_add :: "resource_amounts \<Rightarrow> resource_amounts \<Rightarrow> resource_amounts" where
  "ra_add a b = \<lparr> cpu_millis = wrap_i64 (cpu_millis a + cpu_millis b),
                  memory_bytes = wrap_i64 (memory_bytes a + memory_bytes b),
                  ra_pods = wrap_i64 (ra_pods a + ra_pods b) \<rparr>"

definition ra_fits :: "resource_amounts \<Rightarrow> resource_amounts \<Rightarrow> bool" where
  "ra_fits free req = (cpu_millis req \<le> cpu_millis free \<and> memory_bytes req \<le> memory_bytes free
                       \<and> ra_pods req \<le> ra_pods free)"

definition ra_minus :: "resource_amounts \<Rightarrow> resource_amounts \<Rightarrow> resource_amounts" where
  "ra_minus a b = \<lparr> cpu_millis = wrap_i64 (cpu_millis a - cpu_millis b),
                    memory_bytes = wrap_i64 (memory_bytes a - memory_bytes b),
                    ra_pods = wrap_i64 (ra_pods a - ra_pods b) \<rparr>"

definition usage_ratio :: "int \<Rightarrow> int \<Rightarrow> f64" where
  "usage_ratio u t = (if 0 < t then f64_div (f64_of_int u) (f64_of_int t) else Fin False 0 0)"

definition utilization_percent :: "resource_amounts \<Rightarrow> resource_amounts \<Rightarrow> f64" where
  "utilization_percent self used =
     f64_mul (f64_of_int 100)
       (f64_max (usage_ratio (cpu_millis used) (cpu_millis self))
                (usage_ratio (memory_bytes used) (memory_bytes self)))"

section \<open>Quantities of whole numbers are exact\<close>

lemma digit_not_space: "is_digit c \<Longrightarrow> \<not> is_ascii_space c"
  by (auto simp: is_digit_def is_ascii_space_def)

lemma takeWhile_digits [simp]: "list_all is_digit ds \<Longrightarrow> takeWhile is_digit ds = ds"
  by (simp add: takeWhile_eq_all_conv list_all_iff)

lemma dropWhile_digits [simp]: "list_all is_digit ds \<Longrightarrow> dropWhile is_digit ds = []"
  by (simp add: dropWhile_eq_Nil_conv list_all_iff)

text \<open>A quantity of digits and a suffix of letters has no space to trim.\<close>

lemma trim_no_space:
  assumes "\<forall>c \<in> set s. \<not> is_ascii_space c" shows "trim s = s"
proof -
  have "dropWhile is_ascii_space t = t" if "set t = set s" for t
    using that assms by (cases t) auto
  then show ?thesis by (simp add: trim_def)
qed

lemma lower_digit: "is_digit c \<Longrightarrow> to_ascii_lower c = c"
  by (auto simp: is_digit_def to_ascii_lower_def Let_def)

lemma digit_not_letter: "is_digit c \<Longrightarrow> c \<noteq> CHR ''i'' \<and> c \<noteq> CHR ''n'' \<and> c \<noteq> CHR ''-'' \<and> c \<noteq> CHR ''+''
    \<and> c \<noteq> CHR ''u'' \<and> c \<noteq> CHR ''m'' \<and> c \<noteq> CHR ''k'' \<and> c \<noteq> CHR ''M'' \<and> c \<noteq> CHR ''G''
    \<and> c \<noteq> CHR ''T'' \<and> c \<noteq> CHR ''P'' \<and> c \<noteq> CHR ''E''"
  by (auto simp: is_digit_def)

lemma parse_f64_digits:
  assumes d: "list_all is_digit ds" and ne: "ds \<noteq> []" and small: "digits_val ds < 2 ^ 53" "0 \<le> digits_val ds"
  shows "\<exists>v. parse_f64 ds = Some v \<and> f64_is_int v (digits_val ds)"
proof -
  obtain c cs where ds: "ds = c # cs" using ne by (cases ds) auto
  then have c: "is_digit c" using d by simp
  have sign: "take_sign ds = (False, ds)" using digit_not_letter [OF c] by (simp add: ds)
  have low: "hd (map to_ascii_lower ds) = c" using c by (simp add: ds lower_digit)
  have "map to_ascii_lower ds \<noteq> ''inf'' \<and> map to_ascii_lower ds \<noteq> ''infinity'' \<and> map to_ascii_lower ds \<noteq> ''nan''"
    using digit_not_letter [OF c] low by auto
  then have "parse_f64 ds = Some (decimal_value False ds [] 0)"
    using d ne by (simp add: parse_f64_def sign Let_def)
  moreover have "f64_is_int (decimal_value False ds [] 0) (digits_val ds)"
    using f64_is_int_round [of 1 "digits_val ds"] small by (simp add: decimal_value_def)
  ultimately show ?thesis by blast
qed

text \<open>The suffixes whose multiplier is a whole number below 2^53.\<close>

definition whole_suffixes :: "(string \<times> int) list" where
  "whole_suffixes = [('''', 1), (''Ki'', 1024), (''Mi'', 1048576), (''Gi'', 1073741824),
     (''Ti'', 1099511627776), (''Pi'', 1125899906842624), (''k'', 1000), (''M'', 1000000),
     (''G'', 1000000000), (''T'', 1000000000000), (''P'', 1000000000000000)]"

lemma find_suffix_whole:
  assumes ds: "list_all is_digit ds" "ds \<noteq> []" and s: "(s, M) \<in> set whole_suffixes"
  shows "\<exists>x. unwrap_or (find_suffix suffixes (ds @ s)) (ds @ s, f64_of_int 1) = (ds, x) \<and> f64_is_int x M"
proof -
  obtain cs c where "ds = cs @ [c]" using ds(2) by (metis rev_exhaust)
  then have r: "rev ds = c # rev cs" "is_digit c" using ds(1) by (simp_all add: list_all_iff)
  note c = digit_not_letter [OF r(2)]
  have i: "f64_is_int (f64_of_int k) k" if "0 \<le> k" "k < 2 ^ 53" for k
    using that by (rule f64_of_int_exact)
  have p: "f64_is_int (f64_pow10 k) (10 ^ nat k)" if "0 \<le> k" "10 ^ nat k < (2 :: int) ^ 53" for k
    using that f64_is_int_round [of 1 "10 ^ nat k"] by (simp add: f64_pow10_def)
  have ints: "f64_is_int (f64_of_int 1) 1" "f64_is_int (f64_of_int 1024) 1024"
    "f64_is_int (f64_of_int 1048576) 1048576" "f64_is_int (f64_of_int 1073741824) 1073741824"
    "f64_is_int (f64_of_int 1099511627776) 1099511627776"
    "f64_is_int (f64_of_int 1125899906842624) 1125899906842624"
    by (rule i; simp)+
  have pows: "f64_is_int (f64_pow10 3) 1000" "f64_is_int (f64_pow10 6) 1000000"
    "f64_is_int (f64_pow10 9) 1000000000" "f64_is_int (f64_pow10 12) 1000000000000"
    "f64_is_int (f64_pow10 15) 1000000000000000"
    using p [of 3] p [of 6] p [of 9] p [of 12] p [of 15] by simp_all
  have "find_suffix suffixes ds = None"
    using c by (simp add: suffixes_def strip_suffix_def starts_with_def r(1))
  moreover have "find_suffix suffixes (ds @ ''Ki'') = Some (ds, f64_of_int 1024)"
    "find_suffix suffixes (ds @ ''Mi'') = Some (ds, f64_of_int 1048576)"
    "find_suffix suffixes (ds @ ''Gi'') = Some (ds, f64_of_int 1073741824)"
    "find_suffix suffixes (ds @ ''Ti'') = Some (ds, f64_of_int 1099511627776)"
    "find_suffix suffixes (ds @ ''Pi'') = Some (ds, f64_of_int 1125899906842624)"
    "find_suffix suffixes (ds @ ''k'') = Some (ds, f64_pow10 3)"
    "find_suffix suffixes (ds @ ''M'') = Some (ds, f64_pow10 6)"
    "find_suffix suffixes (ds @ ''G'') = Some (ds, f64_pow10 9)"
    "find_suffix suffixes (ds @ ''T'') = Some (ds, f64_pow10 12)"
    "find_suffix suffixes (ds @ ''P'') = Some (ds, f64_pow10 15)"
    by (simp_all add: suffixes_def strip_suffix_def starts_with_def)
  ultimately show ?thesis
    using s ints pows unfolding whole_suffixes_def
    by (simp only: list.set insert_iff empty_iff prod.inject simp_thms)
       (elim disjE conjE; simp)
qed

text \<open>C33: A quantity that is a decimal whole number, with any of the whole-number suffixes
  (binary Ki to Pi, decimal k to P), is parsed to exactly its value, in units and in
  thousandths, as long as the result stays below 2^53, although it is computed in floating
  point and rounded up.\<close>

theorem parse_quantity_exact:
  assumes "(s, M) \<in> set whole_suffixes" and "scale \<in> {1, 1000}" and "int n * M * scale < 2 ^ 53"
  shows "parse_quantity (show_nat n @ s) (f64_of_int scale) = Some (int n * M * scale)"
proof -
  let ?ds = "show_nat n"
  have M: "1 \<le> M" using assms(1) by (auto simp: whole_suffixes_def)
  have scale: "1 \<le> scale" "f64_is_int (f64_of_int scale) scale"
    using assms(2) by (auto intro!: f64_of_int_exact)
  have n: "0 \<le> int n * M" using M by simp
  have nM: "int n * M \<le> int n * M * scale" using scale n mult_left_mono [of 1 scale "int n * M"] by simp
  have nn: "int n \<le> int n * M" using M mult_left_mono [of 1 M "int n"] by simp
  have small: "int n < 2 ^ 53" "int n * M < 2 ^ 53" using assms(3) nM nn by linarith+
  have "\<forall>(s, M) \<in> set whole_suffixes. list_all (\<lambda>c. \<not> is_ascii_space c) s"
    by (simp add: whole_suffixes_def is_ascii_space_def)
  then have "list_all (\<lambda>c. \<not> is_ascii_space c) s" using assms(1) by blast
  then have sp: "\<forall>c \<in> set (?ds @ s). \<not> is_ascii_space c"
    using show_nat_digits [of n] digit_not_space unfolding list_all_iff set_append by blast
  obtain x where x: "unwrap_or (find_suffix suffixes (?ds @ s)) (?ds @ s, f64_of_int 1) = (?ds, x)"
      "f64_is_int x M"
    using find_suffix_whole [OF show_nat_digits show_nat_nonempty assms(1)] by blast
  obtain v where v: "parse_f64 ?ds = Some v" "f64_is_int v (int n)"
    using parse_f64_digits [OF show_nat_digits show_nat_nonempty, of n] small by auto
  have "f64_is_int (f64_mul (f64_mul v x) (f64_of_int scale)) (int n * M * scale)"
    using v(2) x(2) scale(2) small n nM assms(3) by (intro f64_mul_exact) auto
  then have "f64_ceil_as_i64 (f64_mul (f64_mul v x) (f64_of_int scale)) = int n * M * scale"
    using n nM assms(3) by (intro ceil_exact) auto
  then show ?thesis
    by (simp add: parse_quantity_def trim_no_space [OF sp] x(1) v(1) Let_def)
qed

lemma parse_quantity_exact_witness:
  "parse_quantity (show_nat 16 @ ''Gi'') (f64_of_int 1) = Some 17179869184"
  using parse_quantity_exact [of "''Gi''" 1073741824 1 16] by (simp add: whole_suffixes_def)

text \<open>With the milli suffix, whole millicores are not always exact: the product
  9 * 0.001 * 1000 is rounded to the double just above 9, and rounding up yields 10 millicores
  for a request of \<^verbatim>\<open>9m\<close> (and likewise for 13m or 18m), while 100m is read as 100.\<close>

theorem milli_quantity_rounds_up:
  "parse_quantity ''9m'' (f64_of_int 1000) = Some 10
   \<and> parse_quantity ''13m'' (f64_of_int 1000) = Some 14
   \<and> parse_quantity ''18m'' (f64_of_int 1000) = Some 19
   \<and> parse_quantity ''100m'' (f64_of_int 1000) = Some 100"
  by code_simp

section \<open>The request of a pod\<close>

lemma fold_add_cpu_memory:
  assumes "\<forall>c \<in> set cs. 0 \<le> cpu_millis (container_requests c) \<and> 0 \<le> memory_bytes (container_requests c)"
    and "0 \<le> cpu_millis a" "0 \<le> memory_bytes a"
    and "cpu_millis a + (\<Sum>c\<leftarrow>cs. cpu_millis (container_requests c)) < 2 ^ 63"
    and "memory_bytes a + (\<Sum>c\<leftarrow>cs. memory_bytes (container_requests c)) < 2 ^ 63"
  shows "cpu_millis (foldl (\<lambda>s c. add_cpu_memory s (container_requests c)) a cs)
           = cpu_millis a + (\<Sum>c\<leftarrow>cs. cpu_millis (container_requests c))
    \<and> memory_bytes (foldl (\<lambda>s c. add_cpu_memory s (container_requests c)) a cs)
           = memory_bytes a + (\<Sum>c\<leftarrow>cs. memory_bytes (container_requests c))"
  using assms
proof (induction cs arbitrary: a)
  case (Cons c cs)
  have nn: "0 \<le> (\<Sum>c\<leftarrow>cs. cpu_millis (container_requests c))"
      "0 \<le> (\<Sum>c\<leftarrow>cs. memory_bytes (container_requests c))"
    using Cons.prems(1) by (auto intro!: sum_list_nonneg)
  let ?a = "add_cpu_memory a (container_requests c)"
  have a: "cpu_millis ?a = cpu_millis a + cpu_millis (container_requests c)"
      "memory_bytes ?a = memory_bytes a + memory_bytes (container_requests c)"
    using Cons.prems nn by (simp_all add: add_cpu_memory_def)
  show ?case using Cons.IH [of ?a] Cons.prems a by simp
qed simp

lemma fold_max_cpu_memory:
  "cpu_millis (foldl (\<lambda>s c. max_cpu_memory s (container_requests c)) a cs)
     = Max (insert (cpu_millis a) (set (map (\<lambda>c. cpu_millis (container_requests c)) cs)))"
  "memory_bytes (foldl (\<lambda>s c. max_cpu_memory s (container_requests c)) a cs)
     = Max (insert (memory_bytes a) (set (map (\<lambda>c. memory_bytes (container_requests c)) cs)))"
proof (induction cs arbitrary: a)
  case (Cons c cs)
  have m: "Max (insert (max x y) A) = Max (insert x (insert y A))" if "finite A" for x y :: int and A
    using that by (cases "A = {}") (simp_all add: max.assoc)
  { case 1 show ?case using Cons.IH(1) [of "max_cpu_memory a (container_requests c)"]
      by (simp add: max_cpu_memory_def m) }
  { case 2 show ?case using Cons.IH(2) [of "max_cpu_memory a (container_requests c)"]
      by (simp add: max_cpu_memory_def m) }
qed simp_all

definition containers_cpu :: "kpod_spec \<Rightarrow> int" where
  "containers_cpu spec = (\<Sum>c\<leftarrow>pd_containers spec. cpu_millis (container_requests c))"

definition containers_memory :: "kpod_spec \<Rightarrow> int" where
  "containers_memory spec = (\<Sum>c\<leftarrow>pd_containers spec. memory_bytes (container_requests c))"

definition spec_overhead :: "kpod_spec \<Rightarrow> resource_amounts" where
  "spec_overhead spec = (case pd_overhead spec of None \<Rightarrow> zero_amounts | Some m \<Rightarrow> amounts m)"

text \<open>The request of a pod is what the scheduler counts: the larger of the sum over its
  containers and of every single init container, plus the overhead, and one pod, as long as the
  quantities are not negative and nothing exceeds 64 bits.\<close>

theorem pod_requests_value:
  assumes spec: "p_spec pod = Some spec"
    and inits: "pd_init_containers spec = Some (i # ics)"
    and nonneg: "\<forall>c \<in> set (pd_containers spec). 0 \<le> cpu_millis (container_requests c)
                    \<and> 0 \<le> memory_bytes (container_requests c)"
    and sums: "containers_cpu spec < 2 ^ 63" "containers_memory spec < 2 ^ 63"
    and cpu: "cpu = max (containers_cpu spec)
                  (Max (set (map (\<lambda>c. cpu_millis (container_requests c)) (i # ics))))
                + cpu_millis (spec_overhead spec)"
    and mem: "mem = max (containers_memory spec)
                  (Max (set (map (\<lambda>c. memory_bytes (container_requests c)) (i # ics))))
                + memory_bytes (spec_overhead spec)"
    and range: "in_i64 cpu" "in_i64 mem"
  shows "pod_requests pod = \<lparr> cpu_millis = cpu, memory_bytes = mem, ra_pods = 1 \<rparr>"
proof -
  let ?add = "foldl (\<lambda>s c. add_cpu_memory s (container_requests c)) zero_amounts (pd_containers spec)"
  let ?max = "foldl (\<lambda>s c. max_cpu_memory s (container_requests c)) ?add (i # ics)"
  have add: "cpu_millis ?add = containers_cpu spec" "memory_bytes ?add = containers_memory spec"
    using fold_add_cpu_memory [of "pd_containers spec" zero_amounts] nonneg sums
    by (simp_all add: containers_cpu_def containers_memory_def zero_amounts_def)
  have "cpu_millis ?max + cpu_millis (spec_overhead spec) = cpu"
      "memory_bytes ?max + memory_bytes (spec_overhead spec) = mem"
    unfolding fold_max_cpu_memory add cpu mem by simp_all
  then show ?thesis using range
    by (cases "pd_overhead spec")
       (simp_all add: pod_requests_def spec inits Let_def add_cpu_memory_def spec_overhead_def
          zero_amounts_def del: foldl_Cons)
qed

definition sample_container :: "string \<Rightarrow> container" where
  "sample_container cpu = \<lparr> ct_resources = Some \<lparr> rr_limits = None, rr_requests = Some [(''cpu'', cpu)] \<rparr> \<rparr>"

lemma pod_requests_value_witness:
  "pod_requests (empty_pod\<lparr> p_spec := Some (empty_pod_spec\<lparr> pd_containers := [sample_container ''1'', sample_container ''2''],
      pd_init_containers := Some [sample_container ''5''] \<rparr>) \<rparr>)
   = \<lparr> cpu_millis = 5000, memory_bytes = 0, ra_pods = 1 \<rparr>"
proof -
  have r: "container_requests (sample_container ''1'') = \<lparr> cpu_millis = 1000, memory_bytes = 0, ra_pods = 0 \<rparr>"
      "container_requests (sample_container ''2'') = \<lparr> cpu_millis = 2000, memory_bytes = 0, ra_pods = 0 \<rparr>"
      "container_requests (sample_container ''5'') = \<lparr> cpu_millis = 5000, memory_bytes = 0, ra_pods = 0 \<rparr>"
    by code_simp+
  show ?thesis
    by (rule pod_requests_value [where spec = "empty_pod_spec\<lparr> pd_containers := [sample_container ''1'', sample_container ''2''],
      pd_init_containers := Some [sample_container ''5''] \<rparr>" and i = "sample_container ''5''" and ics = "[]"])
       (simp_all add: empty_pod_def empty_pod_spec_def r containers_cpu_def containers_memory_def
          spec_overhead_def zero_amounts_def)
qed

end
