(* ===== verification/Pods.thy ===== *)
theory Pods
  imports Resources
begin

text \<open>
  The pod half of \<^verbatim>\<open>scaling.rs\<close>: the scheduling view of a pod, whether it could be placed on
  a node (node selector, required affinity, taints), whether it explicitly selects a pool, and
  how draining classifies it.
\<close>

section \<open>The scheduling view\<close>

record pod_view =
  pv_namespace :: string
  pv_name :: string
  pv_requests :: resource_amounts
  pv_node_selector :: "string btmap"
  pv_affinity_terms :: "node_selector_requirement list list"
  pv_tolerations :: "toleration list"
  pv_created :: "instant option"
  pv_extended_requests :: "int btmap"

definition TRANSIENT_TAINTS :: "string list" where
  "TRANSIENT_TAINTS = [
     ''node.kubernetes.io/unschedulable'',
     ''node.kubernetes.io/not-ready'',
     ''node.kubernetes.io/unreachable'',
     ''node.kubernetes.io/network-unavailable'',
     ''node.cloudprovider.kubernetes.io/shutdown'',
     ''node.kubernetes.io/out-of-service'',
     ''node.cilium.io/agent-not-ready'']"

definition tolerates_one :: "toleration \<Rightarrow> taint \<Rightarrow> bool" where
  "tolerates_one t taint =
     (let effect_ok = is_none_or (to_effect t) (\<lambda>e. e = '''' \<or> e = tt_effect taint);
          key_ok = (case to_key t of
                      None \<Rightarrow> to_operator t = Some ''Exists''
                    | Some k \<Rightarrow> if k = '''' then to_operator t = Some ''Exists'' else k = tt_key taint);
          value_ok = (if to_operator t = Some ''Exists'' then True
                      else unwrap_or (to_value t) '''' = unwrap_or (tt_value taint) '''')
      in effect_ok \<and> key_ok \<and> value_ok)"

definition tolerates :: "toleration list \<Rightarrow> taint \<Rightarrow> bool" where
  "tolerates tolerations taint = list_ex (\<lambda>t. tolerates_one t taint) tolerations"

text \<open>\<^verbatim>\<open>str::parse::<i64>\<close>: an optional sign, digits, within range.\<close>

definition parse_i64 :: "string \<Rightarrow> int option" where
  "parse_i64 s =
     (case take_sign s of (neg, ds) \<Rightarrow>
        if ds = [] \<or> \<not> list_all is_digit ds then None
        else (let v = (if neg then - digits_val ds else digits_val ds) in
              if in_i64 v then Some v else None))"

definition requirement_matches :: "node_selector_requirement \<Rightarrow> string btmap \<Rightarrow> bool" where
  "requirement_matches req labels =
     (let value = bt_get labels (nr_key req);
          values = unwrap_or (nr_values req) [];
          first = (case values of [] \<Rightarrow> None | v # _ \<Rightarrow> parse_i64 v);
          have_int = Option.bind value parse_i64;
          oper = nr_operator req
      in if oper = ''In'' then is_some_and value (\<lambda>v. v \<in> set values)
         else if oper = ''NotIn'' then is_none_or value (\<lambda>v. v \<notin> set values)
         else if oper = ''Exists'' then value \<noteq> None
         else if oper = ''DoesNotExist'' then value = None
         else if oper = ''Gt'' then (case (have_int, first) of (Some a, Some b) \<Rightarrow> b < a | _ \<Rightarrow> False)
         else if oper = ''Lt'' then (case (have_int, first) of (Some a, Some b) \<Rightarrow> a < b | _ \<Rightarrow> False)
         else False)"

definition pod_matches_node :: "pod_view \<Rightarrow> string btmap \<Rightarrow> taint list \<Rightarrow> bool" where
  "pod_matches_node pod labels taints =
     (let selector_ok = list_all (\<lambda>(k, v). bt_get labels k = Some v) (pv_node_selector pod);
          affinity_ok = (pv_affinity_terms pod = [] \<or>
             list_ex (\<lambda>term. list_all (\<lambda>r. requirement_matches r labels) term) (pv_affinity_terms pod));
          taints_ok = list_all (\<lambda>t. tolerates (pv_tolerations pod) t)
             (filter (\<lambda>t. tt_key t \<notin> set TRANSIENT_TAINTS)
               (filter (\<lambda>t. tt_effect t = ''NoSchedule'' \<or> tt_effect t = ''NoExecute'') taints))
      in selector_ok \<and> affinity_ok \<and> taints_ok)"

definition explicitly_selects :: "pod_view \<Rightarrow> node_selector \<Rightarrow> bool" where
  "explicitly_selects pod pool =
     (if ns_match_labels pool = [] then False
      else list_all (\<lambda>(key, value).
             bt_get (pv_node_selector pod) key = Some value
             \<or> pv_affinity_terms pod \<noteq> []
               \<and> list_all (\<lambda>term. list_ex (\<lambda>r. nr_key r = key \<and> nr_operator r = ''In''
                     \<and> is_some_and (nr_values r) (\<lambda>v. v \<noteq> [] \<and> list_all (\<lambda>x. x = value) v)) term)
                   (pv_affinity_terms pod))
           (ns_match_labels pool))"

definition from_pod :: "kpod \<Rightarrow> pod_view" where
  "from_pod pod =
      \<lparr> pv_namespace = unwrap_or (p_namespace pod) '''',
        pv_name = unwrap_or (p_name pod) '''',
        pv_requests = pod_requests pod,
        pv_node_selector = unwrap_or (Option.bind (p_spec pod) pd_node_selector) [],
        pv_affinity_terms = unwrap_or (map_option (map (\<lambda>t. unwrap_or t []))
             (Option.bind (p_spec pod) pd_required_affinity)) [],
        pv_tolerations = unwrap_or (Option.bind (p_spec pod) pd_tolerations) [],
        pv_created = map_option secs (p_creation_second pod),
        pv_extended_requests = pod_extended_requests pod \<rparr>"

section \<open>What state a pod is in\<close>

definition pod_phase :: "kpod \<Rightarrow> string option" where
  "pod_phase pod = Option.bind (p_status pod) pq_phase"

definition is_unschedulable :: "kpod \<Rightarrow> bool" where
  "is_unschedulable pod =
     (let bound = Option.bind (p_spec pod) pd_node_name \<noteq> None;
          gated = is_some_and (Option.bind (p_spec pod) pd_scheduling_gates) (\<lambda>g. g \<noteq> []);
          pending = pod_phase pod = Some ''Pending'';
          unschedulable = is_some_and (Option.bind (p_status pod) pq_conditions)
            (list_ex (\<lambda>c. pc_type c = ''PodScheduled'' \<and> pc_status c = ''False''
                          \<and> pc_reason c = Some ''Unschedulable''))
      in \<not> bound \<and> \<not> gated \<and> pending \<and> unschedulable \<and> p_deletion_timestamp pod = None)"

definition is_active :: "kpod \<Rightarrow> bool" where
  "is_active pod = (pod_phase pod \<noteq> Some ''Succeeded'' \<and> pod_phase pod \<noteq> Some ''Failed'')"

definition is_daemonset_pod :: "kpod \<Rightarrow> bool" where
  "is_daemonset_pod pod = list_ex (\<lambda>o'. o' = ''DaemonSet'') (unwrap_or (p_owner_kinds pod) [])"

definition is_mirror_pod :: "kpod \<Rightarrow> bool" where
  "is_mirror_pod pod = is_some_and (p_annotations pod) (\<lambda>a. bt_get a ''kubernetes.io/config.mirror'' \<noteq> None)"

datatype drain_class = DC_Ignore | DC_Evict | DC_Block string

definition pod_label :: "kpod \<Rightarrow> string \<Rightarrow> string option" where
  "pod_label pod k = Option.bind (p_labels pod) (\<lambda>l. bt_get l k)"

definition pod_annotation :: "kpod \<Rightarrow> string \<Rightarrow> string option" where
  "pod_annotation pod k = Option.bind (p_annotations pod) (\<lambda>a. bt_get a k)"

definition is_operator_helper_pod :: "kpod \<Rightarrow> bool" where
  "is_operator_helper_pod pod =
     (pod_label pod ''app.kubernetes.io/name'' = Some ''kube-hardware-autoscaler''
      \<and> (case pod_label pod ''app.kubernetes.io/component'' of
           Some c \<Rightarrow> c = ''sleep-probe'' \<or> c = ''shutdown'' \<or> c = ''wake-relay''
         | None \<Rightarrow> False))"

definition safe_to_evict :: "kpod \<Rightarrow> string option" where
  "safe_to_evict pod = opt_or (pod_annotation pod SAFE_TO_EVICT_ANNOTATION)
     (pod_annotation pod ''cluster-autoscaler.kubernetes.io/safe-to-evict'')"

definition drain_class_of :: "kpod \<Rightarrow> drain_class" where
  "drain_class_of pod =
     (let safe = safe_to_evict pod in
      if \<not> is_active pod \<or> is_operator_helper_pod pod then DC_Ignore
      else if is_daemonset_pod pod \<or> is_mirror_pod pod then
        (if safe = Some ''false'' then DC_Block ''annotated safe-to-evict=false'' else DC_Ignore)
      else if safe = Some ''false'' then DC_Block ''annotated safe-to-evict=false''
      else if safe = Some ''true'' then DC_Evict
      else if unwrap_or (p_owner_kinds pod) [] = [] then DC_Block ''not managed by a controller''
      else DC_Evict)"

section \<open>Placement\<close>

text \<open>C32: A pod that explicitly selects a pool (by its node selector, or by a label requirement
  in every one of its affinity terms) can only be placed on nodes that carry all the labels the
  pool's selector asks for, so counting only such pods never wakes a machine for a pod that
  could run elsewhere only.\<close>

theorem explicit_selection_sound:
  assumes "explicitly_selects pod pool" and "pod_matches_node pod labels taints"
  shows "\<forall>(key, value) \<in> set (ns_match_labels pool). bt_get labels key = Some value"
proof (intro ballI, clarify)
  fix key val assume kv: "(key, val) \<in> set (ns_match_labels pool)"
  show "bt_get labels key = Some val"
  proof (cases "bt_get (pv_node_selector pod) key = Some val")
    case True
    then have "(key, val) \<in> set (pv_node_selector pod)" by (rule bt_get_SomeD)
    then show ?thesis using assms(2) by (auto simp: pod_matches_node_def Let_def list_all_iff)
  next
    case False
    then have terms: "pv_affinity_terms pod \<noteq> []"
      and every: "\<And>term. term \<in> set (pv_affinity_terms pod) \<Longrightarrow> \<exists>r \<in> set term. nr_key r = key
          \<and> nr_operator r = ''In'' \<and> is_some_and (nr_values r) (\<lambda>v. v \<noteq> [] \<and> list_all (\<lambda>x. x = val) v)"
      using assms(1) kv by (auto simp: explicitly_selects_def list_all_iff list_ex_iff split: if_splits)
    obtain t where t: "t \<in> set (pv_affinity_terms pod)" "\<forall>r \<in> set t. requirement_matches r labels"
      using assms(2) terms by (auto simp: pod_matches_node_def Let_def list_all_iff list_ex_iff)
    obtain r where r: "r \<in> set t" "nr_key r = key" "nr_operator r = ''In''"
        "is_some_and (nr_values r) (\<lambda>v. v \<noteq> [] \<and> list_all (\<lambda>x. x = val) v)"
      using every [OF t(1)] by blast
    then have "requirement_matches r labels" using t(2) by blast
    with r show ?thesis
      by (auto simp: requirement_matches_def Let_def is_some_and_iff list_all_iff)
  qed
qed

definition sample_view :: pod_view where
  "sample_view = \<lparr> pv_namespace = ''default'', pv_name = ''p'', pv_requests = zero_amounts,
     pv_node_selector = [], pv_affinity_terms = [[\<lparr> nr_key = ''gpu'', nr_operator = ''In'',
        nr_values = Some [''yes''] \<rparr>]], pv_tolerations = [], pv_created = None,
     pv_extended_requests = [] \<rparr>"

lemma explicit_selection_sound_witness:
  "explicitly_selects sample_view \<lparr> ns_match_labels = [(''gpu'', ''yes'')], ns_match_expressions = [] \<rparr>
   \<and> bt_get [(''gpu'', ''yes'')] ''gpu'' = Some ''yes''"
proof -
  let ?pool = "\<lparr> ns_match_labels = [(''gpu'', ''yes'')], ns_match_expressions = [] \<rparr>"
  have e: "explicitly_selects sample_view ?pool" by code_simp
  have m: "pod_matches_node sample_view [(''gpu'', ''yes'')] []" by code_simp
  show ?thesis using explicit_selection_sound [OF e m] e by auto
qed

text \<open>Draining evicts a pod only when that is safe: it is running, is no helper pod of the
  operator, belongs to no DaemonSet and is no mirror pod, is not annotated as unsafe, and either
  has a controller that recreates it or is annotated as safe; and an active pod annotated
  \<^verbatim>\<open>safe-to-evict=false\<close> blocks the power-off, DaemonSet and mirror pods included.\<close>

theorem drain_evicts_only_safe_pods:
  "(drain_class_of pod = DC_Evict) =
     (is_active pod \<and> \<not> is_operator_helper_pod pod \<and> \<not> is_daemonset_pod pod \<and> \<not> is_mirror_pod pod
      \<and> safe_to_evict pod \<noteq> Some ''false''
      \<and> (safe_to_evict pod = Some ''true'' \<or> 0 < length (unwrap_or (p_owner_kinds pod) [])))
   \<and> ((\<exists>why. drain_class_of pod = DC_Block why) =
     (is_active pod \<and> \<not> is_operator_helper_pod pod
      \<and> (safe_to_evict pod = Some ''false''
         \<or> safe_to_evict pod \<noteq> Some ''true'' \<and> unwrap_or (p_owner_kinds pod) [] = []
            \<and> \<not> is_daemonset_pod pod \<and> \<not> is_mirror_pod pod)))"
  by (auto simp: drain_class_of_def Let_def)

lemma unmanaged_not_daemonset:
  "unwrap_or (p_owner_kinds pod) [] = [] \<Longrightarrow> \<not> is_daemonset_pod pod"
  by (simp add: is_daemonset_pod_def)

lemma gated_pod_not_pending:
  "Option.bind (p_spec pod) pd_scheduling_gates = Some (g # gs) \<Longrightarrow> \<not> is_unschedulable pod"
  by (simp add: is_unschedulable_def Let_def)

end
