(* ===== verification/Order.thy ===== *)
theory Order
  imports Pods
begin

text \<open>
  The members of a pool as the autoscaler sees them, and the order in which a pool powers its
  machines on (\<^verbatim>\<open>power_on_order\<close> of \<^verbatim>\<open>scaling.rs\<close>) and, reversed, off.  The order is a total
  comparison (the interpretation \<^verbatim>\<open>pord\<close> of the prelude's comparator interface), so the
  facts of the comparison sort apply to it.
\<close>

datatype member_state = Online | Booting | Offline | Leaving | Unavailable | Manual

record member =
  m_name :: string
  m_state :: member_state
  m_auto :: bool
  m_labels :: "string btmap"
  m_taints :: "taint list"
  m_allocatable :: resource_amounts
  m_requested :: resource_amounts
  m_counted :: resource_amounts
  m_movable_pods :: "pod_view list"
  m_blocking_pods :: "string list"
  m_drain_failed_at :: "instant option"
  m_s3_capable :: bool
  m_registering :: "int btmap"
  m_woken_by :: "string option"
  m_note :: "string option"
  m_adopted_at :: "instant option"
  m_release_after :: "instant option"

definition pod_fits :: "pod_view \<Rightarrow> member \<Rightarrow> resource_amounts \<Rightarrow> bool" where
  "pod_fits pod m free = (ra_fits free (pv_requests pod) \<and> pod_matches_node pod (m_labels m) (m_taints m))"

definition member_weight :: "pool_spec \<Rightarrow> member \<Rightarrow> nat" where
  "member_weight spec m = node_weight (ps_scale_up spec) (m_name m)"

definition not_preferred_s3 :: "pool_spec \<Rightarrow> member \<Rightarrow> bool" where
  "not_preferred_s3 spec m = (su_prefer_s3_capable (ps_scale_up spec) \<and> \<not> m_s3_capable m)"

definition size_key :: "member \<Rightarrow> int \<times> int" where
  "size_key m = (cpu_millis (m_allocatable m), memory_bytes (m_allocatable m))"

text \<open>A key wrapped in \<^verbatim>\<open>Reverse\<close> compares the other way round.\<close>

definition power_on_order :: "pool_spec \<Rightarrow> member \<Rightarrow> member \<Rightarrow> rust_ordering" where
  "power_on_order spec a b =
     then_ord (cmp_ord (member_weight spec b) (member_weight spec a))
       (then_ord (cmp_ord (not_preferred_s3 spec a) (not_preferred_s3 spec b))
         (then_ord (cmp_ord (size_key b) (size_key a))
           (cmp_ord (m_name a) (m_name b))))"

section \<open>Texts\<close>

text \<open>\<^verbatim>\<open>{}\<close> of millicores as cores: the shortest decimal that reads back as the quotient, which
  for less than 10^15 millicores is the decimal fraction without trailing zeros.\<close>

fun drop_zeros :: "string \<Rightarrow> string" where
  "drop_zeros ds = rev (dropWhile (\<lambda>c. c = CHR ''0'') (rev ds))"

definition show_millis :: "int \<Rightarrow> string" where
  "show_millis i =
     (let a = nat \<bar>i\<bar>; frac = drop_zeros (tl (show_nat (1000 + a mod 1000))) in
      (if i < 0 then ''-'' else '''') @ show_nat (a div 1000)
      @ (if frac = '''' then '''' else ''.'' @ frac))"

definition show_size :: "member \<Rightarrow> string" where
  "show_size m = show_millis (cpu_millis (m_allocatable m)) @ ''c/''
     @ show_f64_0 (f64_div (f64_of_int (memory_bytes (m_allocatable m))) (f64_of_int (2 ^ 30))) @ ''Gi''"

definition traits :: "pool_spec \<Rightarrow> member \<Rightarrow> string" where
  "traits spec m = ''weight '' @ show_nat (member_weight spec m) @ '', S3 ''
     @ (if m_s3_capable m then ''yes'' else ''no'') @ '', '' @ show_size m"

definition deciding_rule :: "pool_spec \<Rightarrow> member \<Rightarrow> member \<Rightarrow> bool \<Rightarrow> string" where
  "deciding_rule spec chosen other down =
     (let wc = member_weight spec chosen; wo = member_weight spec other in
      if wc \<noteq> wo then ''weight ('' @ show_nat wc @ '' vs '' @ show_nat wo @ '')''
      else if su_prefer_s3_capable (ps_scale_up spec) \<and> m_s3_capable chosen \<noteq> m_s3_capable other then
        (if down then ''S3 capability (not S3-capable)'' else ''S3 capability (S3-capable)'')
      else if size_key chosen \<noteq> size_key other then
        ''size ('' @ show_size chosen @ '' vs '' @ show_size other @ '')''
      else ''name ('' @ m_name chosen @ '' '' @ (if down then ''>'' else ''<'') @ '' '' @ m_name other @ '')'')"

definition two_digits :: "nat \<Rightarrow> string" where
  "two_digits n = tl (show_nat (100 + n))"

text \<open>\<^verbatim>\<open>%H:%M:%SZ\<close> of an instant.\<close>

definition hhmmss :: "instant \<Rightarrow> string" where
  "hhmmss t = (let s = nat ((t div 1000000000) mod 86400) in
     two_digits (s div 3600) @ '':'' @ two_digits ((s div 60) mod 60) @ '':'' @ two_digits (s mod 60) @ ''Z'')"

section \<open>The order is total\<close>

lemma total_power_on_order: "total_cmp (power_on_order spec)"
proof -
  have w: "total_cmp (\<lambda>a b. cmp_ord (member_weight spec b) (member_weight spec a))"
    using total_cmp_on_key [OF total_rev_cmp [OF total_cmp_cmp_ord], of "member_weight spec"]
    by (simp add: rev_cmp_def)
  have z: "total_cmp (\<lambda>a b. cmp_ord (size_key b) (size_key a))"
    using total_cmp_on_key [OF total_rev_cmp [OF total_cmp_cmp_ord], of size_key]
    by (simp add: rev_cmp_def)
  have p: "total_cmp (\<lambda>a b. cmp_ord (not_preferred_s3 spec a) (not_preferred_s3 spec b))"
    and n: "total_cmp (\<lambda>a b. cmp_ord (m_name a) (m_name b))"
    by (rule total_cmp_on_key [OF total_cmp_cmp_ord])+
  have "power_on_order spec = (\<lambda>a b. then_ord (cmp_ord (member_weight spec b) (member_weight spec a))
       (then_ord (cmp_ord (not_preferred_s3 spec a) (not_preferred_s3 spec b))
         (then_ord (cmp_ord (size_key b) (size_key a)) (cmp_ord (m_name a) (m_name b)))))"
    by (simp add: fun_eq_iff power_on_order_def)
  then show ?thesis
    using total_cmp_then [OF w total_cmp_then [OF p total_cmp_then [OF z n]]] by simp
qed

interpretation pord: total_cmp "power_on_order spec" for spec
  by (rule total_power_on_order)

lemma then_ord_Equal [simp]: "then_ord a b = Equal \<longleftrightarrow> a = Equal \<and> b = Equal"
  by (cases a) auto

lemma order_Equal_name: "power_on_order spec a b = Equal \<Longrightarrow> m_name a = m_name b"
  by (simp add: power_on_order_def)

lemma order_Equal_distinct:
  assumes "distinct (map m_name ms)" "a \<in> set ms" "b \<in> set ms" "power_on_order spec a b = Equal"
  shows "a = b"
  using assms order_Equal_name by (metis distinct_map inj_onD)

definition rank_on :: "pool_spec \<Rightarrow> member list \<Rightarrow> member list" where
  "rank_on spec ms = sort_by (power_on_order spec) ms"

definition rank_off :: "pool_spec \<Rightarrow> member list \<Rightarrow> member list" where
  "rank_off spec ms = sort_by (\<lambda>a b. power_on_order spec b a) ms"

lemma set_rank [simp]: "set (rank_on spec ms) = set ms" "set (rank_off spec ms) = set ms"
  by (simp_all add: rank_on_def rank_off_def)

lemma distinct_rank [simp]:
  "distinct (map f (rank_on spec ms)) = distinct (map f ms)"
  "distinct (map f (rank_off spec ms)) = distinct (map f ms)"
  by (simp_all add: rank_on_def rank_off_def)

text \<open>C19: With members of different names, the order in which machines are considered for
  powering off is the exact reverse of the order in which they are powered on, and neither
  depends on the order in which the members were listed.\<close>

theorem power_off_order_is_reverse:
  assumes "distinct (map m_name ms)" and "mset ms' = mset ms"
  shows "rank_off spec ms' = rev (rank_on spec ms) \<and> rank_on spec ms' = rank_on spec ms"
proof -
  have m: "mset (map m_name ms') = mset (map m_name ms)" using assms(2) by simp
  have d: "distinct (map m_name ms')"
    using mset_eq_imp_distinct_iff [OF m] assms(1) by blast
  have eq: "rank_on spec ms' = rank_on spec ms"
    unfolding rank_on_def by (rule pord.sort_perm [OF assms(2) order_Equal_distinct [OF d]])
  have "(\<lambda>a b. power_on_order spec b a) = rev_cmp (power_on_order spec)"
    by (intro ext) (simp only: rev_cmp_def pord.cmp_rev [symmetric])
  then have "rank_off spec ms' = rev (rank_on spec ms')"
    unfolding rank_off_def rank_on_def
    using sort_by_rev_cmp [OF total_power_on_order order_Equal_distinct [OF d]] by simp
  with eq show ?thesis by simp
qed

definition sample_member :: "string \<Rightarrow> member_state \<Rightarrow> int \<Rightarrow> member" where
  "sample_member name st cpu = \<lparr> m_name = name, m_state = st, m_auto = True, m_labels = [], m_taints = [],
     m_allocatable = \<lparr> cpu_millis = cpu, memory_bytes = 17179869184, ra_pods = 110 \<rparr>,
     m_requested = zero_amounts, m_counted = zero_amounts, m_movable_pods = [], m_blocking_pods = [],
     m_drain_failed_at = None, m_s3_capable = False, m_registering = [], m_woken_by = None,
     m_note = None, m_adopted_at = None, m_release_after = None \<rparr>"

definition sample_pool_spec :: pool_spec where
  "sample_pool_spec = \<lparr> ps_node_selector = \<lparr> ns_match_labels = [(''pool'', ''a'')], ns_match_expressions = [] \<rparr>,
     ps_min_online = 0, ps_max_online = None, ps_scale_up = default_scale_up_spec,
     ps_scale_down = default_scale_down_spec, ps_manual_power_on_policy = None,
     ps_manual_power_on_grace_seconds = 600, ps_manual_power_off_cooldown_seconds = None \<rparr>"

lemma power_off_order_is_reverse_witness:
  "map m_name (rank_off sample_pool_spec
     [sample_member ''a'' Online 4000, sample_member ''b'' Online 8000]) = [''a'', ''b'']"
proof -
  let ?ms = "[sample_member ''a'' Online 4000, sample_member ''b'' Online 8000]"
  have d: "distinct (map m_name ?ms)" by (simp add: sample_member_def)
  have "map m_name (rank_on sample_pool_spec ?ms) = [''b'', ''a'']" by code_simp
  then show ?thesis
    using power_off_order_is_reverse [OF d refl, of sample_pool_spec] by (simp add: rev_map [symmetric])
qed

end
