(* ===== verification/Plan_Up.thy ===== *)
theory Plan_Up
  imports Order "HOL-Library.Code_Target_Nat"
begin

text \<open>
  The scale-up half of \<^verbatim>\<open>plan\<close> in \<^verbatim>\<open>scaling.rs\<close>: which pending pods the pool serves, the
  first-fit placement into machines that are booting or could be powered on, and the machines
  powered on to reach \<^verbatim>\<open>minOnline\<close>.
\<close>

record external_node =
  en_name :: string
  en_labels :: "string btmap"
  en_taints :: "taint list"
  en_free :: resource_amounts

record pool_snapshot =
  sn_spec :: pool_spec
  sn_members :: "member list"
  sn_pending :: "pod_view list"
  sn_now :: instant
  sn_last_scale_up :: "instant option"
  sn_unneeded_since :: "instant btmap"
  sn_external :: "external_node list"
  sn_kept_by_others :: "(string \<times> string) list btmap"

section \<open>The pods that count\<close>

definition counts_online :: "member \<Rightarrow> bool" where
  "counts_online m = (m_state m = Online \<or> m_state m = Booting)"

definition online_now :: "pool_snapshot \<Rightarrow> nat" where
  "online_now s = length (filter counts_online (sn_members s))"

definition USIZE_MAX :: nat where
  "USIZE_MAX = 18446744073709551615"

definition max_online :: "pool_snapshot \<Rightarrow> nat" where
  "max_online s = unwrap_or (ps_max_online (sn_spec s)) USIZE_MAX"

definition selected_pods :: "pool_snapshot \<Rightarrow> pod_view list" where
  "selected_pods s =
     (let up = ps_scale_up (sn_spec s);
          grace = secs (as_i64 (su_pending_pod_grace_seconds up)) in
      filter (\<lambda>p. \<not> su_require_explicit_selection up
                   \<or> explicitly_selects p (ps_node_selector (sn_spec s)))
        (filter (\<lambda>p. is_none_or (pv_created p) (\<lambda>c. grace \<le> sn_now s - c)) (sn_pending s)))"

definition serves :: "pod_view \<Rightarrow> member \<Rightarrow> bool" where
  "serves p m = (ra_fits (m_allocatable m) (pv_requests p)
     \<and> pod_matches_node p (m_labels m) (m_taints m)
     \<and> (m_state m = Booting \<or> m_auto m \<and> m_state m = Offline))"

definition relevant_pods :: "pool_snapshot \<Rightarrow> pod_view list" where
  "relevant_pods s = filter (\<lambda>p. list_ex (serves p) (sn_members s)) (selected_pods s)"

definition pod_size_key :: "pod_view \<Rightarrow> int \<times> int" where
  "pod_size_key p = (cpu_millis (pv_requests p), memory_bytes (pv_requests p))"

text \<open>Decreasing by CPU, then memory; equal pods keep their order.\<close>

definition decreasing :: "pod_view list \<Rightarrow> pod_view list" where
  "decreasing ps = sort_by (\<lambda>a b. cmp_ord (pod_size_key b) (pod_size_key a)) ps"

section \<open>Placing them\<close>

definition offline_members :: "pool_snapshot \<Rightarrow> member list" where
  "offline_members s = filter (\<lambda>m. m_auto m \<and> m_state m = Offline) (sn_members s)"

definition ranked_up :: "pool_snapshot \<Rightarrow> member list" where
  "ranked_up s = rank_on (sn_spec s) (offline_members s)"

definition position :: "('a \<Rightarrow> bool) \<Rightarrow> 'a list \<Rightarrow> nat option" where
  "position p xs = (let n = length (takeWhile (\<lambda>x. \<not> p x) xs) in if n < length xs then Some n else None)"

definition rank_in :: "member list \<Rightarrow> string \<Rightarrow> nat" where
  "rank_in ranked name = unwrap_or (position (\<lambda>o'. m_name o' = name) ranked) 0 + 1"

record up_state =
  us_bins :: "(member \<times> resource_amounts) list"
  us_offline :: "member list"
  us_opened :: "(string \<times> string) list"
  us_notes :: "(string \<times> string) list"
  us_unplaced :: "(string \<times> string) list"

definition initial_up_state :: "pool_snapshot \<Rightarrow> up_state" where
  "initial_up_state s = \<lparr>
     us_bins = map (\<lambda>m. (m, ra_minus (m_allocatable m) (m_requested m)))
                 (filter (\<lambda>m. m_state m = Booting) (sn_members s)),
     us_offline = ranked_up s, us_opened = [], us_notes = [], us_unplaced = [] \<rparr>"

definition step_limit :: "pool_snapshot \<Rightarrow> nat" where
  "step_limit s = max (su_max_nodes_per_step (ps_scale_up (sn_spec s))) 1"

text \<open>Whether one more machine may be powered on for pods: \<^verbatim>\<open>Inl\<close> is the reason it may not.\<close>

definition can_open :: "pool_snapshot \<Rightarrow> (string \<times> string) list \<Rightarrow> string + unit" where
  "can_open s opened =
     (if max_online s \<le> online_now s + length opened then
        Inl (''maxOnline ('' @ show_nat (max_online s) @ '') reached'')
      else if step_limit s \<le> as_u32 (length opened) then
        Inl (''maxNodesPerStep ('' @ show_nat (step_limit s) @ '') reached this cycle'')
      else Inr ())"

text \<open>The first bin the pod fits in, with the room it takes there taken; \<^verbatim>\<open>None\<close> when no bin
  has the room.\<close>

fun place_in_bins ::
    "pod_view \<Rightarrow> (member \<times> resource_amounts) list \<Rightarrow> (member \<times> resource_amounts) list option" where
  "place_in_bins pod [] = None"
| "place_in_bins pod ((m, free) # bins) =
     (if pod_fits pod m free then Some ((m, ra_minus free (pv_requests pod)) # bins)
      else map_option (Cons (m, free)) (place_in_bins pod bins))"

text \<open>The first element with a property, with what is left when it is taken out and what came
  after it.\<close>

fun take_first :: "('a \<Rightarrow> bool) \<Rightarrow> 'a list \<Rightarrow> ('a \<times> 'a list \<times> 'a list) option" where
  "take_first p [] = None"
| "take_first p (x # xs) =
     (if p x then Some (x, xs, xs)
      else map_option (\<lambda>(y, rest, after). (y, x # rest, after)) (take_first p xs))"

definition pod_full_name :: "pod_view \<Rightarrow> string" where
  "pod_full_name pod = pv_namespace pod @ ''/'' @ pv_name pod"

definition open_decided :: "pool_spec \<Rightarrow> member \<Rightarrow> member option \<Rightarrow> string \<Rightarrow> string" where
  "open_decided spec m next none =
     (case next of Some n \<Rightarrow> ''over '' @ m_name n @ '' by '' @ deciding_rule spec m n False
      | None \<Rightarrow> none)"

definition open_for_pod_reason ::
    "pool_snapshot \<Rightarrow> pod_view \<Rightarrow> member \<Rightarrow> member list \<Rightarrow> string" where
  "open_for_pod_reason s pod m after =
     ''unschedulable pod '' @ pod_full_name pod @ ''; #'' @ show_nat (rank_in (ranked_up s) (m_name m))
     @ '' of '' @ show_nat (length (ranked_up s)) @ '' to power on, ''
     @ open_decided (sn_spec s) m (find (\<lambda>o'. pod_fits pod o' (m_allocatable o')) after)
         ''the only machine off that fits''"

definition place_pod :: "pool_snapshot \<Rightarrow> up_state \<Rightarrow> pod_view \<Rightarrow> up_state" where
  "place_pod s st pod =
     (let waits = (\<lambda>why. st\<lparr> us_unplaced := us_unplaced st @ [(pod_full_name pod, why)] \<rparr>) in
      if \<not> su_enabled (ps_scale_up (sn_spec s)) then waits ''scale-up disabled''
      else
        (case place_in_bins pod (us_bins st) of
           Some bins \<Rightarrow> st\<lparr> us_bins := bins \<rparr>
         | None \<Rightarrow>
             (case can_open s (us_opened st) of
                Inl why \<Rightarrow> waits why
              | Inr _ \<Rightarrow>
                  (case take_first (\<lambda>m. pod_fits pod m (m_allocatable m)) (us_offline st) of
                     Some (m, rest, after) \<Rightarrow>
                       (let reason = open_for_pod_reason s pod m after in
                        st\<lparr> us_offline := rest,
                            us_notes := us_notes st @ [(m_name m, reason)],
                            us_opened := us_opened st @ [(m_name m, reason)],
                            us_bins := us_bins st @ [(m, ra_minus (m_allocatable m) (pv_requests pod))] \<rparr>)
                   | None \<Rightarrow> waits ''fits no machine that is off and Auto''))))"

section \<open>Reaching minOnline\<close>

definition open_for_min_reason :: "pool_snapshot \<Rightarrow> member \<Rightarrow> member list \<Rightarrow> string" where
  "open_for_min_reason s m rest =
     ''pool below minOnline ('' @ show_nat (ps_min_online (sn_spec s)) @ ''); #''
     @ show_nat (rank_in (ranked_up s) (m_name m)) @ '' of '' @ show_nat (length (ranked_up s))
     @ '' to power on, ''
     @ open_decided (sn_spec s) m (case rest of [] \<Rightarrow> None | n # _ \<Rightarrow> Some n) ''the only machine off''"

text \<open>The loop over the machines still off, in power-on order.\<close>

fun fill_min_online :: "pool_snapshot \<Rightarrow> member list \<Rightarrow> up_state \<Rightarrow> up_state" where
  "fill_min_online s [] st = st"
| "fill_min_online s (m # rest) st =
     (if online_now s + length (us_opened st) < ps_min_online (sn_spec s)
         \<and> online_now s + length (us_opened st) < max_online s then
        (let reason = open_for_min_reason s m rest in
         fill_min_online s rest
           (st\<lparr> us_offline := rest,
                us_notes := us_notes st @ [(m_name m, reason)],
                us_opened := us_opened st @ [(m_name m, reason)] \<rparr>))
      else st)"

definition scale_up :: "pool_snapshot \<Rightarrow> up_state" where
  "scale_up s =
     (let placed = foldl (place_pod s) (initial_up_state s) (decreasing (relevant_pods s))
      in fill_min_online s (us_offline placed) placed)"

section \<open>What scale-up keeps\<close>

lemma take_first_SomeD:
  assumes "take_first p xs = Some (x, rest, after)"
  shows "\<exists>before. xs = before @ x # after \<and> rest = before @ after \<and> p x \<and> (\<forall>y \<in> set before. \<not> p y)"
  using assms
proof (induction xs arbitrary: rest)
  case (Cons a xs)
  show ?case
  proof (cases "p a")
    case True
    with Cons.prems have "x = a" "rest = xs" "after = xs" by auto
    with True show ?thesis by (intro exI [of _ "[]"]) simp
  next
    case False
    with Cons.prems obtain rest' where r: "take_first p xs = Some (x, rest', after)" "rest = a # rest'"
      by auto
    from Cons.IH [OF r(1)] obtain before where
      "xs = before @ x # after" "rest' = before @ after" "p x" "\<forall>y \<in> set before. \<not> p y" by blast
    with False r(2) show ?thesis by (intro exI [of _ "a # before"]) simp
  qed
qed simp

lemma take_first_None: "take_first p xs = None \<longleftrightarrow> (\<forall>x \<in> set xs. \<not> p x)"
  by (induction xs) auto

lemma can_open_Inr: "can_open s opened = Inr u \<Longrightarrow>
    online_now s + length opened < max_online s \<and> as_u32 (length opened) < step_limit s"
  by (auto simp: can_open_def split: if_splits)

text \<open>What one pod does to the list of machines powered on and to those still off.\<close>

lemma place_pod_cases:
  obtains (same) "us_opened (place_pod s st pod) = us_opened st"
      "us_offline (place_pod s st pod) = us_offline st"
  | (opened) m rest after reason where
      "online_now s + length (us_opened st) < max_online s"
      "as_u32 (length (us_opened st)) < step_limit s"
      "su_enabled (ps_scale_up (sn_spec s))"
      "take_first (\<lambda>m. pod_fits pod m (m_allocatable m)) (us_offline st) = Some (m, rest, after)"
      "us_opened (place_pod s st pod) = us_opened st @ [(m_name m, reason)]"
      "us_offline (place_pod s st pod) = rest"
proof -
  let ?p = "\<lambda>m. pod_fits pod m (m_allocatable m)"
  show thesis
  proof (cases "su_enabled (ps_scale_up (sn_spec s)) \<and> place_in_bins pod (us_bins st) = None
      \<and> can_open s (us_opened st) = Inr () \<and> take_first ?p (us_offline st) \<noteq> None")
    case True
    then obtain m rest after where t: "take_first ?p (us_offline st) = Some (m, rest, after)" by auto
    with True can_open_Inr [of s "us_opened st"] show thesis
      by (intro opened [OF _ _ _ t]) (auto simp: place_pod_def Let_def)
  next
    case False
    then show thesis
      by (intro same)
         (auto simp: place_pod_def Let_def split: option.split sum.split)
  qed
qed

definition up_inv :: "pool_snapshot \<Rightarrow> up_state \<Rightarrow> bool" where
  "up_inv s st = ((\<exists>ms. map m_name ms = map fst (us_opened st)
                       \<and> mset ms + mset (us_offline st) = mset (ranked_up s))
     \<and> (us_opened st \<noteq> [] \<longrightarrow> online_now s + length (us_opened st) \<le> max_online s))"

lemma up_inv_initial: "up_inv s (initial_up_state s)"
  by (simp add: up_inv_def initial_up_state_def)

lemma up_inv_open:
  assumes "up_inv s st" and "us_offline st = before @ m # after"
    and "online_now s + length (us_opened st) < max_online s"
    and "us_opened st' = us_opened st @ [(m_name m, reason)]" and "us_offline st' = before @ after"
  shows "up_inv s st'"
proof -
  obtain ms where ms: "map m_name ms = map fst (us_opened st)"
      "mset ms + mset (us_offline st) = mset (ranked_up s)"
    using assms(1) by (auto simp: up_inv_def)
  have "map m_name (ms @ [m]) = map fst (us_opened st')" using ms assms(4) by simp
  moreover have "mset (ms @ [m]) + mset (us_offline st') = mset (ranked_up s)"
    using ms(2) assms(2,5) by simp
  ultimately have "\<exists>ms. map m_name ms = map fst (us_opened st')
      \<and> mset ms + mset (us_offline st') = mset (ranked_up s)" by blast
  then show ?thesis using assms(3,4) by (simp add: up_inv_def)
qed

lemma up_inv_place: "up_inv s st \<Longrightarrow> up_inv s (place_pod s st pod)"
proof (cases rule: place_pod_cases [of s st pod])
  case (opened m rest after reason)
  moreover assume "up_inv s st"
  ultimately show ?thesis using take_first_SomeD [OF opened(4)] by (auto intro: up_inv_open)
qed (simp add: up_inv_def)

lemma up_inv_places: "up_inv s st \<Longrightarrow> up_inv s (foldl (place_pod s) st pods)"
  by (induction pods arbitrary: st) (simp_all add: up_inv_place)

lemma up_inv_fill: "up_inv s st \<Longrightarrow> us_offline st = off \<Longrightarrow> up_inv s (fill_min_online s off st)"
proof (induction off arbitrary: st)
  case (Cons m rest)
  show ?case
  proof (cases "online_now s + length (us_opened st) < ps_min_online (sn_spec s)
         \<and> online_now s + length (us_opened st) < max_online s")
    case True
    let ?st = "st\<lparr> us_offline := rest,
       us_notes := us_notes st @ [(m_name m, open_for_min_reason s m rest)],
       us_opened := us_opened st @ [(m_name m, open_for_min_reason s m rest)] \<rparr>"
    have "up_inv s ?st" using up_inv_open [OF Cons.prems(1), of "[]" m rest ?st] Cons.prems(2) True by simp
    then show ?thesis using Cons.IH [of ?st] True by (simp add: Let_def)
  next
    case False
    then have "fill_min_online s (m # rest) st = st" by auto
    then show ?thesis using Cons.prems by simp
  qed
qed simp

lemma up_inv_scale_up: "up_inv s (scale_up s)"
  unfolding scale_up_def Let_def
  by (intro up_inv_fill up_inv_places up_inv_initial refl)

text \<open>After the loop, the pool has its minimum, is at its maximum, or has no machine left to
  power on.\<close>

lemma fill_reaches:
  "us_offline st = off \<Longrightarrow> st' = fill_min_online s off st \<Longrightarrow>
     ps_min_online (sn_spec s) \<le> online_now s + length (us_opened st')
     \<or> max_online s \<le> online_now s + length (us_opened st') \<or> us_offline st' = []"
  by (induction off arbitrary: st) (auto simp: Let_def)

text \<open>No pod opens more machines than the step allows.\<close>

lemma place_step:
  assumes "su_max_nodes_per_step (ps_scale_up (sn_spec s)) < 2 ^ 32"
    and "length (us_opened st) \<le> step_limit s"
  shows "length (us_opened (place_pod s st pod)) \<le> step_limit s"
proof (cases rule: place_pod_cases [of s st pod])
  case (opened m rest after reason)
  have "step_limit s < 2 ^ 32" using assms(1) by (simp add: step_limit_def)
  with opened(2) assms(2) have "length (us_opened st) < step_limit s"
    by (cases "length (us_opened st) = step_limit s") auto
  with opened(5) show ?thesis by simp
qed (use assms in simp)

lemma places_step:
  assumes "su_max_nodes_per_step (ps_scale_up (sn_spec s)) < 2 ^ 32"
  shows "length (us_opened st) \<le> step_limit s \<Longrightarrow>
     length (us_opened (foldl (place_pod s) st pods)) \<le> step_limit s"
  by (induction pods arbitrary: st) (simp_all add: place_step [OF assms])

lemma places_mono: "length (us_opened st) \<le> length (us_opened (foldl (place_pod s) st pods))"
proof (induction pods arbitrary: st)
  case (Cons pod pods)
  have "length (us_opened st) \<le> length (us_opened (place_pod s st pod))"
    by (cases rule: place_pod_cases [of s st pod]) simp_all
  then show ?case using Cons [of "place_pod s st pod"] by simp
qed simp

lemma fill_mono: "length (us_opened st) \<le> length (us_opened (fill_min_online s off st))"
proof (induction off arbitrary: st)
  case (Cons m rest)
  show ?case
    using Cons [of "st\<lparr> us_offline := rest,
       us_notes := us_notes st @ [(m_name m, open_for_min_reason s m rest)],
       us_opened := us_opened st @ [(m_name m, open_for_min_reason s m rest)] \<rparr>"]
    by (simp add: Let_def)
qed simp

lemma fill_bound:
  "length (us_opened (fill_min_online s off st)) \<le>
     max (length (us_opened st)) (ps_min_online (sn_spec s) - online_now s)"
proof (induction off arbitrary: st)
  case (Cons m rest)
  show ?case
    using Cons [of "st\<lparr> us_offline := rest,
       us_notes := us_notes st @ [(m_name m, open_for_min_reason s m rest)],
       us_opened := us_opened st @ [(m_name m, open_for_min_reason s m rest)] \<rparr>"]
    by (simp add: Let_def) linarith
qed simp

lemma step_limit_pos: "0 < step_limit s"
  by (simp add: step_limit_def)

text \<open>With nothing booting, the first pod the pool serves gets a machine powered on.\<close>

lemma first_pod_opens:
  assumes pod: "pod \<in> set (relevant_pods s)"
    and none: "\<forall>m \<in> set (sn_members s). m_state m \<noteq> Booting"
    and on: "su_enabled (ps_scale_up (sn_spec s))" and room: "online_now s < max_online s"
  shows "us_opened (place_pod s (initial_up_state s) pod) \<noteq> []"
proof -
  let ?st = "initial_up_state s" and ?p = "\<lambda>m. pod_fits pod m (m_allocatable m)"
  obtain m where m: "m \<in> set (sn_members s)" "serves pod m"
    using pod by (auto simp: relevant_pods_def list_ex_iff)
  then have "m \<in> set (us_offline ?st)" "?p m"
    using none by (auto simp: serves_def pod_fits_def initial_up_state_def ranked_up_def offline_members_def)
  then obtain x rest after where t: "take_first ?p (us_offline ?st) = Some (x, rest, after)"
    using take_first_None [of ?p "us_offline ?st"] by (cases "take_first ?p (us_offline ?st)") auto
  have "filter (\<lambda>m. m_state m = Booting) (sn_members s) = []" using none by (simp add: filter_empty_conv)
  then have "us_bins ?st = []" by (simp add: initial_up_state_def)
  moreover have "can_open s (us_opened ?st) = Inr ()"
    using room step_limit_pos [of s] by (simp add: can_open_def initial_up_state_def)
  ultimately show ?thesis using on t by (simp add: place_pod_def Let_def)
qed

lemma scale_up_progress:
  assumes "relevant_pods s \<noteq> []"
    and "\<forall>m \<in> set (sn_members s). m_state m \<noteq> Booting"
    and "su_enabled (ps_scale_up (sn_spec s))" and "online_now s < max_online s"
  shows "us_opened (scale_up s) \<noteq> []"
proof -
  obtain pod pods where d: "decreasing (relevant_pods s) = pod # pods"
    using assms(1) length_sort_by by (metis decreasing_def length_0_conv neq_Nil_conv)
  then have "pod \<in> set (relevant_pods s)"
    by (metis decreasing_def list.set_intros(1) set_sort_by)
  then have "us_opened (place_pod s (initial_up_state s) pod) \<noteq> []"
    using assms by (intro first_pod_opens)
  then have "0 < length (us_opened (place_pod s (initial_up_state s) pod))" by simp
  also have "\<dots> \<le> length (us_opened (foldl (place_pod s) (initial_up_state s) (decreasing (relevant_pods s))))"
    unfolding d foldl_Cons by (rule places_mono)
  also have "\<dots> \<le> length (us_opened (scale_up s))"
    unfolding scale_up_def Let_def by (rule fill_mono)
  finally show ?thesis by simp
qed

text \<open>The members powered on, from the invariant: Auto machines that are off, each once.\<close>

lemma scale_up_members:
  assumes "distinct (map m_name (sn_members s))"
  shows "distinct (map fst (us_opened (scale_up s)))
    \<and> (\<forall>name \<in> fst ` set (us_opened (scale_up s)). \<exists>m \<in> set (sn_members s).
          m_name m = name \<and> m_auto m \<and> m_state m = Offline)"
proof -
  obtain ms where ms: "map m_name ms = map fst (us_opened (scale_up s))"
      "mset ms + mset (us_offline (scale_up s)) = mset (ranked_up s)"
    using up_inv_scale_up by (auto simp: up_inv_def)
  have dr: "distinct (map m_name (ranked_up s))"
    using assms by (simp add: ranked_up_def offline_members_def distinct_map_filter)
  have "mset (map m_name (ms @ us_offline (scale_up s))) = mset (map m_name (ranked_up s))"
    using ms(2) by (metis mset_append mset_map)
  then have "distinct (map m_name (ms @ us_offline (scale_up s)))"
    using dr mset_eq_imp_distinct_iff by blast
  then have "distinct (map fst (us_opened (scale_up s)))" using ms(1) by simp
  moreover have "set ms \<subseteq> set (ranked_up s)"
    by (metis ms(2) mset_subset_eq_add_left set_mset_mono set_mset_mset)
  then have "\<forall>m \<in> set ms. m \<in> set (sn_members s) \<and> m_auto m \<and> m_state m = Offline"
    by (auto simp: ranked_up_def offline_members_def)
  ultimately show ?thesis using ms(1) by (metis (mono_tags, lifting) image_iff image_set)
qed

lemma scale_up_max: "us_opened (scale_up s) \<noteq> [] \<Longrightarrow>
    online_now s + length (us_opened (scale_up s)) \<le> max_online s"
  using up_inv_scale_up by (simp add: up_inv_def)

end
