(* ===== verification/Plan_Down.thy ===== *)
theory Plan_Down
  imports Plan_Up
begin

text \<open>
  The scale-down half of \<^verbatim>\<open>plan\<close> in \<^verbatim>\<open>scaling.rs\<close>: which online members are unneeded and
  since when, what holds the whole pool's scale-down back, and the loop that simulates moving
  the pods of one machine after the other to the machines that stay on.
\<close>

section \<open>Why a machine is kept\<close>

record plan_note =
  nt_stable :: string
  nt_live :: string

definition note_same :: "string \<Rightarrow> plan_note" where
  "note_same s = \<lparr> nt_stable = s, nt_live = s \<rparr>"

text \<open>The extended resources a pod waits for on a machine whose device plugin has not registered
  them yet, and the pods of the pool that would fit once it has.\<close>

definition waits_for :: "member \<Rightarrow> pod_view \<Rightarrow> string list" where
  "waits_for m p = map fst (filter (\<lambda>(k, v). is_some_and (bt_get (m_registering m) k) (\<lambda>have. v \<le> have))
     (pv_extended_requests p))"

definition waits_on :: "member \<Rightarrow> pod_view \<Rightarrow> bool" where
  "waits_on m p = (waits_for m p \<noteq> []
     \<and> ra_fits (ra_minus (m_allocatable m) (m_requested m)) (pv_requests p)
     \<and> pod_matches_node p (m_labels m) (m_taints m))"

definition waiting_for_registration :: "member \<Rightarrow> pod_view list \<Rightarrow> string option" where
  "waiting_for_registration m selected =
     (if m_registering m = [] then None
      else
        (let waiting = filter (waits_on m) selected;
             resources = sort (remdups (concat (map (waits_for m) waiting)))
         in if 0 < length waiting then
              Some (''needed: '' @ show_nat (length waiting) @ '' pending pod(s) waiting for its ''
                    @ join '', '' resources @ '' to register'')
            else None))"

definition candidates :: "pool_snapshot \<Rightarrow> member list" where
  "candidates s = rank_off (sn_spec s) (filter (\<lambda>m. m_auto m \<and> m_state m = Online) (sn_members s))"

definition util :: "member \<Rightarrow> f64" where
  "util m = utilization_percent (m_allocatable m) (m_counted m)"

definition threshold :: "pool_snapshot \<Rightarrow> f64" where
  "threshold s = f64_of_int (int (sd_utilization_threshold_percent (ps_scale_down (sn_spec s))))"

definition drain_backoff :: "pool_snapshot \<Rightarrow> duration" where
  "drain_backoff s = secs (as_i64 (sd_drain_failure_backoff_seconds (ps_scale_down (sn_spec s))))"

definition unneeded_for :: "pool_snapshot \<Rightarrow> duration" where
  "unneeded_for s = secs (as_i64 (sd_unneeded_seconds (ps_scale_down (sn_spec s))))"

text \<open>Why an online machine is needed now: \<^verbatim>\<open>None\<close> when it is unneeded.\<close>

definition busy_note :: "pool_snapshot \<Rightarrow> member \<Rightarrow> plan_note option" where
  "busy_note s m =
     (case waiting_for_registration m (selected_pods s) of
        Some note \<Rightarrow> Some (note_same note)
      | None \<Rightarrow>
          if m_blocking_pods m \<noteq> [] then
            Some (note_same (''busy: blocked by '' @ join '', '' (m_blocking_pods m)))
          else
            (let failed = (case m_drain_failed_at m of
                   Some t \<Rightarrow> if sn_now s - t < drain_backoff s then Some t else None | None \<Rightarrow> None) in
             case failed of
               Some t \<Rightarrow> Some \<lparr>
                 nt_stable = ''drain failed; retry after '' @ hhmmss (t + drain_backoff s),
                 nt_live = ''drain failed; retry in ''
                   @ show_int (num_seconds (t + drain_backoff s - sn_now s)) @ ''s'' \<rparr>
             | None \<Rightarrow>
                 if f64_le (threshold s) (util m) then
                   Some (note_same (''busy: utilization '' @ show_f64_0 (util m) @ ''% >= ''
                                    @ show_f64_0 (threshold s) @ ''%''))
                 else None))"

definition since_of :: "pool_snapshot \<Rightarrow> member \<Rightarrow> instant" where
  "since_of s m = unwrap_or (bt_get (sn_unneeded_since s) (m_name m)) (sn_now s)"

definition unneeded_note :: "pool_snapshot \<Rightarrow> member \<Rightarrow> plan_note" where
  "unneeded_note s m =
     (let since = since_of s m in
      if unneeded_for s \<le> sn_now s - since then note_same (''unneeded since '' @ hhmmss since)
      else \<lparr> nt_stable = ''unneeded since '' @ hhmmss since @ '', eligible at ''
                            @ hhmmss (since + unneeded_for s),
             nt_live = ''unneeded for '' @ show_int (num_seconds (sn_now s - since)) @ '' of ''
                            @ show_int (num_seconds (unneeded_for s)) @ ''s'' \<rparr>)"

definition down_note :: "pool_snapshot \<Rightarrow> member \<Rightarrow> plan_note" where
  "down_note s m = (case busy_note s m of Some n \<Rightarrow> n | None \<Rightarrow> unneeded_note s m)"

definition down_notes :: "pool_snapshot \<Rightarrow> plan_note btmap" where
  "down_notes s = bt_collect (map (\<lambda>m. (m_name m, down_note s m)) (candidates s))"

definition waiting_notes :: "pool_snapshot \<Rightarrow> string list" where
  "waiting_notes s = filter_map
     (\<lambda>m. map_option (\<lambda>note. m_name m @ '' '' @ note) (waiting_for_registration m (selected_pods s)))
     (candidates s)"

definition plan_unneeded :: "pool_snapshot \<Rightarrow> instant btmap" where
  "plan_unneeded s = bt_collect (map (\<lambda>m. (m_name m, since_of s m))
     (filter (\<lambda>m. busy_note s m = None) (candidates s)))"

section \<open>What holds the pool back\<close>

definition over_max :: "pool_snapshot \<Rightarrow> nat" where
  "over_max s = online_now s - max_online s"

definition leaving :: "pool_snapshot \<Rightarrow> nat" where
  "leaving s = length (filter (\<lambda>m. m_state m = Leaving) (sn_members s))"

definition last_power_on :: "pool_snapshot \<Rightarrow> instant option" where
  "last_power_on s = iter_max
     ((case sn_last_scale_up s of Some t \<Rightarrow> [t] | None \<Rightarrow> []) @ filter_map m_adopted_at (sn_members s))"

definition hold_until :: "pool_snapshot \<Rightarrow> instant option" where
  "hold_until s =
     (case last_power_on s of None \<Rightarrow> None
      | Some t \<Rightarrow>
          (let until = t + secs (as_i64 (hold_after_power_on (ps_scale_down (sn_spec s)))) in
           if sn_now s < until then Some until else None))"

definition booting :: "pool_snapshot \<Rightarrow> bool" where
  "booting s = list_ex (\<lambda>m. m_state m = Booting) (sn_members s)"

definition relevant_pending :: "pool_snapshot \<Rightarrow> nat" where
  "relevant_pending s = as_u32 (length (relevant_pods s))"

definition blocked_reason :: "pool_snapshot \<Rightarrow> plan_note option" where
  "blocked_reason s =
     (if us_opened (scale_up s) \<noteq> [] then Some (note_same ''scaling up'')
      else if 0 < over_max s then None
      else if \<not> sd_enabled (ps_scale_down (sn_spec s)) then Some (note_same ''scale down disabled'')
      else if 0 < relevant_pending s then
        Some (note_same (show_nat (relevant_pending s) @ '' pending pod(s)''))
      else if booting s then Some (note_same ''nodes booting'')
      else map_option (\<lambda>until. \<lparr>
             nt_stable = ''holding after power-on until '' @ hhmmss until,
             nt_live = ''holding after power-on, '' @ show_int (num_seconds (until - sn_now s))
                         @ ''s left'' \<rparr>) (hold_until s))"

section \<open>The machines that may go\<close>

definition down_step :: "pool_snapshot \<Rightarrow> nat" where
  "down_step s = max (sd_max_nodes_per_step (ps_scale_down (sn_spec s))) 1"

definition released :: "pool_snapshot \<Rightarrow> member \<Rightarrow> bool" where
  "released s m = (is_some_and (m_release_after m) (\<lambda>t. t \<le> sn_now s) \<and> m_blocking_pods m = [])"

definition expired :: "pool_snapshot \<Rightarrow> member \<Rightarrow> bool" where
  "expired s m = is_some_and (bt_get (plan_unneeded s) (m_name m)) (\<lambda>t. unneeded_for s \<le> sn_now s - t)"

definition eligible :: "pool_snapshot \<Rightarrow> member list" where
  "eligible s = filter (\<lambda>m. 0 < over_max s \<and> m_blocking_pods m = [] \<or> expired s m \<or> released s m)
     (candidates s)"

section \<open>Moving the pods\<close>

type_synonym target = "string \<times> string btmap \<times> taint list"

definition external_key :: "string \<Rightarrow> string" where
  "external_key name = ''external/'' @ name"

definition hosts_pods :: "member \<Rightarrow> bool" where
  "hosts_pods m = (m_state m = Online \<or> m_state m = Manual)"

definition initial_free :: "pool_snapshot \<Rightarrow> resource_amounts btmap" where
  "initial_free s =
     foldl (\<lambda>f e. bt_insert (external_key (en_name e)) (en_free e) f)
       (bt_collect (map (\<lambda>m. (m_name m, ra_minus (m_allocatable m) (m_requested m)))
          (filter hosts_pods (sn_members s))))
       (sn_external s)"

definition targets :: "pool_snapshot \<Rightarrow> member \<Rightarrow> string list \<Rightarrow> target list" where
  "targets s m removed =
     map (\<lambda>o'. (m_name o', m_labels o', m_taints o'))
       (filter (\<lambda>o'. hosts_pods o' \<and> m_name o' \<noteq> m_name m \<and> m_name o' \<notin> set removed) (sn_members s))
     @ map (\<lambda>e. (external_key (en_name e), en_labels e, en_taints e)) (sn_external s)"

definition target_takes :: "resource_amounts btmap \<Rightarrow> pod_view \<Rightarrow> target \<Rightarrow> bool" where
  "target_takes trial p t =
     (case t of (key, labels, taints) \<Rightarrow>
        is_some_and (bt_get trial key) (\<lambda>f. ra_fits f (pv_requests p)) \<and> pod_matches_node p labels taints)"

text \<open>Each pod goes to the first target that takes it; \<^verbatim>\<open>None\<close> as soon as one fits nowhere.\<close>

fun place_evicted :: "target list \<Rightarrow> pod_view list \<Rightarrow> resource_amounts btmap \<Rightarrow> resource_amounts btmap option" where
  "place_evicted ts [] trial = Some trial"
| "place_evicted ts (p # ps) trial =
     (case find (target_takes trial p) ts of
        None \<Rightarrow> None
      | Some (key, _) \<Rightarrow>
          (case bt_get trial key of
             None \<Rightarrow> None
           | Some f \<Rightarrow> place_evicted ts ps (bt_insert key (ra_minus f (pv_requests p)) trial)))"

record down_state =
  dn_removed :: "string list"
  dn_free :: "resource_amounts btmap"
  dn_off_notes :: "string btmap"
  dn_power_off :: "(string \<times> string) list"

definition keep :: "down_state \<Rightarrow> member \<Rightarrow> string \<Rightarrow> down_state" where
  "keep st m why = st\<lparr> dn_off_notes := bt_insert (m_name m) why (dn_off_notes st) \<rparr>"

definition kept_text :: "(string \<times> string) list \<Rightarrow> string" where
  "kept_text holds = ''kept: '' @ join ''; ''
     (map (\<lambda>(pool, why). ''needed by pool '' @ pool @ '': '' @ why) holds)"

definition budget :: "pool_snapshot \<Rightarrow> nat" where
  "budget s = (if 0 < over_max s then max (over_max s) (down_step s - leaving s)
               else down_step s - leaving s)"

definition off_reason :: "pool_snapshot \<Rightarrow> member \<Rightarrow> member list \<Rightarrow> string list \<Rightarrow> string" where
  "off_reason s m later removed =
     (let why = (if 0 < over_max s then ''pool above maxOnline ('' @ show_nat (max_online s) @ '')''
                 else if released s m \<and> \<not> expired s m then
                   ''manually powered on; policy PowerOff, grace over''
                 else ''utilization '' @ show_f64_0 (util m) @ ''% below '' @ show_f64_0 (threshold s)
                      @ ''% for '' @ show_int (num_seconds (unneeded_for s)) @ ''s'');
          decided = (case find (\<lambda>o'. m_name o' \<notin> set removed) later of
                 Some n \<Rightarrow> ''before '' @ m_name n @ '' by '' @ deciding_rule (sn_spec s) m n True
               | None \<Rightarrow> ''the only machine eligible'')
      in why @ ''; #'' @ show_nat (rank_in (candidates s) (m_name m)) @ '' of ''
         @ show_nat (length (candidates s)) @ '' to power off, '' @ decided)"

definition consider_member :: "pool_snapshot \<Rightarrow> member \<Rightarrow> member list \<Rightarrow> down_state \<Rightarrow> down_state" where
  "consider_member s m later st =
     (case bt_get (sn_kept_by_others s) (m_name m) of
        Some (h # hs) \<Rightarrow> keep st m (kept_text (h # hs))
      | _ \<Rightarrow>
          if budget s \<le> length (dn_removed st) then
            keep st m (''kept: maxNodesPerStep ('' @ show_nat (down_step s) @ '') reached'')
          else if online_now s - length (dn_removed st) \<le> ps_min_online (sn_spec s) then
            keep st m (''kept: minOnline ('' @ show_nat (ps_min_online (sn_spec s)) @ '')'')
          else
            (case place_evicted (targets s m (dn_removed st)) (decreasing (m_movable_pods m))
                    (bt_remove (m_name m) (dn_free st)) of
               Some trial \<Rightarrow>
                 (let removed = List.insert (m_name m) (dn_removed st);
                      reason = off_reason s m later removed in
                  st\<lparr> dn_removed := removed, dn_free := trial,
                      dn_off_notes := bt_insert (m_name m) reason (dn_off_notes st),
                      dn_power_off := dn_power_off st @ [(m_name m, reason)] \<rparr>)
             | None \<Rightarrow> keep st m ''kept: its pods would not fit elsewhere''))"

fun consider_members :: "pool_snapshot \<Rightarrow> member list \<Rightarrow> down_state \<Rightarrow> down_state" where
  "consider_members s [] st = st"
| "consider_members s (m # later) st = consider_members s later (consider_member s m later st)"

definition initial_down_state :: "pool_snapshot \<Rightarrow> down_state" where
  "initial_down_state s = \<lparr> dn_removed = [], dn_free = initial_free s, dn_off_notes = [], dn_power_off = [] \<rparr>"

definition scale_down :: "pool_snapshot \<Rightarrow> down_state" where
  "scale_down s =
     (let st = initial_down_state s in
      if blocked_reason s \<noteq> None then st
      else if leaving s < down_step s \<or> 0 < over_max s then consider_members s (eligible s) st
      else st\<lparr> dn_off_notes := bt_collect (map
             (\<lambda>m. (m_name m, ''kept: maxNodesPerStep ('' @ show_nat (down_step s) @ '') already powering off''))
             (eligible s)) \<rparr>)"

section \<open>What scale-down keeps\<close>

definition not_kept :: "pool_snapshot \<Rightarrow> string \<Rightarrow> bool" where
  "not_kept s name = (unwrap_or (bt_get (sn_kept_by_others s) name) [] = [])"

lemma keep_simps [simp]:
  "dn_removed (keep st m why) = dn_removed st" "dn_power_off (keep st m why) = dn_power_off st"
  "dn_free (keep st m why) = dn_free st"
  by (simp_all add: keep_def)

text \<open>One machine is either kept, or goes: then nothing holds it, the budget and \<^verbatim>\<open>minOnline\<close>
  have room, and its pods found a place.\<close>

lemma consider_member_cases:
  obtains (kept) "dn_removed (consider_member s m later st) = dn_removed st"
      "dn_power_off (consider_member s m later st) = dn_power_off st"
      "dn_free (consider_member s m later st) = dn_free st"
  | (goes) trial reason where
      "not_kept s (m_name m)"
      "length (dn_removed st) < budget s"
      "ps_min_online (sn_spec s) < online_now s - length (dn_removed st)"
      "place_evicted (targets s m (dn_removed st)) (decreasing (m_movable_pods m))
         (bt_remove (m_name m) (dn_free st)) = Some trial"
      "dn_removed (consider_member s m later st) = List.insert (m_name m) (dn_removed st)"
      "dn_power_off (consider_member s m later st) = dn_power_off st @ [(m_name m, reason)]"
      "dn_free (consider_member s m later st) = trial"
proof -
  let ?place = "place_evicted (targets s m (dn_removed st)) (decreasing (m_movable_pods m))
     (bt_remove (m_name m) (dn_free st))"
  show thesis
  proof (cases "not_kept s (m_name m) \<and> length (dn_removed st) < budget s
      \<and> ps_min_online (sn_spec s) < online_now s - length (dn_removed st) \<and> ?place \<noteq> None")
    case True
    then obtain trial where "?place = Some trial" by auto
    with True show thesis
      by (intro goes [of trial])
         (auto simp: consider_member_def not_kept_def Let_def split: option.split list.split)
  next
    case False
    then show thesis
      by (intro kept)
         (auto simp: consider_member_def not_kept_def Let_def split: option.split list.split)
  qed
qed

definition down_inv :: "pool_snapshot \<Rightarrow> down_state \<Rightarrow> bool" where
  "down_inv s st =
     (distinct (dn_removed st) \<and> set (dn_removed st) = fst ` set (dn_power_off st)
      \<and> distinct (map fst (dn_power_off st))
      \<and> length (dn_removed st) = length (dn_power_off st)
      \<and> (dn_power_off st \<noteq> [] \<longrightarrow> ps_min_online (sn_spec s) + length (dn_power_off st) \<le> online_now s)
      \<and> length (dn_power_off st) \<le> budget s
      \<and> (\<forall>name \<in> fst ` set (dn_power_off st). not_kept s name
            \<and> (\<exists>m \<in> set (eligible s). m_name m = name)))"

lemma down_inv_initial: "down_inv s (initial_down_state s)"
  by (simp add: down_inv_def initial_down_state_def)

lemma down_inv_member:
  assumes inv: "down_inv s st" and new: "m_name m \<notin> set (dn_removed st)" and el: "m \<in> set (eligible s)"
  shows "down_inv s (consider_member s m later st)"
    and "set (dn_removed (consider_member s m later st)) \<subseteq> insert (m_name m) (set (dn_removed st))"
proof -
  show "down_inv s (consider_member s m later st)"
  proof (cases rule: consider_member_cases [of s m later st])
    case kept
    with inv show ?thesis by (simp add: down_inv_def)
  next
    case (goes trial reason)
    from inv new have "m_name m \<notin> fst ` set (dn_power_off st)" by (simp add: down_inv_def)
    moreover have "m_name m \<notin> set (map fst (dn_power_off st))" using calculation by simp
    ultimately show ?thesis
      using inv new el goes by (auto simp: down_inv_def)
  qed
  show "set (dn_removed (consider_member s m later st)) \<subseteq> insert (m_name m) (set (dn_removed st))"
    by (cases rule: consider_member_cases [of s m later st]) auto
qed

lemma disjoint_step: "A \<subseteq> insert x B \<Longrightarrow> x \<notin> C \<Longrightarrow> C \<inter> B = {} \<Longrightarrow> C \<inter> A = {}"
  by blast

lemma down_inv_members:
  "down_inv s st \<Longrightarrow> distinct (map m_name ms) \<Longrightarrow> m_name ` set ms \<inter> set (dn_removed st) = {}
     \<Longrightarrow> set ms \<subseteq> set (eligible s) \<Longrightarrow> down_inv s (consider_members s ms st)"
proof (induction ms arbitrary: st)
  case (Cons m ms)
  have i: "down_inv s (consider_member s m ms st)"
    using Cons.prems by (intro down_inv_member) auto
  have "set (dn_removed (consider_member s m ms st)) \<subseteq> insert (m_name m) (set (dn_removed st))"
    using Cons.prems by (intro down_inv_member) auto
  moreover have "m_name m \<notin> m_name ` set ms" "m_name ` set ms \<inter> set (dn_removed st) = {}"
    using Cons.prems(2,3) by auto
  ultimately have e: "m_name ` set ms \<inter> set (dn_removed (consider_member s m ms st)) = {}"
    by (rule disjoint_step)
  have "distinct (map m_name ms)" "set ms \<subseteq> set (eligible s)" using Cons.prems(2,4) by auto
  from Cons.IH [OF i this(1) e this(2)] show ?case by (simp only: consider_members.simps)
qed simp

lemma distinct_eligible:
  "distinct (map m_name (sn_members s)) \<Longrightarrow> distinct (map m_name (eligible s))"
  by (simp add: eligible_def candidates_def distinct_map_filter)

lemma down_inv_scale_down:
  assumes "distinct (map m_name (sn_members s))"
  shows "down_inv s (scale_down s)"
proof -
  have "down_inv s (consider_members s (eligible s) (initial_down_state s))"
    using down_inv_initial distinct_eligible [OF assms]
    by (intro down_inv_members) (simp_all add: initial_down_state_def)
  moreover have "down_inv s (initial_down_state s\<lparr> dn_off_notes := off \<rparr>)" for off
    using down_inv_initial [of s] by (simp add: down_inv_def)
  ultimately show ?thesis using down_inv_initial by (simp add: scale_down_def Let_def)
qed

text \<open>What makes a member eligible.\<close>

lemma candidate_iff: "m \<in> set (candidates s) \<longleftrightarrow> m \<in> set (sn_members s) \<and> m_auto m \<and> m_state m = Online"
  by (auto simp: candidates_def)

lemma distinct_candidates:
  "distinct (map m_name (sn_members s)) \<Longrightarrow> distinct (map m_name (candidates s))"
  by (simp add: candidates_def distinct_map_filter)

lemma same_name_same_member:
  "distinct (map m_name ms) \<Longrightarrow> m \<in> set ms \<Longrightarrow> m' \<in> set ms \<Longrightarrow> m_name m = m_name m' \<Longrightarrow> m = m'"
  by (auto simp: distinct_map dest: inj_onD)

lemma unneeded_get:
  assumes "distinct (map m_name (sn_members s))" and "m \<in> set (candidates s)"
  shows "bt_get (plan_unneeded s) (m_name m) = (if busy_note s m = None then Some (since_of s m) else None)"
proof -
  let ?ms = "filter (\<lambda>m. busy_note s m = None) (candidates s)"
  have d: "distinct (map m_name (candidates s))" using assms(1) by (rule distinct_candidates)
  show ?thesis
  proof (cases "busy_note s m = None")
    case True
    have "bt_get (plan_unneeded s) (m_name m) = Some (since_of s m)"
      unfolding plan_unneeded_def
      by (rule bt_get_collect_Some) (use True assms(2) d in \<open>simp_all add: distinct_map_filter\<close>)
    with True show ?thesis by simp
  next
    case False
    then have "m_name m \<notin> m_name ` set ?ms"
      using same_name_same_member [OF d assms(2)] by auto
    then have "bt_get (plan_unneeded s) (m_name m) = None"
      unfolding plan_unneeded_def by (rule bt_get_collect_None)
    with False show ?thesis by simp
  qed
qed

lemma busy_when_blocked: "busy_note s m = None \<Longrightarrow> m_blocking_pods m = []"
  by (auto simp: busy_note_def split: option.splits if_splits)

lemma eligible_no_blocking:
  assumes "distinct (map m_name (sn_members s))" and "m \<in> set (eligible s)"
  shows "m_blocking_pods m = []"
proof -
  have m: "m \<in> set (candidates s)" using assms(2) by (simp add: eligible_def)
  consider "m_blocking_pods m = []" | "expired s m" | "released s m"
    using assms(2) by (auto simp: eligible_def)
  then show ?thesis
  proof cases
    case 2
    then have "busy_note s m = None"
      using unneeded_get [OF assms(1) m] by (auto simp: expired_def split: if_splits)
    then show ?thesis by (rule busy_when_blocked)
  qed (simp_all add: released_def)
qed

text \<open>Why an eligible member may go.\<close>

lemma eligible_reason:
  assumes "distinct (map m_name (sn_members s))" and "m \<in> set (eligible s)" and "over_max s = 0"
  shows "busy_note s m = None \<and> unneeded_for s \<le> sn_now s - since_of s m \<or> released s m"
proof -
  have m: "m \<in> set (candidates s)" using assms(2) by (simp add: eligible_def)
  have "expired s m \<or> released s m" using assms(2,3) by (simp add: eligible_def)
  then show ?thesis using unneeded_get [OF assms(1) m] by (auto simp: expired_def split: if_splits)
qed

lemma scale_down_open:
  assumes "dn_power_off (scale_down s) \<noteq> []"
  shows "blocked_reason s = None" and "leaving s < down_step s \<or> 0 < over_max s"
  using assms by (auto simp: scale_down_def Let_def initial_down_state_def split: if_splits)

lemma blocked_reason_None:
  "blocked_reason s = None \<Longrightarrow> us_opened (scale_up s) = [] \<and> (over_max s = 0 \<longrightarrow>
     sd_enabled (ps_scale_down (sn_spec s)) \<and> relevant_pending s = 0 \<and> \<not> booting s \<and> hold_until s = None)"
  by (auto simp: blocked_reason_def split: if_splits)

section \<open>Where the pods of a machine go\<close>

text \<open>When the simulation succeeds, every pod has a target that takes it when its turn comes,
  and the room left everywhere is what these pods leave.\<close>

fun assigned :: "pod_view list \<Rightarrow> string list \<Rightarrow> resource_amounts btmap \<Rightarrow> resource_amounts btmap" where
  "assigned (p # ps) (k # ks) trial =
     assigned ps ks (case bt_get trial k of
        Some f \<Rightarrow> bt_insert k (ra_minus f (pv_requests p)) trial | None \<Rightarrow> trial)"
| "assigned _ _ trial = trial"

fun assignment_ok :: "target list \<Rightarrow> pod_view list \<Rightarrow> string list \<Rightarrow> resource_amounts btmap \<Rightarrow> bool" where
  "assignment_ok ts [] [] trial = True"
| "assignment_ok ts (p # ps) (k # ks) trial =
     ((\<exists>labels taints. (k, labels, taints) \<in> set ts \<and> pod_matches_node p labels taints)
      \<and> (\<exists>f. bt_get trial k = Some f \<and> ra_fits f (pv_requests p)
          \<and> assignment_ok ts ps ks (bt_insert k (ra_minus f (pv_requests p)) trial)))"
| "assignment_ok ts _ _ trial = False"

lemma place_evicted_assignment:
  "place_evicted ts ps trial = Some trial' \<Longrightarrow>
     \<exists>ks. assignment_ok ts ps ks trial \<and> trial' = assigned ps ks trial"
proof (induction ps arbitrary: trial)
  case Nil
  then show ?case by (intro exI [of _ "[]"]) simp
next
  case (Cons p ps)
  obtain key labels taints where f: "find (target_takes trial p) ts = Some (key, labels, taints)"
    using Cons.prems by (cases "find (target_takes trial p) ts") auto
  then have "(key, labels, taints) \<in> set ts" "target_takes trial p (key, labels, taints)"
    by (auto simp: find_Some_iff)
  moreover obtain fr where fr: "bt_get trial key = Some fr"
    using Cons.prems f by (cases "bt_get trial key") auto
  ultimately have ok: "\<exists>labels taints. (key, labels, taints) \<in> set ts \<and> pod_matches_node p labels taints"
      "ra_fits fr (pv_requests p)"
    by (auto simp: target_takes_def)
  have "place_evicted ts ps (bt_insert key (ra_minus fr (pv_requests p)) trial) = Some trial'"
    using Cons.prems f fr by simp
  from Cons.IH [OF this] obtain ks where
    "assignment_ok ts ps ks (bt_insert key (ra_minus fr (pv_requests p)) trial)"
    "trial' = assigned ps ks (bt_insert key (ra_minus fr (pv_requests p)) trial)" by blast
  with ok fr show ?case by (intro exI [of _ "key # ks"]) auto
qed

text \<open>An assignment never takes more of a target than was free there, as long as the requests are
  not negative.\<close>

definition amounts_nonneg :: "resource_amounts \<Rightarrow> bool" where
  "amounts_nonneg a = (0 \<le> cpu_millis a \<and> 0 \<le> memory_bytes a \<and> 0 \<le> ra_pods a)"

definition amounts_in_range :: "resource_amounts \<Rightarrow> bool" where
  "amounts_in_range a = (in_i64 (cpu_millis a) \<and> in_i64 (memory_bytes a) \<and> in_i64 (ra_pods a))"

fun load_on :: "string \<Rightarrow> (resource_amounts \<Rightarrow> int) \<Rightarrow> pod_view list \<Rightarrow> string list \<Rightarrow> int" where
  "load_on key dim (p # ps) (k # ks) = (if k = key then dim (pv_requests p) else 0) + load_on key dim ps ks"
| "load_on key dim _ _ = 0"

lemma minus_fits:
  assumes "ra_fits f r" "amounts_nonneg r" "amounts_in_range f"
  shows "cpu_millis (ra_minus f r) = cpu_millis f - cpu_millis r"
    "memory_bytes (ra_minus f r) = memory_bytes f - memory_bytes r"
    "ra_pods (ra_minus f r) = ra_pods f - ra_pods r"
    "amounts_in_range (ra_minus f r)" "amounts_nonneg (ra_minus f r)"
  using assms by (auto simp: ra_fits_def amounts_nonneg_def amounts_in_range_def ra_minus_def)

lemma assignment_load:
  assumes "assignment_ok ts ps ks trial" and "\<forall>p \<in> set ps. amounts_nonneg (pv_requests p)"
    and "bt_get trial key = Some f" "amounts_in_range f" "amounts_nonneg f"
    and dim: "dim \<in> {cpu_millis, memory_bytes, ra_pods}"
  shows "load_on key dim ps ks \<le> dim f"
  using assms(1-5)
proof (induction ts ps ks trial arbitrary: f rule: assignment_ok.induct)
  case (1 ts trial)
  then show ?case using dim by (auto simp: amounts_nonneg_def)
next
  case (2 ts p ps k ks trial)
  then obtain g where g: "bt_get trial k = Some g" "ra_fits g (pv_requests p)"
      "assignment_ok ts ps ks (bt_insert k (ra_minus g (pv_requests p)) trial)" by auto
  have nn: "\<forall>p \<in> set ps. amounts_nonneg (pv_requests p)" "amounts_nonneg (pv_requests p)"
    using 2(3) by auto
  show ?case
  proof (cases "k = key")
    case True
    with g 2 have "g = f" by simp
    note m = minus_fits [OF g(2) [unfolded this] nn(2) 2(5)]
    have "load_on key dim ps ks \<le> dim (ra_minus f (pv_requests p))"
      using 2(1) g(3) nn m True \<open>g = f\<close> by (simp add: bt_simps)
    then show ?thesis using True m dim by auto
  next
    case False
    then have "bt_get (bt_insert k (ra_minus g (pv_requests p)) trial) key = Some f"
      using 2(4) by (simp add: bt_simps)
    then show ?thesis using False 2(1) g(3) nn 2(5,6) by simp
  qed
qed auto

end
