(* ===== verification/Plan.thy ===== *)
theory Plan
  imports Plan_Down
begin

text \<open>
  \<^verbatim>\<open>plan\<close> of \<^verbatim>\<open>scaling.rs\<close> as a whole: the two halves put together, what the pool tells
  other pools selecting the same machines, the message and the decision log; and the theorems
  about what a plan does.
\<close>

record planned_decision =
  dc_action :: decision_action
  dc_node :: "string option"
  dc_reason :: string
  dc_live_reason :: string
  dc_candidates :: string

record plan =
  pl_power_on :: "(string \<times> string) list"
  pl_power_off :: "(string \<times> string) list"
  pl_unneeded_since :: "instant btmap"
  pl_relevant_pending :: nat
  pl_online :: nat
  pl_message :: string
  pl_decisions :: "planned_decision list"
  pl_details :: "string list"
  pl_live_details :: "string list"
  pl_releasable :: "string list"
  pl_needed :: "string btmap"

section \<open>The message\<close>

text \<open>What stands before the first occurrence of a pattern: \<^verbatim>\<open>split(pat).next()\<close>.\<close>

fun before_pattern :: "string \<Rightarrow> string \<Rightarrow> string" where
  "before_pattern pat [] = []"
| "before_pattern pat (c # cs) = (if starts_with (c # cs) pat then [] else c # before_pattern pat cs)"

definition plan_message :: "pool_snapshot \<Rightarrow> string" where
  "plan_message s =
     (let on = length (us_opened (scale_up s)); off = length (dn_power_off (scale_down s));
          unneeded = plan_unneeded s in
      if on = 0 \<and> off = 0 then
        (case blocked_reason s of
           Some r \<Rightarrow>
             if nt_stable r \<noteq> ''scaling up'' \<and> unneeded \<noteq> [] then
               ''steady ('' @ show_nat (length unneeded) @ '' unneeded; scale down held: ''
               @ before_pattern '' until '' (nt_stable r) @ '')''
             else ''steady''
         | None \<Rightarrow> ''steady'')
      else ''powering on '' @ show_nat on @ '', powering off '' @ show_nat off)"

section \<open>Agreement with overlapping pools\<close>

text \<open>The note of a candidate; every candidate has one.\<close>

definition note_of :: "pool_snapshot \<Rightarrow> string \<Rightarrow> plan_note" where
  "note_of s name = unwrap_or (bt_get (down_notes s) name) (note_same '''')"

definition held :: "pool_snapshot \<Rightarrow> member \<Rightarrow> string option" where
  "held s m =
     (if \<not> expired s m \<and> \<not> released s m then Some (nt_stable (note_of s (m_name m)))
      else
        (case blocked_reason s of
           Some r \<Rightarrow> Some (nt_stable r)
         | None \<Rightarrow>
             if online_now s \<le> ps_min_online (sn_spec s) then
               Some (''minOnline ('' @ show_nat (ps_min_online (sn_spec s)) @ '')'')
             else None))"

definition plan_releasable :: "pool_snapshot \<Rightarrow> string list" where
  "plan_releasable s = sort (map m_name (filter (\<lambda>m. held s m = None) (candidates s)))"

definition plan_needed :: "pool_snapshot \<Rightarrow> string btmap" where
  "plan_needed s =
     foldl (\<lambda>n m. bt_insert (m_name m) ''powering on'' n)
       (bt_collect (filter_map (\<lambda>m. map_option (\<lambda>why. (m_name m, why)) (held s m)) (candidates s)))
       (filter (\<lambda>m. m_state m = Booting) (sn_members s))"

section \<open>Explanation\<close>

definition compact_one :: "pool_spec \<Rightarrow> member \<Rightarrow> string" where
  "compact_one spec m = m_name m @ ''('' @ join '' ''
     ([''w'' @ show_nat (member_weight spec m)] @ (if m_s3_capable m then [''s3''] else []) @ [show_size m])
     @ '')''"

definition compact :: "pool_spec \<Rightarrow> member list \<Rightarrow> string" where
  "compact spec ms = join '' > '' (map (compact_one spec) ms)"

definition note_suffix :: "member \<Rightarrow> string" where
  "note_suffix m = (case m_note m of Some n \<Rightarrow> ''; '' @ n | None \<Rightarrow> '''')"

definition render_up :: "pool_snapshot \<Rightarrow> member \<Rightarrow> string" where
  "render_up s m =
     m_name m @ '': #'' @ show_nat (rank_in (ranked_up s) (m_name m)) @ '' to power on (''
     @ traits (sn_spec s) m @ '')''
     @ (if m_name m \<in> fst ` set (us_notes (scale_up s)) then ''; chosen''
        else if \<not> list_ex (\<lambda>p. pod_fits p m (m_allocatable m)) (relevant_pods s) \<and> relevant_pods s \<noteq> []
        then ''; no pending pod fits'' else '''')
     @ note_suffix m"

definition render_down :: "pool_snapshot \<Rightarrow> bool \<Rightarrow> nat \<Rightarrow> member \<Rightarrow> string" where
  "render_down s live i m =
     (let note = note_of s (m_name m) in
      m_name m @ '': #'' @ show_nat (i + 1) @ '' to power off ('' @ traits (sn_spec s) m
      @ (case m_woken_by m of Some p \<Rightarrow> '', woken by pool '' @ p | None \<Rightarrow> '''') @ ''); ''
      @ (if live then nt_live note else nt_stable note)
      @ (case bt_get (dn_off_notes (scale_down s)) (m_name m) of
           Some off \<Rightarrow>
             if m_name m \<in> fst ` set (dn_power_off (scale_down s)) then ''; chosen'' else ''; '' @ off
         | None \<Rightarrow> '''')
      @ note_suffix m)"

definition other_text :: "member \<Rightarrow> string" where
  "other_text m =
     (if \<not> m_auto m then ''excluded: powerPolicy is not Auto''
      else case m_note m of
        Some n \<Rightarrow> n
      | None \<Rightarrow>
          (case m_state m of
             Manual \<Rightarrow> ''powered on by hand; not managing''
           | Booting \<Rightarrow>
               (case m_woken_by m of
                  Some p \<Rightarrow> ''powering on (woken by pool '' @ p @ '')''
                | None \<Rightarrow> ''powering on'')
           | Leaving \<Rightarrow> ''powering off''
           | Unavailable \<Rightarrow> ''excluded: state unknown or in error''
           | _ \<Rightarrow> ''not ranked''))"

definition other_members :: "pool_snapshot \<Rightarrow> member list" where
  "other_members s = sort_by (\<lambda>a b. cmp_ord (m_name a) (m_name b))
     (filter (\<lambda>m. \<not> list_ex (\<lambda>o'. m_name o' = m_name m) (ranked_up s @ candidates s)) (sn_members s))"

definition render :: "pool_snapshot \<Rightarrow> bool \<Rightarrow> string list" where
  "render s live =
     map (render_up s) (ranked_up s)
     @ map (\<lambda>(i, m). render_down s live i m) (enumerate 0 (candidates s))
     @ map (\<lambda>m. m_name m @ '': '' @ other_text m) (other_members s)"

section \<open>The decision log\<close>

definition action_decision :: "decision_action \<Rightarrow> string \<Rightarrow> string \<times> string \<Rightarrow> planned_decision" where
  "action_decision action cands nr =
     \<lparr> dc_action = action, dc_node = Some (fst nr), dc_reason = snd nr, dc_live_reason = snd nr,
       dc_candidates = cands \<rparr>"

definition unneeded_names :: "pool_snapshot \<Rightarrow> string list" where
  "unneeded_names s = map m_name
     (filter (\<lambda>m. bt_get (plan_unneeded s) (m_name m) \<noteq> None) (candidates s))"

definition note_text :: "pool_snapshot \<Rightarrow> bool \<Rightarrow> string \<Rightarrow> string" where
  "note_text s live n = (if live then nt_live (note_of s n) else nt_stable (note_of s n))"

definition no_action_reason :: "pool_snapshot \<Rightarrow> bool \<Rightarrow> string" where
  "no_action_reason s live =
     (let unneeded = unneeded_names s in
      case us_unplaced (scale_up s) of
        (pod, why) # others \<Rightarrow>
          ''pod '' @ pod
          @ (if others = [] then '''' else '' (and '' @ show_nat (length others) @ '' more)'')
          @ '' waits: '' @ why
      | [] \<Rightarrow>
          (case (blocked_reason s, unneeded) of
             (Some r, n # ns) \<Rightarrow>
               ''scale-down held ('' @ (if live then nt_live r else nt_stable r) @ ''): ''
               @ join ''; '' (map (\<lambda>n. n @ '' '' @ note_text s live n) unneeded)
           | (None, n # ns) \<Rightarrow>
               join ''; '' (map (\<lambda>n. n @ '' '' @ note_text s live n
                   @ (case bt_get (dn_off_notes (scale_down s)) n of
                        Some kept \<Rightarrow> ''; '' @ kept | None \<Rightarrow> '''')) unneeded)
           | (_, []) \<Rightarrow>
               if waiting_notes s \<noteq> [] then join ''; '' (waiting_notes s)
               else if 0 < relevant_pending s then
                 show_nat (relevant_pending s) @ '' pending pod(s) fit capacity already powering on''
               else show_nat (online_now s) @ '' online, nothing pending, nothing unneeded''))"

definition with_notes :: "pool_snapshot \<Rightarrow> string \<Rightarrow> string" where
  "with_notes s reason =
     (let notes = filter_map (\<lambda>m. map_option (\<lambda>n. m_name m @ '' '' @ n) (m_note m)) (sn_members s) in
      if notes = [] then reason else reason @ ''; '' @ join ''; '' notes)"

definition no_action_decision :: "pool_snapshot \<Rightarrow> planned_decision" where
  "no_action_decision s =
     \<lparr> dc_action = DA_NoAction, dc_node = None,
       dc_reason = with_notes s (no_action_reason s False),
       dc_live_reason = with_notes s (no_action_reason s True),
       dc_candidates =
         (if unneeded_names s = [] \<and> us_unplaced (scale_up s) = [] then ''''
          else if us_unplaced (scale_up s) = [] then compact (sn_spec s) (candidates s)
          else compact (sn_spec s) (ranked_up s)) \<rparr>"

definition plan_decisions :: "pool_snapshot \<Rightarrow> planned_decision list" where
  "plan_decisions s =
     (let actions =
            map (action_decision DA_PowerOn (compact (sn_spec s) (ranked_up s))) (us_opened (scale_up s))
            @ map (action_decision DA_PowerOff (compact (sn_spec s) (candidates s)))
                (dn_power_off (scale_down s))
      in if actions = [] then [no_action_decision s] else actions)"

definition plan_of :: "pool_snapshot \<Rightarrow> plan" where
  "plan_of s = \<lparr>
     pl_power_on = us_opened (scale_up s),
     pl_power_off = dn_power_off (scale_down s),
     pl_unneeded_since = plan_unneeded s,
     pl_relevant_pending = relevant_pending s,
     pl_online = as_u32 (online_now s),
     pl_message = plan_message s,
     pl_decisions = plan_decisions s,
     pl_details = render s False,
     pl_live_details = render s True,
     pl_releasable = plan_releasable s,
     pl_needed = plan_needed s \<rparr>"

lemma plan_sel:
  "pl_power_on (plan_of s) = us_opened (scale_up s)"
  "pl_power_off (plan_of s) = dn_power_off (scale_down s)"
  "pl_unneeded_since (plan_of s) = plan_unneeded s"
  "pl_decisions (plan_of s) = plan_decisions s"
  "pl_releasable (plan_of s) = plan_releasable s"
  "pl_needed (plan_of s) = plan_needed s"
  by (simp_all add: plan_of_def)

section \<open>What a plan powers on\<close>

text \<open>C7: A plan powers on only members that are off and under automatic policy, each at most
  once, and never takes the pool above \<^verbatim>\<open>maxOnline\<close>: whenever it powers anything on, the
  machines online or booting and those it powers on together are at most \<^verbatim>\<open>maxOnline\<close>.\<close>

theorem plan_power_on_safe:
  assumes "distinct (map m_name (sn_members s))"
  shows "distinct (map fst (pl_power_on (plan_of s)))
    \<and> (\<forall>name \<in> fst ` set (pl_power_on (plan_of s)). \<exists>m \<in> set (sn_members s).
          m_name m = name \<and> m_auto m \<and> m_state m = Offline)
    \<and> (pl_power_on (plan_of s) \<noteq> [] \<longrightarrow>
          online_now s + length (pl_power_on (plan_of s)) \<le> max_online s)"
  unfolding plan_sel using scale_up_members [OF assms] scale_up_max by blast

definition sample_pod_view :: "string \<Rightarrow> int \<Rightarrow> pod_view" where
  "sample_pod_view name cpu = \<lparr> pv_namespace = ''default'', pv_name = name,
     pv_requests = \<lparr> cpu_millis = cpu, memory_bytes = 0, ra_pods = 1 \<rparr>, pv_node_selector = [],
     pv_affinity_terms = [], pv_tolerations = [], pv_created = None, pv_extended_requests = [] \<rparr>"

definition sample_snapshot :: "member list \<Rightarrow> pod_view list \<Rightarrow> pool_snapshot" where
  "sample_snapshot ms ps = \<lparr> sn_spec = sample_pool_spec, sn_members = ms, sn_pending = ps,
     sn_now = secs 100000, sn_last_scale_up = None, sn_unneeded_since = [], sn_external = [],
     sn_kept_by_others = [] \<rparr>"

abbreviation "up_sample \<equiv> sample_snapshot
  [sample_member ''a'' Offline 4000, sample_member ''b'' Offline 8000] [sample_pod_view ''p'' 1000]"

lemma up_sample_opened: "map fst (us_opened (scale_up up_sample)) = [''b'']"
  by code_simp

lemma plan_power_on_safe_witness:
  "online_now up_sample + length (pl_power_on (plan_of up_sample)) \<le> max_online up_sample"
proof -
  have d: "distinct (map m_name (sn_members up_sample))"
    by (simp add: sample_snapshot_def sample_member_def)
  have "pl_power_on (plan_of up_sample) \<noteq> []" using up_sample_opened by (auto simp: plan_of_def)
  with plan_power_on_safe [OF d] show ?thesis by blast
qed

text \<open>C10: A pool that has a pending pod one of its machines could run, with nothing booting,
  scale-up enabled and room below \<^verbatim>\<open>maxOnline\<close>, powers on at least one machine in this
  very cycle.\<close>

theorem plan_serves_pending:
  assumes "relevant_pods s \<noteq> []" and "\<forall>m \<in> set (sn_members s). m_state m \<noteq> Booting"
    and "su_enabled (ps_scale_up (sn_spec s))" and "online_now s < max_online s"
  shows "pl_power_on (plan_of s) \<noteq> []"
  using scale_up_progress [OF assms] by (simp add: plan_of_def)

lemma plan_serves_pending_witness: "pl_power_on (plan_of up_sample) \<noteq> []"
proof (rule plan_serves_pending)
  show "relevant_pods up_sample \<noteq> []" by code_simp
  show "\<forall>m \<in> set (sn_members up_sample). m_state m \<noteq> Booting"
    by (simp add: sample_snapshot_def sample_member_def)
  show "su_enabled (ps_scale_up (sn_spec up_sample))" by code_simp
  show "online_now up_sample < max_online up_sample"
    by (simp add: online_now_def max_online_def sample_snapshot_def sample_member_def counts_online_def
        sample_pool_spec_def USIZE_MAX_def)
qed

text \<open>C11: \<^verbatim>\<open>minOnline\<close> is reached in one cycle, scale-up enabled or not: after the plan the
  pool has \<^verbatim>\<open>minOnline\<close> machines on or coming, or is at \<^verbatim>\<open>maxOnline\<close>, or has asked every
  machine that is off and under automatic policy to power on.\<close>

theorem plan_reaches_min_online:
  "ps_min_online (sn_spec s) \<le> online_now s + length (pl_power_on (plan_of s))
   \<or> max_online s \<le> online_now s + length (pl_power_on (plan_of s))
   \<or> mset (map fst (pl_power_on (plan_of s))) = mset (map m_name (offline_members s))"
proof -
  let ?placed = "foldl (place_pod s) (initial_up_state s) (decreasing (relevant_pods s))"
  obtain ms where ms: "map m_name ms = map fst (us_opened (scale_up s))"
      "mset ms + mset (us_offline (scale_up s)) = mset (ranked_up s)"
    using up_inv_scale_up by (auto simp: up_inv_def)
  have "mset (map fst (us_opened (scale_up s))) = mset (map m_name (offline_members s))"
    if "us_offline (scale_up s) = []"
  proof -
    have "mset ms = mset (offline_members s)"
      using ms(2) that by (simp add: ranked_up_def rank_on_def sort_simps)
    then show ?thesis by (metis ms(1) mset_map)
  qed
  moreover have "ps_min_online (sn_spec s) \<le> online_now s + length (us_opened (scale_up s))
     \<or> max_online s \<le> online_now s + length (us_opened (scale_up s)) \<or> us_offline (scale_up s) = []"
    using fill_reaches [of ?placed "us_offline ?placed" "scale_up s" s] by (simp add: scale_up_def Let_def)
  ultimately show ?thesis by (auto simp: plan_of_def)
qed

text \<open>Apart from what \<^verbatim>\<open>minOnline\<close> needs, at most \<^verbatim>\<open>maxNodesPerStep\<close> machines are powered
  on per cycle.\<close>

theorem plan_power_on_bound:
  assumes "su_max_nodes_per_step (ps_scale_up (sn_spec s)) < 2 ^ 32"
  shows "length (pl_power_on (plan_of s)) \<le> max (step_limit s) (ps_min_online (sn_spec s) - online_now s)"
proof -
  let ?placed = "foldl (place_pod s) (initial_up_state s) (decreasing (relevant_pods s))"
  have "length (us_opened ?placed) \<le> step_limit s"
    by (intro places_step [OF assms]) (simp add: initial_up_state_def)
  moreover have "length (us_opened (scale_up s)) \<le>
      max (length (us_opened ?placed)) (ps_min_online (sn_spec s) - online_now s)"
    unfolding scale_up_def Let_def by (rule fill_bound)
  ultimately show ?thesis by (simp add: plan_of_def)
qed

lemma plan_power_on_bound_witness: "length (pl_power_on (plan_of up_sample)) \<le> 3"
  using plan_power_on_bound [of up_sample]
  by (simp add: sample_snapshot_def sample_pool_spec_def default_scale_up_spec_def step_limit_def)

end
