(* ===== verification/Plan_Safety.thy ===== *)
theory Plan_Safety
  imports Plan
begin

text \<open>
  What a plan powers off: never while it powers anything on, only unneeded machines that no
  other pool keeps, never below \<^verbatim>\<open>minOnline\<close>, and the simulated moves of their pods.
\<close>

lemma up_or_down: "us_opened (scale_up s) = [] \<or> dn_power_off (scale_down s) = []"
  using scale_down_open(1) [of s] blocked_reason_None [of s] by blast

text \<open>C8: A plan never powers machines on and off in the same cycle.\<close>

theorem plan_never_both:
  "pl_power_on (plan_of s) = [] \<or> pl_power_off (plan_of s) = []"
  unfolding plan_sel by (rule up_or_down)

lemma power_off_eligible:
  assumes "distinct (map m_name (sn_members s))" and "name \<in> fst ` set (dn_power_off (scale_down s))"
  shows "not_kept s name" "\<exists>m \<in> set (eligible s). m_name m = name"
  using down_inv_scale_down [OF assms(1)] assms(2) unfolding down_inv_def by blast+

lemma eligible_member: "m \<in> set (eligible s) \<Longrightarrow> m \<in> set (sn_members s) \<and> m_auto m \<and> m_state m = Online"
  using candidate_iff by (auto simp: eligible_def)

text \<open>C1: Every machine a plan powers off is a member that is online and under automatic policy,
  runs no pod that blocks its power-off, and is kept on by no other pool selecting it; no machine
  is listed twice.\<close>

theorem plan_power_off_safe:
  assumes "distinct (map m_name (sn_members s))"
  shows "distinct (map fst (pl_power_off (plan_of s)))
    \<and> (\<forall>name \<in> fst ` set (pl_power_off (plan_of s)). not_kept s name
        \<and> (\<exists>m \<in> set (sn_members s). m_name m = name \<and> m_auto m \<and> m_state m = Online
              \<and> m_blocking_pods m = []))"
proof (intro conjI ballI)
  show "distinct (map fst (pl_power_off (plan_of s)))"
    using down_inv_scale_down [OF assms] by (simp add: down_inv_def plan_sel)
  fix name assume "name \<in> fst ` set (pl_power_off (plan_of s))"
  then have n: "name \<in> fst ` set (dn_power_off (scale_down s))" by (simp only: plan_sel)
  show "not_kept s name" by (rule power_off_eligible(1) [OF assms n])
  obtain m where m: "m \<in> set (eligible s)" "m_name m = name"
    using power_off_eligible(2) [OF assms n] by blast
  show "\<exists>m \<in> set (sn_members s). m_name m = name \<and> m_auto m \<and> m_state m = Online \<and> m_blocking_pods m = []"
    using eligible_member [OF m(1)] eligible_no_blocking [OF assms m(1)] m(2) by blast
qed

text \<open>A pool with an idle machine and a busy one.\<close>

definition idle_member :: "string \<Rightarrow> int \<Rightarrow> pod_view list \<Rightarrow> member" where
  "idle_member name cpu pods = (sample_member name Online cpu)\<lparr> m_movable_pods := pods,
     m_requested := \<lparr> cpu_millis = (\<Sum>p\<leftarrow>pods. cpu_millis (pv_requests p)), memory_bytes = 0,
                      ra_pods = int (length pods) \<rparr>,
     m_counted := \<lparr> cpu_millis = (\<Sum>p\<leftarrow>pods. cpu_millis (pv_requests p)), memory_bytes = 0,
                      ra_pods = int (length pods) \<rparr> \<rparr>"

definition idle_snapshot :: "nat \<Rightarrow> pool_snapshot" where
  "idle_snapshot step = (sample_snapshot
     [idle_member ''a'' 4000 [sample_pod_view ''pa'' 1000],
      idle_member ''b'' 4000 [sample_pod_view ''pb'' 1000],
      idle_member ''c'' 4000 [sample_pod_view ''pc'' 3000]] [])
     \<lparr> sn_unneeded_since := [(''a'', secs 1000), (''b'', secs 1000)],
       sn_spec := sample_pool_spec\<lparr> ps_scale_down := default_scale_down_spec\<lparr> sd_max_nodes_per_step := step \<rparr> \<rparr> \<rparr>"

lemma idle_off_1: "map fst (dn_power_off (scale_down (idle_snapshot 1))) = [''b'']"
  by code_simp

lemma idle_off_2: "map fst (dn_power_off (scale_down (idle_snapshot 2))) = [''b'', ''a'']"
  by code_simp

lemma idle_distinct: "distinct (map m_name (sn_members (idle_snapshot n)))"
  by (simp add: idle_snapshot_def sample_snapshot_def idle_member_def sample_member_def)

lemma plan_power_off_safe_witness:
  "\<exists>m \<in> set (sn_members (idle_snapshot 1)). m_name m = ''b'' \<and> m_auto m \<and> m_state m = Online
     \<and> m_blocking_pods m = []"
proof -
  have "''b'' \<in> set (map fst (pl_power_off (plan_of (idle_snapshot 1))))"
    unfolding plan_sel idle_off_1 by simp
  then have "''b'' \<in> fst ` set (pl_power_off (plan_of (idle_snapshot 1)))" by simp
  then show ?thesis using plan_power_off_safe [OF idle_distinct, of 1] by blast
qed

text \<open>C2: Powering off never takes the pool below \<^verbatim>\<open>minOnline\<close>, and within \<^verbatim>\<open>maxOnline\<close> at
  most \<^verbatim>\<open>maxNodesPerStep\<close> machines are leaving at any time, those already on their way off
  included; above \<^verbatim>\<open>maxOnline\<close> at most the excess (or that step) goes.\<close>

theorem plan_power_off_bounds:
  assumes "distinct (map m_name (sn_members s))" and "pl_power_off (plan_of s) \<noteq> []"
  shows "ps_min_online (sn_spec s) + length (pl_power_off (plan_of s)) \<le> online_now s
    \<and> (over_max s = 0 \<longrightarrow> leaving s + length (pl_power_off (plan_of s)) \<le> down_step s)
    \<and> (0 < over_max s \<longrightarrow>
         length (pl_power_off (plan_of s)) \<le> max (online_now s - max_online s) (down_step s - leaving s))"
proof -
  have off: "dn_power_off (scale_down s) \<noteq> []" using assms(2) by (simp add: plan_sel)
  have b: "length (dn_power_off (scale_down s)) \<le> budget s"
      "ps_min_online (sn_spec s) + length (dn_power_off (scale_down s)) \<le> online_now s"
    using down_inv_scale_down [OF assms(1)] off by (auto simp: down_inv_def)
  have "leaving s < down_step s" if "over_max s = 0" using scale_down_open(2) [OF off] that by simp
  with b show ?thesis by (auto simp: plan_sel budget_def over_max_def)
qed

lemma plan_power_off_bounds_witness:
  "length (pl_power_off (plan_of (idle_snapshot 2))) \<le> online_now (idle_snapshot 2)"
proof -
  have "map fst (pl_power_off (plan_of (idle_snapshot 2))) \<noteq> []" unfolding plan_sel idle_off_2 by simp
  then have "pl_power_off (plan_of (idle_snapshot 2)) \<noteq> []" by auto
  then show ?thesis using plan_power_off_bounds [OF idle_distinct] by force
qed

text \<open>C9: While a pool is not above \<^verbatim>\<open>maxOnline\<close>, it powers a machine off only with scale-down
  enabled, no pending pod it could serve, no machine booting and the hold after its last
  power-on over; and the machine has either been unneeded for all of \<^verbatim>\<open>unneededSeconds\<close>, or was
  powered on by hand and its grace is over.\<close>

theorem plan_power_off_justified:
  assumes "distinct (map m_name (sn_members s))" and "over_max s = 0"
    and "name \<in> fst ` set (pl_power_off (plan_of s))"
  shows "sd_enabled (ps_scale_down (sn_spec s)) \<and> relevant_pending s = 0
    \<and> (\<forall>m \<in> set (sn_members s). m_state m \<noteq> Booting)
    \<and> (\<forall>t. last_power_on s = Some t \<longrightarrow>
          t + secs (as_i64 (hold_after_power_on (ps_scale_down (sn_spec s)))) \<le> sn_now s)
    \<and> (\<exists>m \<in> set (sn_members s). m_name m = name
          \<and> (busy_note s m = None \<and> unneeded_for s \<le> sn_now s - since_of s m \<or> released s m))"
proof -
  have n: "name \<in> fst ` set (dn_power_off (scale_down s))" using assms(3) by (simp only: plan_sel)
  then have "dn_power_off (scale_down s) \<noteq> []" by auto
  then have b: "sd_enabled (ps_scale_down (sn_spec s))" "relevant_pending s = 0" "\<not> booting s"
      "hold_until s = None"
    using blocked_reason_None [OF scale_down_open(1)] assms(2) by auto
  obtain m where m: "m \<in> set (eligible s)" "m_name m = name"
    using power_off_eligible(2) [OF assms(1) n] by blast
  have "\<forall>t. last_power_on s = Some t \<longrightarrow>
      t + secs (as_i64 (hold_after_power_on (ps_scale_down (sn_spec s)))) \<le> sn_now s"
    using b(4) by (auto simp: hold_until_def Let_def split: if_splits)
  moreover have "\<forall>m \<in> set (sn_members s). m_state m \<noteq> Booting"
    using b(3) by (auto simp: booting_def list_ex_iff)
  ultimately show ?thesis
    using b eligible_reason [OF assms(1) m(1) assms(2)] eligible_member [OF m(1)] m(2) by blast
qed

lemma idle_over_max: "over_max (idle_snapshot n) = 0"
  by (simp add: over_max_def online_now_def max_online_def idle_snapshot_def sample_snapshot_def
      sample_pool_spec_def USIZE_MAX_def)

lemma plan_power_off_justified_witness:
  "\<exists>m \<in> set (sn_members (idle_snapshot 1)). m_name m = ''b''
     \<and> (busy_note (idle_snapshot 1) m = None
        \<and> unneeded_for (idle_snapshot 1) \<le> sn_now (idle_snapshot 1) - since_of (idle_snapshot 1) m
        \<or> released (idle_snapshot 1) m)"
proof -
  have "''b'' \<in> set (map fst (pl_power_off (plan_of (idle_snapshot 1))))"
    unfolding plan_sel idle_off_1 by simp
  then have "''b'' \<in> fst ` set (pl_power_off (plan_of (idle_snapshot 1)))" by simp
  then show ?thesis using plan_power_off_justified [OF idle_distinct idle_over_max] by blast
qed

section \<open>The pods of a machine that goes\<close>

text \<open>Until a machine goes, the loop works on the room that was free to begin with.\<close>

lemma power_off_grows: "\<exists>off. dn_power_off (consider_members s ms st) = dn_power_off st @ off"
proof (induction ms arbitrary: st)
  case (Cons m ms)
  obtain off where off: "dn_power_off (consider_members s ms (consider_member s m ms st))
      = dn_power_off (consider_member s m ms st) @ off" using Cons by blast
  show ?case
  proof (cases rule: consider_member_cases [of s m ms st])
    case kept
    with off show ?thesis by simp
  next
    case (goes trial reason)
    with off show ?thesis by simp
  qed
qed simp

lemma first_to_go:
  assumes "dn_power_off st = []" "dn_removed st = []" "dn_free st = free"
    and "dn_power_off (consider_members s ms st) = (name, reason) # off"
  shows "\<exists>m trial. m \<in> set ms \<and> m_name m = name
     \<and> place_evicted (targets s m []) (decreasing (m_movable_pods m)) (bt_remove name free) = Some trial"
  using assms
proof (induction ms arbitrary: st)
  case (Cons m ms)
  let ?st = "consider_member s m ms st"
  have c: "dn_power_off (consider_members s ms ?st) = (name, reason) # off" using Cons.prems(4) by simp
  show ?case
  proof (cases rule: consider_member_cases [of s m ms st])
    case kept
    with Cons.prems have "dn_power_off ?st = []" "dn_removed ?st = []" "dn_free ?st = free" by simp_all
    from Cons.IH [OF this c] show ?thesis by auto
  next
    case (goes trial why)
    obtain off' where "dn_power_off (consider_members s ms ?st) = dn_power_off ?st @ off'"
      using power_off_grows by blast
    then have "m_name m = name" using c goes(6) Cons.prems(1) by simp
    with goes(4) Cons.prems show ?thesis by auto
  qed
qed simp

text \<open>C12: When a plan powers off a single machine, every pod that has to move has been given one
  of the other machines that stay on (or a node outside the pools) which it matches and which has
  room for it when its turn comes, and the pods given to one machine together request no more
  than was free there.\<close>

theorem single_power_off_pods_fit:
  assumes "distinct (map m_name (sn_members s))" and "pl_power_off (plan_of s) = [(name, reason)]"
  shows "\<exists>m ks. m \<in> set (sn_members s) \<and> m_name m = name
    \<and> assignment_ok (targets s m []) (decreasing (m_movable_pods m)) ks (bt_remove name (initial_free s))
    \<and> (\<forall>key f dim. (\<forall>p \<in> set (m_movable_pods m). amounts_nonneg (pv_requests p))
          \<and> bt_get (bt_remove name (initial_free s)) key = Some f \<and> amounts_in_range f \<and> amounts_nonneg f
          \<and> dim \<in> {cpu_millis, memory_bytes, ra_pods}
          \<longrightarrow> load_on key dim (decreasing (m_movable_pods m)) ks \<le> dim f)"
proof -
  have off: "dn_power_off (scale_down s) = [(name, reason)]" using assms(2) by (simp only: plan_sel)
  then have "scale_down s = consider_members s (eligible s) (initial_down_state s)"
    by (auto simp: scale_down_def Let_def initial_down_state_def split: if_splits)
  then obtain m trial where m: "m \<in> set (eligible s)" "m_name m = name"
      "place_evicted (targets s m []) (decreasing (m_movable_pods m)) (bt_remove name (initial_free s)) = Some trial"
    using first_to_go [of "initial_down_state s" "initial_free s" s "eligible s" name reason "[]"] off
    by (auto simp: initial_down_state_def)
  obtain ks where ks: "assignment_ok (targets s m []) (decreasing (m_movable_pods m)) ks
      (bt_remove name (initial_free s))"
    using place_evicted_assignment [OF m(3)] by blast
  have "load_on key dim (decreasing (m_movable_pods m)) ks \<le> dim f"
    if "\<forall>p \<in> set (m_movable_pods m). amounts_nonneg (pv_requests p)"
      "bt_get (bt_remove name (initial_free s)) key = Some f" "amounts_in_range f" "amounts_nonneg f"
      "dim \<in> {cpu_millis, memory_bytes, ra_pods}" for key f dim
    by (rule assignment_load [OF ks _ that(2-5)]) (use that(1) in \<open>simp add: decreasing_def\<close>)
  with ks m(2) eligible_member [OF m(1)] show ?thesis by blast
qed

lemma single_power_off_pods_fit_witness:
  "\<exists>m ks. m \<in> set (sn_members (idle_snapshot 1)) \<and> m_name m = ''b''
    \<and> assignment_ok (targets (idle_snapshot 1) m []) (decreasing (m_movable_pods m)) ks
        (bt_remove ''b'' (initial_free (idle_snapshot 1)))"
proof -
  obtain reason where "dn_power_off (scale_down (idle_snapshot 1)) = [(''b'', reason)]"
    using idle_off_1 by (cases "dn_power_off (scale_down (idle_snapshot 1))") auto
  then have "pl_power_off (plan_of (idle_snapshot 1)) = [(''b'', reason)]" by (simp only: plan_sel)
  then show ?thesis using single_power_off_pods_fit [OF idle_distinct] by blast
qed

text \<open>With \<^verbatim>\<open>maxNodesPerStep\<close> above one the simulation forgets pods: a machine whose room
  was given to the pods of one machine may be powered off next, and those pods are not moved on.
  Of three machines with 4 cores, the idle ones each run a pod of one core and the third has one
  core left; both idle machines are powered off, although their two pods need two cores.\<close>

lemma two_power_offs_overcommit:
  "map fst (pl_power_off (plan_of (idle_snapshot 2))) = [''b'', ''a'']
   \<and> map (\<lambda>m. (m_name m, cpu_millis (ra_minus (m_allocatable m) (m_requested m))))
       (filter (\<lambda>m. m_name m \<notin> {''a'', ''b''}) (sn_members (idle_snapshot 2))) = [(''c'', 1000)]
   \<and> sn_external (idle_snapshot 2) = []
   \<and> (\<Sum>m\<leftarrow>filter (\<lambda>m. m_name m \<in> {''a'', ''b''}) (sn_members (idle_snapshot 2)).
        \<Sum>p\<leftarrow>m_movable_pods m. cpu_millis (pv_requests p)) = 2000"
  unfolding plan_sel idle_off_2
  by (simp add: idle_snapshot_def sample_snapshot_def idle_member_def sample_member_def
      sample_pod_view_def ra_minus_def)

section \<open>What the pool tells other pools\<close>

lemma plan_needed_get:
  assumes "distinct (map m_name (sn_members s))" and "m \<in> set (candidates s)"
  shows "bt_get (plan_needed s) (m_name m) = held s m"
proof -
  let ?held = "filter_map (\<lambda>m. map_option (\<lambda>why. (m_name m, why)) (held s m)) (candidates s)"
  let ?boot = "map (\<lambda>m. (m_name m, ''powering on'')) (filter (\<lambda>m. m_state m = Booting) (sn_members s))"
  have d: "distinct (map m_name (candidates s))" using assms(1) by (rule distinct_candidates)
  have fm: "map fst (filter_map (\<lambda>m. map_option (\<lambda>why. (m_name m, why)) (held s m)) ms)
      = map m_name (filter (\<lambda>m. held s m \<noteq> None) ms)" for ms
    by (induction ms) (auto split: option.split)
  then have dk: "distinct (map fst (rev ?held))"
    using d by (simp add: rev_map [symmetric] distinct_map_filter)
  have fold_form: "plan_needed s = foldl (\<lambda>n (k, v). bt_insert k v n) (bt_collect ?held) ?boot"
    by (simp add: plan_needed_def foldl_map)
  have "m_name m \<notin> set (map fst (rev ?boot))"
  proof
    assume "m_name m \<in> set (map fst (rev ?boot))"
    then obtain b where "b \<in> set (sn_members s)" "m_state b = Booting" "m_name b = m_name m" by auto
    with same_name_same_member [OF assms(1)] assms(2) show False
      by (metis candidate_iff member_state.distinct(1))
  qed
  then have "map_of (rev ?boot) (m_name m) = None" by (simp add: map_of_eq_None_iff)
  then have g: "bt_get (plan_needed s) (m_name m) = map_of (rev ?held) (m_name m)"
    unfolding fold_form btm.get_fold_put by (simp add: bt_get_collect)
  show ?thesis
  proof (cases "held s m")
    case None
    then have "m_name m \<notin> set (map fst ?held)"
      unfolding fm using same_name_same_member [OF d assms(2)] by auto
    then have "map_of (rev ?held) (m_name m) = None" by (simp add: map_of_eq_None_iff)
    with g None show ?thesis by simp
  next
    case (Some why)
    then have "(m_name m, why) \<in> set (rev ?held)" using assms(2) by auto
    from map_of_is_SomeI [OF dk this] g Some show ?thesis by simp
  qed
qed

lemma releasable_iff:
  assumes "distinct (map m_name (sn_members s))" and "m \<in> set (candidates s)"
  shows "m_name m \<in> set (plan_releasable s) \<longleftrightarrow> held s m = None"
  using same_name_same_member [OF distinct_candidates [OF assms(1)] assms(2)] assms(2)
  by (auto simp: plan_releasable_def)

text \<open>C20: A pool tells the others one thing about each online machine under automatic policy: it
  is either listed as releasable, or there is a reason it is needed, never both; and a machine
  the pool itself powers off while not above \<^verbatim>\<open>maxOnline\<close> is one it lists as releasable.\<close>

theorem plan_agreement_consistent:
  assumes "distinct (map m_name (sn_members s))"
    and "m \<in> set (sn_members s)" "m_auto m" "m_state m = Online"
  shows "(m_name m \<in> set (pl_releasable (plan_of s))) = (bt_get (pl_needed (plan_of s)) (m_name m) = None)
    \<and> (m_name m \<in> fst ` set (pl_power_off (plan_of s)) \<and> over_max s = 0
         \<longrightarrow> m_name m \<in> set (pl_releasable (plan_of s)))"
proof -
  have c: "m \<in> set (candidates s)" using assms by (simp add: candidate_iff)
  have "held s m = None" if off: "m_name m \<in> fst ` set (dn_power_off (scale_down s))" and "over_max s = 0"
  proof -
    obtain m' where m': "m' \<in> set (eligible s)" "m_name m' = m_name m"
      using power_off_eligible(2) [OF assms(1) off] by blast
    then have "m' \<in> set (candidates s)" by (simp add: eligible_def)
    then have "m' = m" using same_name_same_member [OF distinct_candidates [OF assms(1)]] c m'(2) by blast
    then have e: "expired s m \<or> released s m" using m'(1) that(2) by (simp add: eligible_def)
    have ne: "dn_power_off (scale_down s) \<noteq> []" using off by auto
    then have "blocked_reason s = None" by (rule scale_down_open(1))
    moreover have "ps_min_online (sn_spec s) + 1 \<le> online_now s"
      using down_inv_scale_down [OF assms(1)] ne by (cases "dn_power_off (scale_down s)") (auto simp: down_inv_def)
    ultimately show ?thesis using e by (simp add: held_def)
  qed
  then show ?thesis
    unfolding plan_sel releasable_iff [OF assms(1) c] plan_needed_get [OF assms(1) c] by blast
qed

lemma plan_agreement_consistent_witness:
  "(''b'' \<in> set (pl_releasable (plan_of (idle_snapshot 1))))
     = (bt_get (pl_needed (plan_of (idle_snapshot 1))) ''b'' = None)"
  using plan_agreement_consistent [OF idle_distinct [of 1], of "idle_member ''b'' 4000 [sample_pod_view ''pb'' 1000]"]
  by (simp add: idle_snapshot_def sample_snapshot_def idle_member_def sample_member_def)

section \<open>The clock of an unneeded machine\<close>

text \<open>C21: The time since which a machine is unneeded starts when it becomes unneeded, is kept
  unchanged from cycle to cycle while it stays so, and is forgotten as soon as it is needed
  again or is no longer an online member under automatic policy.\<close>

theorem unneeded_clock:
  assumes "distinct (map m_name (sn_members s))"
  shows "bt_get (pl_unneeded_since (plan_of s)) name =
    (case find (\<lambda>m. m_name m = name \<and> m_auto m \<and> m_state m = Online) (sn_members s) of
       None \<Rightarrow> None
     | Some m \<Rightarrow>
         if busy_note s m \<noteq> None then None
         else (case bt_get (sn_unneeded_since s) name of Some t \<Rightarrow> Some t | None \<Rightarrow> Some (sn_now s)))"
proof (cases "find (\<lambda>m. m_name m = name \<and> m_auto m \<and> m_state m = Online) (sn_members s)")
  case None
  then have "name \<notin> m_name ` set (filter (\<lambda>m. busy_note s m = None) (candidates s))"
    by (auto simp: find_None_iff candidate_iff)
  then have "bt_get (plan_unneeded s) name = None"
    unfolding plan_unneeded_def by (rule bt_get_collect_None)
  with None show ?thesis by (simp add: plan_sel)
next
  case (Some m)
  then have m: "m \<in> set (candidates s)" "m_name m = name"
    by (auto simp: find_Some_iff candidate_iff)
  show ?thesis using Some m(2) unneeded_get [OF assms m(1)]
    by (auto simp: plan_sel since_of_def split: option.split)
qed

lemma unneeded_clock_witness:
  "bt_get (pl_unneeded_since (plan_of (idle_snapshot 1))) ''b'' = Some (secs 1000)"
  unfolding unneeded_clock [OF idle_distinct] by code_simp

section \<open>The decision log\<close>

text \<open>Every plan is explained: there is one decision per machine it powers on or off, in that
  order and with the reason given for it, or else a single decision saying why nothing happens.\<close>

theorem plan_decisions_complete:
  "(pl_power_on (plan_of s) = [] \<and> pl_power_off (plan_of s) = [] \<longrightarrow>
      map dc_action (pl_decisions (plan_of s)) = [DA_NoAction])
   \<and> (pl_power_on (plan_of s) \<noteq> [] \<or> pl_power_off (plan_of s) \<noteq> [] \<longrightarrow>
      map (\<lambda>d. (dc_action d, dc_node d, dc_reason d)) (pl_decisions (plan_of s)) =
        map (\<lambda>(n, r). (DA_PowerOn, Some n, r)) (pl_power_on (plan_of s))
        @ map (\<lambda>(n, r). (DA_PowerOff, Some n, r)) (pl_power_off (plan_of s)))"
  unfolding plan_sel
  by (auto simp: plan_decisions_def no_action_decision_def action_decision_def)

lemma plan_decisions_complete_witness:
  "map dc_node (pl_decisions (plan_of (idle_snapshot 1))) = [Some ''b'']"
proof -
  obtain reason where o': "pl_power_off (plan_of (idle_snapshot 1)) = [(''b'', reason)]"
    using idle_off_1 by (cases "dn_power_off (scale_down (idle_snapshot 1))") (auto simp: plan_sel)
  then have on: "pl_power_on (plan_of (idle_snapshot 1)) = []"
    using up_or_down [of "idle_snapshot 1"] unfolding plan_sel by simp
  let ?f = "\<lambda>d. (dc_action d, dc_node d, dc_reason d)"
  have "map ?f (pl_decisions (plan_of (idle_snapshot 1))) = [(DA_PowerOff, Some ''b'', reason)]"
    using plan_decisions_complete [of "idle_snapshot 1"] o' on by simp
  then have "map (\<lambda>x. fst (snd x)) (map ?f (pl_decisions (plan_of (idle_snapshot 1)))) = [Some ''b'']"
    by simp
  then show ?thesis by (simp add: comp_def)
qed

end
