(* ===== verification/Identity.thy ===== *)
theory Identity
  imports Prelude "HOL-Library.Word"
begin

text \<open>
  \<^verbatim>\<open>identity.rs\<close>: whether a management interface controls the machine of a Node, by
  comparing system UUIDs.  A raw GUID is its 16 bytes.
\<close>

type_synonym byte = "8 word"

datatype system_id = Uuid string | RawGuid "byte list"

definition hex_digit :: "nat \<Rightarrow> char" where
  "hex_digit n = (if n < 10 then char_of (48 + n) else char_of (87 + n))"

definition hex_byte :: "byte \<Rightarrow> string" where
  "hex_byte b = [hex_digit (unat b div 16), hex_digit (unat b mod 16)]"

definition hex :: "byte list \<Rightarrow> string" where
  "hex b = concat (map hex_byte b)"

definition show_system_id :: "system_id \<Rightarrow> string" where
  "show_system_id i = (case i of Uuid s \<Rightarrow> s | RawGuid b \<Rightarrow> hex b)"

definition is_ascii_hexdigit :: "char \<Rightarrow> bool" where
  "is_ascii_hexdigit c = (let n = of_char c :: nat in
     48 \<le> n \<and> n \<le> 57 \<or> 65 \<le> n \<and> n \<le> 70 \<or> 97 \<le> n \<and> n \<le> 102)"

definition normalize_uuid :: "string \<Rightarrow> string option" where
  "normalize_uuid uuid =
     (let h = map to_ascii_lower (filter is_ascii_hexdigit uuid) in
      if length h = 32 then Some h else None)"

definition swap_fields :: "byte list \<Rightarrow> byte list" where
  "swap_fields b = rev (take 4 b) @ rev (take 2 (drop 4 b)) @ rev (take 2 (drop 6 b)) @ drop 8 b"

definition is_placeholder :: "string \<Rightarrow> bool" where
  "is_placeholder h = (list_all (\<lambda>c. c = CHR ''0'') h \<or> list_all (\<lambda>c. c = CHR ''f'') h)"

datatype identity_check = Match | Mismatch string string | Unverifiable

definition raw_candidates :: "byte list \<Rightarrow> string list" where
  "raw_candidates b =
     (let r = rev b; rev_of_swap = rev (swap_fields b) in
      [hex b, hex r, hex (swap_fields b), hex (swap_fields r), hex rev_of_swap])"

definition identity_check_of :: "system_id option \<Rightarrow> string option \<Rightarrow> identity_check" where
  "identity_check_of reported node_uuid =
     (case (reported, Option.bind node_uuid normalize_uuid) of
        (Some rep, Some expected) \<Rightarrow>
          if is_placeholder expected then Unverifiable
          else
            (case (case rep of
                     Uuid s \<Rightarrow> map_option (\<lambda>h. [h]) (normalize_uuid s)
                   | RawGuid b \<Rightarrow> Some (raw_candidates b)) of
               None \<Rightarrow> Unverifiable
             | Some candidates \<Rightarrow>
                 if list_all is_placeholder candidates then Unverifiable
                 else if expected \<in> set candidates then Match
                 else Mismatch (show_system_id rep) expected)
      | _ \<Rightarrow> Unverifiable)"

section \<open>Byte orders\<close>

lemma swap_fields_length [simp]: "length b = 16 \<Longrightarrow> length (swap_fields b) = 16"
  by (simp add: swap_fields_def)

lemma swap_fields_twice [simp]:
  assumes "length b = 16" shows "swap_fields (swap_fields b) = b"
proof -
  let ?x = "rev (take 4 b)" and ?y = "rev (take 2 (drop 4 b))" and ?z = "rev (take 2 (drop 6 b))"
  have l: "length ?x = 4" "length ?y = 2" "length ?z = 2" using assms by simp_all
  have s: "swap_fields b = ?x @ ?y @ ?z @ drop 8 b" by (simp add: swap_fields_def)
  have "take 4 (swap_fields b) = ?x" "take 2 (drop 4 (swap_fields b)) = ?y"
      "take 2 (drop 6 (swap_fields b)) = ?z" "drop 8 (swap_fields b) = drop 8 b"
    unfolding s using l by simp_all
  then have "swap_fields (swap_fields b) = take 4 b @ take 2 (drop 4 b) @ take 2 (drop 6 b) @ drop 8 b"
    by (simp add: swap_fields_def [of "swap_fields b"])
  also have "\<dots> = b"
    using append_take_drop_id [of 4 b] append_take_drop_id [of 2 "drop 4 b"]
      append_take_drop_id [of 2 "drop 6 b"] by simp
  finally show ?thesis .
qed

lemma hex_digit_inj: "m < 16 \<Longrightarrow> n < 16 \<Longrightarrow> hex_digit m = hex_digit n \<Longrightarrow> m = n"
proof -
  assume mn: "m < 16" "n < 16" and e: "hex_digit m = hex_digit n"
  have "of_char (hex_digit k) = (if k < 10 then 48 + k else 87 + k)" if "k < 16" for k
    using that by (simp add: hex_digit_def)
  with mn e have "(if m < 10 then 48 + m else 87 + m) = (if n < 10 then 48 + n else 87 + n)" by metis
  then show "m = n" by (auto split: if_splits)
qed

lemma hex_byte_inj: "hex_byte a = hex_byte b \<Longrightarrow> a = b"
proof -
  assume e: "hex_byte a = hex_byte b"
  have lt: "unat x < 256" for x :: byte using unsigned_less [of x] by (simp add: nat_less_iff)
  have "unat a div 16 = unat b div 16" "unat a mod 16 = unat b mod 16"
    using e lt [of a] lt [of b] by (auto simp: hex_byte_def intro!: hex_digit_inj)
  then have "unat a = unat b" by (metis div_mult_mod_eq)
  then show "a = b" by (simp add: word_unat_eq_iff)
qed

lemma length_hex_byte [simp]: "length (hex_byte b) = 2"
  by (simp add: hex_byte_def)

lemma length_hex [simp]: "length (hex b) = 2 * length b"
  by (induction b) (simp_all add: hex_def)

lemma hex_inj: "length a = length b \<Longrightarrow> hex a = hex b \<longleftrightarrow> a = b"
  by (induction a b rule: list_induct2) (auto simp: hex_def append_eq_append_conv dest: hex_byte_inj)

text \<open>The byte orders in which BMCs are known to report a system GUID.\<close>

definition guid_encodings :: "byte list \<Rightarrow> byte list set" where
  "guid_encodings b = {b, rev b, swap_fields b, rev (swap_fields b), swap_fields (rev b)}"

lemma encoding_iff:
  assumes "length b = 16" "length r = 16"
  shows "r \<in> guid_encodings b \<longleftrightarrow>
    b \<in> {r, rev r, swap_fields r, swap_fields (rev r), rev (swap_fields r)}"
  using assms unfolding guid_encodings_def
  by (auto; metis length_rev rev_rev_ident swap_fields_twice)

text \<open>An interface that reports a raw GUID passes the identity check exactly when its 16
  bytes are the Node's UUID in one of the five byte orders BMCs use; a placeholder UUID
  (all 0 or all f) on the Node proves nothing.\<close>

theorem raw_guid_match_iff:
  assumes "length b = 16" "length r = 16" and "normalize_uuid u = Some (hex b)"
  shows "identity_check_of (Some (RawGuid r)) (Some u) = Match
     \<longleftrightarrow> r \<in> guid_encodings b \<and> \<not> is_placeholder (hex b)"
proof -
  have c: "hex b \<in> set (raw_candidates r) \<longleftrightarrow> r \<in> guid_encodings b"
    unfolding encoding_iff [OF assms(1,2)]
    using assms(1,2) by (simp add: raw_candidates_def Let_def hex_inj)
  have "\<not> list_all is_placeholder (raw_candidates r)"
    if "\<not> is_placeholder (hex b)" "hex b \<in> set (raw_candidates r)"
    using that by (auto simp: list_all_iff)
  then show ?thesis
    using c by (auto simp: identity_check_of_def assms(3))
qed

definition sample_guid :: "byte list" where
  "sample_guid = [0x33, 0x22, 0x11, 0x00, 0x55, 0x44, 0x77, 0x66, 0x88, 0x99, 0xaa, 0xbb, 0xcc, 0xdd, 0xee, 0xff]"

definition sample_uuid :: string where
  "sample_uuid = ''00112233-4455-6677-8899-AABBCCDDEEFF''"

lemma raw_guid_match_iff_witness:
  "identity_check_of (Some (RawGuid sample_guid)) (Some sample_uuid) = Match"
proof -
  let ?b = "swap_fields sample_guid"
  have l: "length sample_guid = 16" by (simp add: sample_guid_def)
  then have lb: "length ?b = 16" by simp
  have n: "normalize_uuid sample_uuid = Some (hex ?b)" by code_simp
  have p: "\<not> is_placeholder (hex ?b)" by code_simp
  have "sample_guid \<in> guid_encodings ?b" using l by (simp add: guid_encodings_def)
  with p show ?thesis unfolding raw_guid_match_iff [OF lb l n] by simp
qed

lemma textual_match_iff:
  "identity_check_of (Some (Uuid s)) (Some u) = Match
     \<longleftrightarrow> (\<exists>h. normalize_uuid s = Some h \<and> normalize_uuid u = Some h \<and> \<not> is_placeholder h)"
  by (auto simp: identity_check_of_def split: option.split)

lemma no_identity_no_match:
  "identity_check_of None u = Unverifiable" "identity_check_of r None = Unverifiable"
  by (auto simp: identity_check_of_def split: option.split)

end
