(* ===== verification/Membership.thy ===== *)
theory Membership
  imports Crd
begin

text \<open>
  \<^verbatim>\<open>membership.rs\<close>: the pools a machine belongs to, from the labels of its Node.
  Both controllers use this function.
\<close>

datatype membership = NoNode | NotInPool | Member "string list"

definition membership_pools :: "membership \<Rightarrow> string list" where
  "membership_pools m = (case m of Member p \<Rightarrow> p | _ \<Rightarrow> [])"

definition resolve :: "string btmap option \<Rightarrow> pool list \<Rightarrow> membership" where
  "resolve labels pools =
     (case labels of None \<Rightarrow> NoNode
      | Some labels \<Rightarrow>
          (let matching = sort (map po_name
                 (filter (\<lambda>p. \<not> po_deleting p \<and> selector_matches (ps_node_selector (po_spec p)) labels) pools))
           in if matching = [] then NotInPool else Member matching))"

lemma membership_pools_resolve:
  "membership_pools (resolve (Some labels) pools) =
     sort (map po_name
       (filter (\<lambda>p. \<not> po_deleting p \<and> selector_matches (ps_node_selector (po_spec p)) labels) pools))"
  by (simp add: resolve_def membership_pools_def Let_def)

lemma sort_rev_map_filter: "sort (map f (filter P (rev xs))) = sort (map f (filter P xs))"
  by (rule properties_for_sort) (simp_all add: rev_map [symmetric] rev_filter [symmetric])

text \<open>A machine belongs to exactly the pools that are not being deleted and whose selector
  matches its Node's labels, listed in name order whatever the order the pools are stored in,
  and to none when the Node is missing.\<close>

theorem membership_exact:
  "membership_pools (resolve None pools) = []
   \<and> set (membership_pools (resolve (Some labels) pools)) =
       {po_name p | p. p \<in> set pools \<and> \<not> po_deleting p
                     \<and> selector_matches (ps_node_selector (po_spec p)) labels}
   \<and> sorted (membership_pools (resolve (Some labels) pools))
   \<and> resolve (Some labels) (rev pools) = resolve (Some labels) pools"
proof (intro conjI)
  show "resolve (Some labels) (rev pools) = resolve (Some labels) pools"
    by (simp add: resolve_def sort_rev_map_filter)
qed (auto simp: membership_pools_resolve, simp add: resolve_def membership_pools_def)

lemma resolve_Member_nonempty: "resolve labels pools = Member ns \<Longrightarrow> ns \<noteq> []"
  by (auto simp: resolve_def Let_def split: option.splits if_splits)

end
