(* ===== verification/Net.thy ===== *)
theory Net
  imports Float64 Identity "HOL-Library.Monad_Syntax"
begin

text \<open>
  What the drivers use of \<^verbatim>\<open>std::net\<close>: textual IP addresses.  The parsers read a prefix of the
  text and return the rest, as \<^verbatim>\<open>core::net::parser\<close> does: IPv4 is four decimal numbers without
  leading zeros, IPv6 is up to eight groups of up to four hex digits, with at most one
  \<^verbatim>\<open>::\<close> and an optional IPv4 tail.
\<close>

datatype ipv4_addr = Ipv4 byte byte byte byte

datatype ip_addr = V4 ipv4_addr | V6 "16 word list"

type_synonym socket_addr = "ip_addr \<times> nat"

type_synonym 'a parser = "string \<Rightarrow> ('a \<times> string) option"

definition BROADCAST :: ipv4_addr where
  "BROADCAST = Ipv4 255 255 255 255"

definition is_ipv4 :: "ip_addr \<Rightarrow> bool" where
  "is_ipv4 ip = (case ip of V4 _ \<Rightarrow> True | V6 _ \<Rightarrow> False)"

section \<open>Rendering\<close>

text \<open>\<^verbatim>\<open>{:?}\<close> of a string, non-ASCII characters taken as printable, and \<^verbatim>\<open>{:08x}\<close> of a \<^verbatim>\<open>u32\<close>.\<close>

fun hex_lower :: "nat \<Rightarrow> string" where
  "hex_lower n = (if n < 16 then [hex_digit n] else hex_lower (n div 16) @ [hex_digit (n mod 16)])"

declare hex_lower.simps [simp del]

definition debug_char :: "char \<Rightarrow> string" where
  "debug_char c =
     (if c = CHR 0x22 then [CHR 0x5C, CHR 0x22]
      else if c = CHR 0x5C then [CHR 0x5C, CHR 0x5C]
      else if c = CHR 0x09 then [CHR 0x5C, CHR ''t'']
      else if c = CHR 0x0D then [CHR 0x5C, CHR ''r'']
      else if c = CHR 0x0A then [CHR 0x5C, CHR ''n'']
      else if c = CHR 0x00 then [CHR 0x5C, CHR ''0'']
      else if (of_char c :: nat) < 32 \<or> c = CHR 0x7F then
        [CHR 0x5C] @ ''u{'' @ hex_lower (of_char c) @ ''}''
      else [c])"

definition debug_str :: "string \<Rightarrow> string" where
  "debug_str s = [CHR 0x22] @ concat (map debug_char s) @ [CHR 0x22]"

definition hex8 :: "nat \<Rightarrow> string" where
  "hex8 n = map (\<lambda>i. hex_digit (n div 16 ^ i mod 16)) (rev [0..<8])"

lemma length_hex8 [simp]: "length (hex8 n) = 8"
  by (simp add: hex8_def)

text \<open>\<^verbatim>\<open>{:?}\<close> of a \<^verbatim>\<open>Duration\<close> of whole milliseconds.\<close>

definition debug_millis :: "nat \<Rightarrow> string" where
  "debug_millis ms =
     (if 1000 \<le> ms then
        (let frac = [hex_digit (ms mod 1000 div 100), hex_digit (ms mod 100 div 10), hex_digit (ms mod 10)];
             digits = rev (dropWhile (\<lambda>c. c = CHR ''0'') (rev frac))
         in show_nat (ms div 1000) @ (if digits = [] then [] else ''.'' @ digits) @ ''s'')
      else if 0 < ms then show_nat ms @ ''ms''
      else ''0ns'')"

section \<open>Parsing\<close>

text \<open>\<^verbatim>\<open>char::to_digit\<close>.\<close>

definition to_digit :: "nat \<Rightarrow> char \<Rightarrow> nat option" where
  "to_digit radix c =
     (let n = of_char c :: nat;
          v = (if 48 \<le> n \<and> n \<le> 57 then n - 48
               else if 65 \<le> n \<and> n \<le> 90 then n - 55
               else if 97 \<le> n \<and> n \<le> 122 then n - 87
               else radix)
      in if v < radix then Some v else None)"

text \<open>\<^verbatim>\<open>from_str_radix\<close> of an unsigned type with the given largest value: a leading plus sign is
  accepted.\<close>

fun digits_value :: "nat \<Rightarrow> nat \<Rightarrow> nat \<Rightarrow> string \<Rightarrow> nat option" where
  "digits_value radix most acc [] = Some acc"
| "digits_value radix most acc (c # cs) =
     (case to_digit radix c of
        None \<Rightarrow> None
      | Some d \<Rightarrow> if most < acc * radix + d then None else digits_value radix most (acc * radix + d) cs)"

definition from_str_radix :: "nat \<Rightarrow> nat \<Rightarrow> string \<Rightarrow> nat option" where
  "from_str_radix radix most s =
     (case s of
        [] \<Rightarrow> None
      | c # cs \<Rightarrow>
          if c = CHR ''+'' then (if cs = [] then None else digits_value radix most 0 cs)
          else digits_value radix most 0 (c # cs))"

definition parse_u16 :: "string \<Rightarrow> nat option" where
  "parse_u16 s = from_str_radix 10 65535 s"

definition read_given_char :: "char \<Rightarrow> unit parser" where
  "read_given_char c s = (case s of [] \<Rightarrow> None | x # xs \<Rightarrow> if x = c then Some ((), xs) else None)"

fun read_digits :: "nat \<Rightarrow> nat \<Rightarrow> nat \<Rightarrow> nat \<Rightarrow> nat \<Rightarrow> (nat \<times> nat) parser" where
  "read_digits radix most max_digits acc cnt [] = Some ((acc, cnt), [])"
| "read_digits radix most max_digits acc cnt (c # cs) =
     (case to_digit radix c of
        None \<Rightarrow> Some ((acc, cnt), c # cs)
      | Some d \<Rightarrow>
          if most < acc * radix + d \<or> max_digits < cnt + 1 then None
          else read_digits radix most max_digits (acc * radix + d) (cnt + 1) cs)"

definition read_number :: "nat \<Rightarrow> nat \<Rightarrow> nat \<Rightarrow> bool \<Rightarrow> nat parser" where
  "read_number radix most max_digits allow_zero_prefix s =
     do {
       ((v, cnt), rest) \<leftarrow> read_digits radix most max_digits 0 0 s;
       if cnt = 0 then None
       else if \<not> allow_zero_prefix \<and> hd s = CHR ''0'' \<and> 1 < cnt then None
       else Some (v, rest)
     }"

definition read_separator :: "char \<Rightarrow> nat \<Rightarrow> 'a parser \<Rightarrow> 'a parser" where
  "read_separator sep i p s =
     (if 0 < i then do { (_, rest) \<leftarrow> read_given_char sep s; p rest } else p s)"

definition read_octet :: "nat \<Rightarrow> nat parser" where
  "read_octet i = read_separator (CHR ''.'') i (read_number 10 255 3 False)"

definition read_ipv4_addr :: "ipv4_addr parser" where
  "read_ipv4_addr s =
     do {
       (a, s) \<leftarrow> read_octet 0 s;
       (b, s) \<leftarrow> read_octet 1 s;
       (c, s) \<leftarrow> read_octet 2 s;
       (d, s) \<leftarrow> read_octet 3 s;
       Some (Ipv4 (of_nat a) (of_nat b) (of_nat c) (of_nat d), s)
     }"

fun ipv4_groups :: "ipv4_addr \<Rightarrow> 16 word list" where
  "ipv4_groups (Ipv4 a b c d) = [of_nat (unat a * 256 + unat b), of_nat (unat c * 256 + unat d)]"

text \<open>The groups read so far are \<^verbatim>\<open>acc\<close>; the first argument is how many there is still room for.\<close>

fun read_groups :: "nat \<Rightarrow> 16 word list \<Rightarrow> string \<Rightarrow> 16 word list \<times> bool \<times> string" where
  "read_groups 0 acc s = (acc, False, s)"
| "read_groups (Suc room) acc s =
     (case (if 0 < room then read_separator (CHR '':'') (length acc) read_ipv4_addr s else None) of
        Some (a, rest) \<Rightarrow> (acc @ ipv4_groups a, True, rest)
      | None \<Rightarrow>
          (case read_separator (CHR '':'') (length acc) (read_number 16 65535 4 True) s of
             Some (g, rest) \<Rightarrow> read_groups room (acc @ [of_nat g]) rest
           | None \<Rightarrow> (acc, False, s)))"

definition read_ipv6_addr :: "16 word list parser" where
  "read_ipv6_addr s =
     (case read_groups 8 [] s of
        (head, head_ipv4, s) \<Rightarrow>
          if length head = 8 then Some (head, s)
          else if head_ipv4 then None
          else do {
            (_, s) \<leftarrow> read_given_char (CHR '':'') s;
            (_, s) \<leftarrow> read_given_char (CHR '':'') s;
            (case read_groups (8 - (length head + 1)) [] s of
               (tail, _, s) \<Rightarrow> Some (head @ replicate (8 - length head - length tail) 0 @ tail, s))
          })"

definition read_ip_addr :: "ip_addr parser" where
  "read_ip_addr s =
     (case read_ipv4_addr s of
        Some (a, rest) \<Rightarrow> Some (V4 a, rest)
      | None \<Rightarrow> do { (g, rest) \<leftarrow> read_ipv6_addr s; Some (V6 g, rest) })"

definition parse_all :: "'a parser \<Rightarrow> string \<Rightarrow> 'a option" where
  "parse_all p s = (case p s of Some (a, []) \<Rightarrow> Some a | _ \<Rightarrow> None)"

definition parse_ipv4 :: "string \<Rightarrow> ipv4_addr option" where
  "parse_ipv4 s = (if 15 < length s then None else parse_all read_ipv4_addr s)"

definition parse_ip :: "string \<Rightarrow> ip_addr option" where
  "parse_ip s = parse_all read_ip_addr s"

text \<open>\<^verbatim>\<open>Display\<close> of an IPv4 address.\<close>

fun show_ipv4 :: "ipv4_addr \<Rightarrow> string" where
  "show_ipv4 (Ipv4 a b c d) =
     show_nat (unat a) @ ''.'' @ show_nat (unat b) @ ''.'' @ show_nat (unat c) @ ''.'' @ show_nat (unat d)"

section \<open>What is printed is read back\<close>

lemma to_digit_decimal: "n < 10 \<Longrightarrow> to_digit 10 (char_of (48 + n)) = Some n"
  by (simp add: to_digit_def Let_def)

lemma read_digits_show:
  "n \<le> most \<Longrightarrow> length (show_nat n) \<le> max_digits \<Longrightarrow>
   read_digits 10 most max_digits 0 0 (show_nat n @ rest)
   = read_digits 10 most max_digits n (length (show_nat n)) rest"
proof (induction n arbitrary: rest rule: show_nat.induct)
  case (1 n)
  show ?case
  proof (cases "n < 10")
    case True
    then show ?thesis using 1 by (simp add: show_nat.simps [of n] to_digit_decimal del: char_of_nat)
  next
    case False
    then have eq: "show_nat n = show_nat (n div 10) @ [char_of (48 + n mod 10)]"
      by (simp add: show_nat.simps [of n])
    have le: "n div 10 \<le> most" "length (show_nat (n div 10)) \<le> max_digits"
      using 1(2,3) eq by auto
    show ?thesis
      using 1(1) [OF False le] 1(2,3) by (simp add: eq to_digit_decimal)
  qed
qed

lemma show_nat_length: "n < 1000 \<Longrightarrow> length (show_nat n) \<le> 3"
  by (subst show_nat.simps, subst show_nat.simps, subst show_nat.simps, subst show_nat.simps) auto

lemma show_nat_leading_zero:
  "1 < length (show_nat n) \<Longrightarrow> hd (show_nat n) \<noteq> CHR ''0''"
proof (induction n rule: show_nat.induct)
  case (1 n)
  show ?case
  proof (cases "n < 100")
    case True
    with 1(2) have n: "10 \<le> n" "n div 10 < 10" "n div 10 > 0"
      by (auto simp: show_nat.simps [of n] split: if_splits)
    have "char_of (48 + n div 10) \<noteq> CHR ''0''"
    proof
      assume "char_of (48 + n div 10) = CHR ''0''"
      then have "(of_char (char_of (48 + n div 10) :: char) :: nat) = of_char (CHR ''0'')" by simp
      with n show False by simp
    qed
    with n show ?thesis by (simp add: show_nat.simps [of n] show_nat.simps [of "n div 10"])
  next
    case False
    then have "\<not> n < 10" and "1 < length (show_nat (n div 10))"
      by (auto simp: show_nat.simps [of "n div 10"] Suc_lessI)
    then show ?thesis using 1(1) by (simp add: show_nat.simps [of n])
  qed
qed

lemma read_number_show:
  assumes "n \<le> 255" and "rest = [] \<or> to_digit 10 (hd rest) = None"
  shows "read_number 10 255 3 False (show_nat n @ rest) = Some (n, rest)"
proof -
  have "length (show_nat n) \<le> 3" using assms(1) by (intro show_nat_length) simp
  moreover have "read_digits 10 255 3 n (length (show_nat n)) rest = Some ((n, length (show_nat n)), rest)"
    using assms(2) by (cases rest) auto
  ultimately have "read_digits 10 255 3 0 0 (show_nat n @ rest) = Some ((n, length (show_nat n)), rest)"
    using read_digits_show [OF assms(1)] by simp
  then show ?thesis
    using show_nat_leading_zero [of n] by (auto simp: read_number_def)
qed

lemma unat_byte_less [simp]: "unat (b :: byte) < 256"
  using unsigned_less [of b, where ?'a = nat] by simp

lemma unat_byte_le [simp]: "unat (b :: byte) \<le> 255"
  using unat_byte_less [of b] by linarith

lemma read_ipv4_show: "read_ipv4_addr (show_ipv4 a) = Some (a, [])"
proof (cases a)
  case (Ipv4 w x y z)
  have dot: "to_digit 10 (CHR ''.'') = None" by (simp add: to_digit_def)
  have last_one: "read_number 10 255 3 False (show_nat (unat z)) = Some (unat z, [])"
    using read_number_show [of "unat z" "[]"] by simp
  show ?thesis
    by (simp add: Ipv4 read_ipv4_addr_def read_octet_def read_separator_def read_given_char_def
        read_number_show dot last_one)
qed

lemma parse_ip_show: "parse_ip (show_ipv4 a) = Some (V4 a)"
  by (simp add: parse_ip_def parse_all_def read_ip_addr_def read_ipv4_show)

lemma length_show_ipv4: "length (show_ipv4 a) \<le> 15"
proof (cases a)
  case (Ipv4 w x y z)
  have "length (show_nat (unat (b :: byte))) \<le> 3" for b
    using unat_byte_le [of b] by (intro show_nat_length) linarith
  from this [of w] this [of x] this [of y] this [of z] show ?thesis by (simp add: Ipv4)
qed

lemma parse_ipv4_show: "parse_ipv4 (show_ipv4 a) = Some a"
  using length_show_ipv4 [of a] by (simp add: parse_ipv4_def parse_all_def read_ipv4_show)

text \<open>Concrete addresses, as the library documents them.\<close>

lemma read_groups_numeral:
  "read_groups (numeral k) acc s =
     (case (if 0 < pred_numeral k then read_separator (CHR '':'') (length acc) read_ipv4_addr s else None) of
        Some (a, rest) \<Rightarrow> (acc @ ipv4_groups a, True, rest)
      | None \<Rightarrow>
          (case read_separator (CHR '':'') (length acc) (read_number 16 65535 4 True) s of
             Some (g, rest) \<Rightarrow> read_groups (pred_numeral k) (acc @ [of_nat g]) rest
           | None \<Rightarrow> (acc, False, s)))"
  by (simp add: numeral_eq_Suc)

lemmas parsing = parse_ip_def parse_all_def read_ip_addr_def read_ipv4_addr_def read_ipv6_addr_def
  read_octet_def read_separator_def read_given_char_def read_number_def to_digit_def read_groups_numeral

lemma parse_ip_example_v4: "parse_ip ''192.168.10.7'' = Some (V4 (Ipv4 192 168 10 7))"
  by (simp add: parsing)

lemma parse_ip_example_v6: "parse_ip ''fd00::7'' = Some (V6 [0xfd00, 0, 0, 0, 0, 0, 0, 7])"
  by (simp add: parsing, simp add: numeral_eq_Suc)

lemma parse_ip_example_bad: "parse_ip ''01.2.3.4'' = None" "parse_ip ''1.2.3.256'' = None"
  by (simp_all add: parsing)

end
