(* ===== verification/Chain.thy ===== *)
theory Chain
  imports Identity Crd KubeObjects Net
begin

text \<open>
  \<^verbatim>\<open>drivers/mod.rs\<close> and \<^verbatim>\<open>drivers/chain.rs\<close>: the driver catalog, building the interfaces of a
  machine, and the ordered fallback across them.  A driver is what its operations answer during
  one reconciliation: after how many milliseconds, and the value or the rendered error.  The
  answers come from the drivers, that is, from the machines' management interfaces.
\<close>

section \<open>Drivers\<close>

record 'a answer =
  an_millis :: nat
  an_result :: "string + 'a"

record driver =
  dv_supports :: "interface_action \<Rightarrow> bool"
  dv_power_state :: "power_state answer"
  dv_power_on :: "unit answer"
  dv_power_off :: "bool \<Rightarrow> unit answer"
  dv_system_id :: "system_id option answer"

definition error_config :: "string \<Rightarrow> string" where
  "error_config e = ''invalid power interface configuration: '' @ e"

definition error_credentials :: "string \<Rightarrow> string" where
  "error_credentials e = ''credentials: '' @ e"

definition error_interface :: "string \<Rightarrow> string" where
  "error_interface e = ''management interface error: '' @ e"

definition error_io :: "string \<Rightarrow> string" where
  "error_io e = ''I/O error: '' @ e"

definition error_http :: "string \<Rightarrow> string" where
  "error_http e = ''HTTP error: '' @ e"

definition error_timeout :: "nat \<Rightarrow> string" where
  "error_timeout seconds = ''operation timed out after '' @ (if seconds = 0 then ''0ns'' else show_nat seconds @ ''s'')"

text \<open>\<^verbatim>\<open>tokio::time::timeout\<close> around one operation.\<close>

definition bounded :: "nat \<Rightarrow> 'a answer \<Rightarrow> string + 'a" where
  "bounded timeout a = (if an_millis a \<le> 1000 * timeout then an_result a else Inl (error_timeout timeout))"

section \<open>The catalog\<close>

text \<open>A catalog entry; what a driver's own module does with its configuration is a parameter here
  (see the driver theories).\<close>

record credentials =
  cd_username :: string
  cd_password :: string
  cd_extra :: "string btmap"

record driver_factory =
  fa_name :: string
  fa_requires_credentials :: bool
  fa_validate :: "json \<Rightarrow> string + unit"
  fa_build :: "json \<Rightarrow> credentials option \<Rightarrow> string \<Rightarrow> string + driver"

definition CATALOG_NAMES :: "string list" where
  "CATALOG_NAMES = [''ipmi'', ''redfish'', ''pikvm'', ''jetkvm'', ''nanokvm'', ''wakeOnLan'', ''ping'']"

definition lookup :: "driver_factory list \<Rightarrow> string \<Rightarrow> string + driver_factory" where
  "lookup catalog name =
     (case find (\<lambda>f. fa_name f = name) catalog of
        Some f \<Rightarrow> Inr f
      | None \<Rightarrow> Inl (error_config (''unknown driver '' @ debug_str name @ '' (available: ''
                 @ join '', '' (map fa_name catalog) @ '')'')))"

text \<open>A Secret: its \<^verbatim>\<open>data\<close> entries that are UTF-8, and its \<^verbatim>\<open>stringData\<close>.\<close>

record secret =
  sc_data :: "string btmap"
  sc_string_data :: "string btmap"

record driver_context =
  cx_namespace :: string
  cx_secrets :: "string \<Rightarrow> string + secret option"
  cx_catalog :: "driver_factory list"
  cx_op_timeout :: nat

definition take_key :: "driver_context \<Rightarrow> credentials_ref \<Rightarrow> string \<Rightarrow> string btmap \<Rightarrow> string + string \<times> string btmap" where
  "take_key ctx r key data =
     (case bt_get data key of
        Some v \<Rightarrow> Inr (v, bt_remove key data)
      | None \<Rightarrow> Inl (error_credentials (''secret '' @ cx_namespace ctx @ ''/'' @ cr_name r
                  @ '' has no key '' @ debug_str key)))"

definition load_credentials :: "driver_context \<Rightarrow> credentials_ref \<Rightarrow> string + credentials" where
  "load_credentials ctx r =
     (case cx_secrets ctx (cr_name r) of
        Inl e \<Rightarrow> Inl e
      | Inr None \<Rightarrow> Inl (error_credentials (''secret '' @ cx_namespace ctx @ ''/'' @ cr_name r @ '' not found''))
      | Inr (Some secret) \<Rightarrow>
          (let data = foldl (\<lambda>m (k, v). bt_insert k v m) (sc_data secret) (sc_string_data secret) in
           case take_key ctx r (cr_username_key r) data of
             Inl e \<Rightarrow> Inl e
           | Inr (username, data1) \<Rightarrow>
               (case take_key ctx r (cr_password_key r) data1 of
                  Inl e \<Rightarrow> Inl e
                | Inr (password, data2) \<Rightarrow>
                    Inr \<lparr> cd_username = username, cd_password = password, cd_extra = data2 \<rparr>)))"

definition build_driver :: "driver_context \<Rightarrow> string \<Rightarrow> power_interface \<Rightarrow> string + driver" where
  "build_driver ctx node_name i =
     (case lookup (cx_catalog ctx) (pi_driver i) of
        Inl e \<Rightarrow> Inl e
      | Inr factory \<Rightarrow>
          (case fa_validate factory (pi_config i) of
             Inl e \<Rightarrow> Inl e
           | Inr _ \<Rightarrow>
               (case pi_credentials_secret_ref i of
                  Some r \<Rightarrow>
                    (case load_credentials ctx r of
                       Inl e \<Rightarrow> Inl e
                     | Inr c \<Rightarrow> fa_build factory (pi_config i) (Some c) node_name)
                | None \<Rightarrow>
                    if fa_requires_credentials factory then
                      Inl (error_config (''driver '' @ fa_name factory @ '' requires credentialsSecretRef''))
                    else fa_build factory (pi_config i) None node_name)))"

text \<open>\<^verbatim>\<open>base_url\<close>: an HTTP(S) endpoint without trailing slashes.\<close>

definition base_url :: "string \<Rightarrow> string + string" where
  "base_url endpoint =
     (let base = rev (dropWhile (\<lambda>c. c = CHR ''/'') (rev endpoint)) in
      if \<not> starts_with base ''http://'' \<and> \<not> starts_with base ''https://''
      then Inl (error_config (''endpoint must be an http(s) URL: '' @ base)) else Inr base)"

section \<open>The chain\<close>

record link =
  lk_label :: string
  lk_interface :: power_interface
  lk_driver :: driver
  lk_timeout :: nat

record power_chain =
  ch_links :: "link list"
  ch_unavailable :: "string list"

record 'a outcome =
  oc_value :: 'a
  oc_via :: string
  oc_failures :: "string list"

definition make_link :: "driver_context \<Rightarrow> power_interface \<Rightarrow> driver \<Rightarrow> link" where
  "make_link ctx i d = \<lparr> lk_label = interface_label i, lk_interface = i, lk_driver = d,
     lk_timeout = unwrap_or (pi_timeout_seconds i) (cx_op_timeout ctx) \<rparr>"

fun build_links :: "driver_context \<Rightarrow> string \<Rightarrow> power_interface list \<Rightarrow> power_chain \<Rightarrow> power_chain" where
  "build_links ctx node_name [] chain = chain"
| "build_links ctx node_name (i # rest) chain =
     build_links ctx node_name rest
       (case build_driver ctx node_name i of
          Inr d \<Rightarrow> chain\<lparr> ch_links := ch_links chain @ [make_link ctx i d] \<rparr>
        | Inl e \<Rightarrow> chain\<lparr> ch_unavailable := ch_unavailable chain @ [interface_label i @ '': '' @ e] \<rparr>)"

definition build_chain :: "driver_context \<Rightarrow> npmc_spec \<Rightarrow> string + power_chain" where
  "build_chain ctx spec =
     (if nm_power_interfaces spec = [] then
        Inl (error_config ''spec.powerInterfaces must not be empty'')
      else
        (let chain = build_links ctx (nm_node_name spec) (nm_power_interfaces spec)
                       \<lparr> ch_links = [], ch_unavailable = [] \<rparr> in
         if ch_links chain = [] then Inl (error_config (join ''; '' (ch_unavailable chain))) else Inr chain))"

definition check_identity :: "power_chain \<Rightarrow> string option \<Rightarrow> (string \<times> identity_check \<times> bool) list" where
  "check_identity chain node_uuid =
     map (\<lambda>l. case bounded (lk_timeout l) (dv_system_id (lk_driver l)) of
            Inr i \<Rightarrow> (lk_label l, identity_check_of i node_uuid, True)
          | Inl _ \<Rightarrow> (lk_label l, Unverifiable, False))
       (ch_links chain)"

definition mismatches :: "(string \<times> identity_check \<times> bool) list \<Rightarrow> (string \<times> string) list" where
  "mismatches results = filter_map
     (\<lambda>(label, r, _). case r of
        Mismatch reported expected \<Rightarrow>
          Some (label, label @ '': controls a different machine (reports '' @ reported @ '', node is ''
                @ expected @ ''); disabled'')
      | _ \<Rightarrow> None) results"

definition disable_link :: "power_chain \<Rightarrow> string \<times> string \<Rightarrow> power_chain" where
  "disable_link chain bad =
     \<lparr> ch_links = filter (\<lambda>l. lk_label l \<noteq> fst bad) (ch_links chain),
       ch_unavailable = ch_unavailable chain @ [snd bad] \<rparr>"

definition disable_mismatched :: "power_chain \<Rightarrow> (string \<times> identity_check \<times> bool) list \<Rightarrow> power_chain" where
  "disable_mismatched chain results = foldl disable_link chain (mismatches results)"

section \<open>One operation\<close>

definition usable :: "interface_action \<Rightarrow> link \<Rightarrow> bool" where
  "usable action l = (handles (lk_interface l) action \<and> dv_supports (lk_driver l) action)"

fun show_action :: "interface_action \<Rightarrow> string" where
  "show_action IA_Status = ''Status''"
| "show_action IA_PowerOn = ''PowerOn''"
| "show_action IA_PowerOff = ''PowerOff''"

text \<open>The loop over the usable links.  The second component is what the loop does outside: the
  labels of the interfaces the operation was sent to, in order.\<close>

fun attempt_links ::
    "(driver \<Rightarrow> 'a answer) \<Rightarrow> link list \<Rightarrow> string list \<Rightarrow> (string list + 'a outcome) \<times> string list" where
  "attempt_links op [] failures = (Inl failures, [])"
| "attempt_links op (l # ls) failures =
     (case bounded (lk_timeout l) (op (lk_driver l)) of
        Inr v \<Rightarrow> (Inr \<lparr> oc_value = v, oc_via = lk_label l, oc_failures = failures \<rparr>, [lk_label l])
      | Inl e \<Rightarrow>
          (case attempt_links op ls (failures @ [lk_label l @ '': '' @ e]) of
             (result, tried) \<Rightarrow> (result, lk_label l # tried)))"

definition attempt ::
    "power_chain \<Rightarrow> interface_action \<Rightarrow> (driver \<Rightarrow> 'a answer) \<Rightarrow> (string + 'a outcome) \<times> string list" where
  "attempt chain action op =
     (let links = filter (usable action) (ch_links chain) in
      case attempt_links op links (ch_unavailable chain) of
        (Inr oc, tried) \<Rightarrow> (Inr oc, tried)
      | (Inl failures, tried) \<Rightarrow>
          (let failures = (if links = [] then failures @ [''no power interface is enabled for '' @ show_action action]
                           else failures) in
           (Inl (error_interface (''all power interfaces failed ('' @ join ''; '' failures @ '')'')), tried)))"

definition known_state :: "power_state answer \<Rightarrow> power_state answer" where
  "known_state a = a\<lparr> an_result := (case an_result a of
      Inr PS_Unknown \<Rightarrow> Inl (error_interface ''power state unknown'')
    | r \<Rightarrow> r) \<rparr>"

definition chain_power_state :: "power_chain \<Rightarrow> (string + power_state outcome) \<times> string list" where
  "chain_power_state chain = attempt chain IA_Status (\<lambda>d. known_state (dv_power_state d))"

definition chain_power_on :: "power_chain \<Rightarrow> (string + unit outcome) \<times> string list" where
  "chain_power_on chain = attempt chain IA_PowerOn dv_power_on"

definition chain_power_off :: "power_chain \<Rightarrow> bool \<Rightarrow> (string + unit outcome) \<times> string list" where
  "chain_power_off chain force = attempt chain IA_PowerOff (\<lambda>d. dv_power_off d force)"

section \<open>What the chain promises\<close>

lemma attempt_links_tried:
  "snd (attempt_links op ls failures) = map lk_label (take (length (snd (attempt_links op ls failures))) ls)"
proof (induction ls arbitrary: failures)
  case (Cons l ls)
  show ?case
  proof (cases "bounded (lk_timeout l) (op (lk_driver l))")
    case (Inl e)
    let ?r = "attempt_links op ls (failures @ [lk_label l @ '': '' @ e])"
    have "snd (attempt_links op (l # ls) failures) = lk_label l # snd ?r"
      using Inl by (simp split: prod.split)
    then show ?thesis using Cons [of "failures @ [lk_label l @ '': '' @ e]"] by simp
  qed simp
qed simp

lemma attempt_links_Inr:
  "attempt_links op ls failures = (Inr oc, tried) \<Longrightarrow>
     \<exists>pre l post v. ls = pre @ l # post \<and> bounded (lk_timeout l) (op (lk_driver l)) = Inr v
        \<and> oc_value oc = v \<and> oc_via oc = lk_label l \<and> tried = map lk_label (pre @ [l])
        \<and> (\<forall>l' \<in> set pre. \<exists>e. bounded (lk_timeout l') (op (lk_driver l')) = Inl e)
        \<and> length (oc_failures oc) = length failures + length pre"
proof (induction ls arbitrary: failures oc tried)
  case (Cons l ls)
  show ?case
  proof (cases "bounded (lk_timeout l) (op (lk_driver l))")
    case (Inr v)
    with Cons.prems show ?thesis by (intro exI [of _ "[]"] exI [of _ l] exI [of _ ls] exI [of _ v]) auto
  next
    case (Inl e)
    with Cons.prems obtain tried' where
      r: "attempt_links op ls (failures @ [lk_label l @ '': '' @ e]) = (Inr oc, tried')" "tried = lk_label l # tried'"
      by (auto split: prod.splits)
    from Cons.IH [OF r(1)] obtain pre l2 post v where
      "ls = pre @ l2 # post" "bounded (lk_timeout l2) (op (lk_driver l2)) = Inr v" "oc_value oc = v"
      "oc_via oc = lk_label l2" "tried' = map lk_label (pre @ [l2])"
      "\<forall>l' \<in> set pre. \<exists>e. bounded (lk_timeout l') (op (lk_driver l')) = Inl e"
      "length (oc_failures oc) = length (failures @ [lk_label l @ '': '' @ e]) + length pre" by blast
    with Inl r(2) show ?thesis
      by (intro exI [of _ "l # pre"] exI [of _ l2] exI [of _ post] exI [of _ v]) auto
  qed
qed simp

lemma attempt_links_Inl:
  "attempt_links op ls failures = (Inl fs, tried) \<Longrightarrow>
     tried = map lk_label ls \<and> (\<forall>l \<in> set ls. \<exists>e. bounded (lk_timeout l) (op (lk_driver l)) = Inl e)"
  by (induction ls arbitrary: failures fs tried) (auto split: sum.splits prod.splits)

text \<open>An operation goes to the usable interfaces in priority order and stops at the first
  that succeeds in time, whose answer and label it reports with one failure per interface tried
  before; it fails only when every usable interface failed.\<close>

theorem attempt_first_success:
  "(case attempt chain action op of
      (Inr oc, tried) \<Rightarrow>
        \<exists>pre l post. filter (usable action) (ch_links chain) = pre @ l # post
          \<and> bounded (lk_timeout l) (op (lk_driver l)) = Inr (oc_value oc) \<and> oc_via oc = lk_label l
          \<and> tried = map lk_label (pre @ [l])
          \<and> list_all (\<lambda>l'. isl (bounded (lk_timeout l') (op (lk_driver l')))) pre
          \<and> length (oc_failures oc) = length (ch_unavailable chain) + length pre
    | (Inl e, tried) \<Rightarrow>
        tried = map lk_label (filter (usable action) (ch_links chain))
        \<and> list_all (\<lambda>l. isl (bounded (lk_timeout l) (op (lk_driver l))))
            (filter (usable action) (ch_links chain)))"
proof -
  let ?links = "filter (usable action) (ch_links chain)"
  show ?thesis
  proof (cases "attempt_links op ?links (ch_unavailable chain)")
    case (Pair result tried)
    show ?thesis
    proof (cases result)
      case (Inl failures)
      with attempt_links_Inl [of op ?links "ch_unavailable chain" failures tried] Pair
      show ?thesis by (auto simp: attempt_def Let_def list_all_iff)
    next
      case (Inr oc)
      with attempt_links_Inr [of op ?links "ch_unavailable chain" oc tried] Pair
      obtain pre l post v where p: "?links = pre @ l # post"
          "bounded (lk_timeout l) (op (lk_driver l)) = Inr v" "oc_value oc = v"
          "oc_via oc = lk_label l" "tried = map lk_label (pre @ [l])"
          "\<forall>l' \<in> set pre. \<exists>e. bounded (lk_timeout l') (op (lk_driver l')) = Inl e"
          "length (oc_failures oc) = length (ch_unavailable chain) + length pre" by auto
      have a: "attempt chain action op = (Inr oc, tried)" using Pair Inr by (simp add: attempt_def Let_def)
      have "list_all (\<lambda>l'. isl (bounded (lk_timeout l') (op (lk_driver l')))) pre"
        using p(6) by (auto simp: list_all_iff)
      with p show ?thesis unfolding a by auto
    qed
  qed
qed

lemma tried_usable:
  "set (snd (attempt chain action op)) \<subseteq> lk_label ` {l \<in> set (ch_links chain). usable action l}"
proof -
  let ?links = "filter (usable action) (ch_links chain)"
  have "snd (attempt chain action op) = snd (attempt_links op ?links (ch_unavailable chain))"
    by (auto simp: attempt_def Let_def split: prod.split sum.split)
  moreover have "set (map lk_label (take n ?links)) \<subseteq> lk_label ` set ?links" for n
    by (auto dest: in_set_takeD)
  ultimately show ?thesis
    using attempt_links_tried [of op ?links "ch_unavailable chain"] by (metis set_filter)
qed

lemma disable_links:
  "ch_links (foldl disable_link chain bad) = filter (\<lambda>l. lk_label l \<notin> fst ` set bad) (ch_links chain)"
  by (induction bad arbitrary: chain) (auto simp: disable_link_def intro: filter_cong)

text \<open>C36: An interface whose identity check found another machine is never used again: after
  disabling, no operation of any kind is sent to an interface of that label, whatever the
  drivers answer.\<close>

theorem mismatched_never_used:
  assumes "(label, Mismatch reported expected, cacheable) \<in> set results"
  shows "label \<notin> set (snd (attempt (disable_mismatched chain results) action op))"
proof -
  have "label \<in> fst ` set (mismatches results)"
    using assms by (force simp: mismatches_def)
  then have "label \<notin> lk_label ` set (ch_links (disable_mismatched chain results))"
    unfolding disable_mismatched_def disable_links set_filter by blast
  then show ?thesis using tried_usable [of "disable_mismatched chain results" action op] by blast
qed

definition sample_driver :: "string + power_state \<Rightarrow> system_id option \<Rightarrow> driver" where
  "sample_driver st i = \<lparr> dv_supports = (\<lambda>_. True),
     dv_power_state = \<lparr> an_millis = 5, an_result = st \<rparr>,
     dv_power_on = \<lparr> an_millis = 5, an_result = Inr () \<rparr>,
     dv_power_off = (\<lambda>_. \<lparr> an_millis = 5, an_result = Inr () \<rparr>),
     dv_system_id = \<lparr> an_millis = 5, an_result = Inr i \<rparr> \<rparr>"

definition sample_interface :: "string \<Rightarrow> power_interface" where
  "sample_interface d = \<lparr> pi_name = None, pi_driver = d, pi_actions = None, pi_timeout_seconds = None,
     pi_credentials_secret_ref = None, pi_config = JObj [] \<rparr>"

definition sample_link :: "string \<Rightarrow> driver \<Rightarrow> link" where
  "sample_link d drv = \<lparr> lk_label = d, lk_interface = sample_interface d, lk_driver = drv, lk_timeout = 10 \<rparr>"

definition sample_chain :: power_chain where
  "sample_chain = \<lparr> ch_links = [sample_link ''ipmi'' (sample_driver (Inr PS_On) (Some (Uuid (replicate 32 CHR ''a'')))),
                                sample_link ''wakeOnLan'' (sample_driver (Inr PS_Off) None)],
                    ch_unavailable = [] \<rparr>"

lemma mismatched_never_used_witness:
  "snd (chain_power_on (disable_mismatched sample_chain
      (check_identity sample_chain (Some (replicate 32 CHR ''b''))))) = [''wakeOnLan'']
   \<and> ''ipmi'' \<notin> set (snd (chain_power_on (disable_mismatched sample_chain
      (check_identity sample_chain (Some (replicate 32 CHR ''b''))))))"
proof (rule conjI)
  show "snd (chain_power_on (disable_mismatched sample_chain
      (check_identity sample_chain (Some (replicate 32 CHR ''b''))))) = [''wakeOnLan'']"
    by code_simp
  have "(''ipmi'', Mismatch (replicate 32 CHR ''a'') (replicate 32 CHR ''b''), True)
      \<in> set (check_identity sample_chain (Some (replicate 32 CHR ''b'')))" by code_simp
  then show "''ipmi'' \<notin> set (snd (chain_power_on (disable_mismatched sample_chain
      (check_identity sample_chain (Some (replicate 32 CHR ''b''))))))"
    unfolding chain_power_on_def by (rule mismatched_never_used)
qed

text \<open>Building: one link or one complaint per interface, in order.\<close>

lemma build_links_count:
  "length (ch_links (build_links ctx n ifs chain)) + length (ch_unavailable (build_links ctx n ifs chain))
     = length (ch_links chain) + length (ch_unavailable chain) + length ifs"
  by (induction ctx n ifs chain rule: build_links.induct) (auto split: sum.split)

lemma build_links_sound:
  "l \<in> set (ch_links (build_links ctx n ifs chain)) \<Longrightarrow> l \<in> set (ch_links chain)
     \<or> (\<exists>i \<in> set ifs. lk_interface l = i \<and> build_driver ctx n i = Inr (lk_driver l)
           \<and> lk_label l = interface_label i)"
proof (induction ctx n ifs chain rule: build_links.induct)
  case (2 ctx n i ifs chain)
  then show ?case by (cases "build_driver ctx n i") (auto simp: make_link_def)
qed simp

end
