(* ===== verification/Inband.thy ===== *)
theory Inband
  imports Chain Pods
begin

text \<open>
  \<^verbatim>\<open>drivers/inband.rs\<close>: commands run on the host by a pod scheduled onto its node, with the
  guards of the pod's script, and the probe that finds out whether the host can sleep in S3.
  What the API server answers is the record \<^verbatim>\<open>cluster\<close>; the calls made are returned in order.
\<close>

datatype host_command = HC_PowerOff | HC_Suspend | HC_SuspendS3

fun host_shell :: "host_command \<Rightarrow> string" where
  "host_shell HC_PowerOff = ''systemctl poweroff || poweroff''"
| "host_shell HC_Suspend = ''systemctl suspend || echo mem > /sys/power/state''"
| "host_shell HC_SuspendS3 = ''echo deep > /sys/power/mem_sleep && (systemctl suspend || echo mem > /sys/power/state)''"

definition SUSPEND_DEADLINE_SECS :: int where
  "SUSPEND_DEADLINE_SECS = 120"

text \<open>The name of the host command pod: dots become dashes, at most 63 characters, no dash at the
  end.\<close>

definition node_pod_name :: "string \<Rightarrow> string \<Rightarrow> string" where
  "node_pod_name prefix node_name =
     rev (dropWhile (\<lambda>c. c = CHR ''-'')
       (rev (take 63 (prefix @ map (\<lambda>c. if c = CHR ''.'' then CHR ''-'' else c) node_name))))"

definition pod_name :: "string \<Rightarrow> string" where
  "pod_name node_name = node_pod_name ''kha-shutdown-'' node_name"

definition probe_pod_name :: "string \<Rightarrow> string" where
  "probe_pod_name node_name = node_pod_name ''kha-probe-'' node_name"

text \<open>A host command pod: its name, the node it is bound to and the environment of its script.\<close>

record host_pod =
  hp_name :: string
  hp_node :: string
  hp_expected_boot_id :: string
  hp_not_after :: string
  hp_action :: string
  hp_command :: string

datatype api_call =
    DeletePod string
  | CreateHostPod host_pod
  | CreateProbePod string string

text \<open>A probe pod as the API server reports it: the exit code and termination message of each of
  its containers that terminated, its phase and its message.\<close>

record probe_pod =
  pp_terminated :: "(int \<times> string option) option list"
  pp_phase :: "string option"
  pp_message :: "string option"

record cluster =
  cl_node :: "string + knode option"
  cl_delete :: "string + unit"
  cl_create :: "string + unit"
  cl_probe_pod :: "string + probe_pod option"
  cl_unix_seconds :: int

section \<open>The script\<close>

text \<open>Whether the script in the pod runs the host command, on a host with the given boot id at the
  given time: it refuses after a reboot and after its deadline.\<close>

definition script_acts :: "host_pod \<Rightarrow> string \<Rightarrow> int \<Rightarrow> bool" where
  "script_acts pod current now =
     (if hp_expected_boot_id pod \<noteq> '''' \<and> current \<noteq> hp_expected_boot_id pod then False
      else if hp_not_after pod \<noteq> '''' \<and> is_some_and (parse_i64 (hp_not_after pod)) (\<lambda>t. t < now) then False
      else True)"

section \<open>Operations\<close>

definition cancel :: "cluster \<Rightarrow> string \<Rightarrow> (string + unit) \<times> api_call list" where
  "cancel cl node_name = (cl_delete cl, [DeletePod (pod_name node_name)])"

definition host_pod_for :: "cluster \<Rightarrow> string \<Rightarrow> knode \<Rightarrow> host_command \<Rightarrow> host_pod" where
  "host_pod_for cl node_name node cmd =
     (let (action, not_after) = (case cmd of
            HC_PowerOff \<Rightarrow> (''poweroff'', '''')
          | _ \<Rightarrow> (''suspend'', show_int (cl_unix_seconds cl + SUSPEND_DEADLINE_SECS)))
      in \<lparr> hp_name = pod_name node_name, hp_node = node_name,
           hp_expected_boot_id = unwrap_or (no_boot_id node) '''', hp_not_after = not_after,
           hp_action = action, hp_command = host_shell cmd \<rparr>)"

definition run :: "cluster \<Rightarrow> string \<Rightarrow> host_command \<Rightarrow> (string + unit) \<times> api_call list" where
  "run cl node_name cmd =
     (case cl_node cl of
        Inl e \<Rightarrow> (Inl e, [])
      | Inr None \<Rightarrow> (Inl (error_interface (''node '' @ node_name @ '' not found'')), [])
      | Inr (Some node) \<Rightarrow>
          (case cancel cl node_name of
             (Inl e, calls) \<Rightarrow> (Inl e, calls)
           | (Inr _, calls) \<Rightarrow> (cl_create cl, calls @ [CreateHostPod (host_pod_for cl node_name node cmd)])))"

datatype probe = Probe_Pending | Probe_Done string string | Probe_Failed string

text \<open>\<^verbatim>\<open>split_whitespace\<close> and \<^verbatim>\<open>trim_matches(['[', ']'])\<close>.\<close>

fun words_acc :: "string \<Rightarrow> string \<Rightarrow> string list" where
  "words_acc acc [] = (if acc = [] then [] else [acc])"
| "words_acc acc (c # cs) =
     (if is_ascii_space c then (if acc = [] then words_acc [] cs else acc # words_acc [] cs)
      else words_acc (acc @ [c]) cs)"

definition split_whitespace :: "string \<Rightarrow> string list" where
  "split_whitespace s = words_acc [] s"

definition trim_brackets :: "string \<Rightarrow> string" where
  "trim_brackets s = (let b = (\<lambda>c. c = CHR ''['' \<or> c = CHR '']'') in
     rev (dropWhile b (rev (dropWhile b s))))"

definition offers_s3 :: "string \<Rightarrow> bool" where
  "offers_s3 mem_sleep = list_ex (\<lambda>m. trim_brackets m = ''deep'') (split_whitespace mem_sleep)"

text \<open>\<^verbatim>\<open>str::lines\<close>: split at newlines, without an empty last line, a carriage return before the
  newline dropped.\<close>

definition drop_cr :: "string \<Rightarrow> string" where
  "drop_cr l = (if l \<noteq> [] \<and> last l = CHR 0x0D then butlast l else l)"

definition lines_of :: "string \<Rightarrow> string list" where
  "lines_of s = (let ls = split_char (CHR 0x0A) s in
     map drop_cr (if last ls = [] then butlast ls else ls))"

definition parse_probe :: "string \<Rightarrow> (string \<times> string) option" where
  "parse_probe output =
     (case lines_of output of
        [] \<Rightarrow> None
      | l # ls \<Rightarrow>
          (let boot_id = trim l;
               mem_sleep = trim (case ls of [] \<Rightarrow> '''' | m # _ \<Rightarrow> m)
           in if boot_id \<noteq> '''' then Some (boot_id, mem_sleep) else None))"

definition probe_result :: "probe_pod \<Rightarrow> probe" where
  "probe_result pod =
     (case filter_map (\<lambda>t. t) (pp_terminated pod) of
        (code, message) # _ \<Rightarrow>
          if code = 0 then
            (case parse_probe (unwrap_or message '''') of
               Some (boot_id, mem_sleep) \<Rightarrow> Probe_Done boot_id mem_sleep
             | None \<Rightarrow> Probe_Failed ''sleep probe reported nothing'')
          else Probe_Failed (''sleep probe exited with '' @ show_int code)
      | [] \<Rightarrow>
          if pp_phase pod = Some ''Failed'' then
            Probe_Failed (unwrap_or (pp_message pod) ''sleep probe pod failed'')
          else Probe_Pending)"

definition probe_sleep :: "cluster \<Rightarrow> string \<Rightarrow> (string + probe) \<times> api_call list" where
  "probe_sleep cl node_name =
     (let name = probe_pod_name node_name in
      case cl_probe_pod cl of
        Inl e \<Rightarrow> (Inl e, [])
      | Inr None \<Rightarrow>
          (case cl_create cl of
             Inl e \<Rightarrow> (Inl e, [CreateProbePod name node_name])
           | Inr _ \<Rightarrow> (Inr Probe_Pending, [CreateProbePod name node_name]))
      | Inr (Some pod) \<Rightarrow>
          (case probe_result pod of
             Probe_Pending \<Rightarrow> (Inr Probe_Pending, [])
           | result \<Rightarrow>
               (case cl_delete cl of
                  Inl e \<Rightarrow> (Inl e, [DeletePod name])
                | Inr _ \<Rightarrow> (Inr result, [DeletePod name]))))"

section \<open>What the pod may do\<close>

lemma take_sign_digits: "list_all is_digit ds \<Longrightarrow> ds \<noteq> [] \<Longrightarrow> take_sign ds = (False, ds)"
proof -
  assume a: "list_all is_digit ds" "ds \<noteq> []"
  then obtain c cs where ds: "ds = c # cs" "is_digit c" by (cases ds) auto
  then have "c \<noteq> CHR ''-''" "c \<noteq> CHR ''+''" by (auto simp: is_digit_def)
  then show ?thesis by (simp add: ds(1))
qed

lemma parse_i64_show_int:
  assumes "in_i64 i" shows "parse_i64 (show_int i) = Some i"
proof (cases "i < 0")
  case True
  then have "take_sign (show_int i) = (True, show_nat (nat (- i)))" by (simp add: show_int_def)
  then show ?thesis using True assms show_nat_digits [of "nat (- i)"] by (simp add: parse_i64_def)
next
  case False
  then have "take_sign (show_int i) = (False, show_nat (nat i))"
    using take_sign_digits [OF show_nat_digits show_nat_nonempty] by (simp add: show_int_def)
  then show ?thesis using False assms show_nat_digits [of "nat i"] by (simp add: parse_i64_def)
qed

text \<open>C38: A host command pod never acts on a host that has rebooted since it was requested, and a
  suspend pod never acts more than 120 seconds after it was requested, however late it starts;
  within that time, on the boot it was requested for, it does act.\<close>

theorem stale_host_pod_refuses:
  assumes pod: "pod = host_pod_for cl node_name node cmd" and id: "no_boot_id node = Some boot"
    and boot: "boot \<noteq> ''''" and time: "in_i64 (cl_unix_seconds cl + SUSPEND_DEADLINE_SECS)"
  shows "(script_acts pod current now \<longrightarrow> current = boot)
    \<and> (cmd \<noteq> HC_PowerOff \<and> script_acts pod current now \<longrightarrow> now \<le> cl_unix_seconds cl + 120)
    \<and> (current = boot \<and> now \<le> cl_unix_seconds cl + 120 \<longrightarrow> script_acts pod current now)"
proof -
  have p: "parse_i64 (show_int (cl_unix_seconds cl + 120)) = Some (cl_unix_seconds cl + 120)"
    using time unfolding SUSPEND_DEADLINE_SECS_def by (rule parse_i64_show_int)
  have ne: "show_int k \<noteq> ''''" for k by (simp add: show_int_def)
  show ?thesis
    by (cases cmd) (simp_all add: pod host_pod_for_def script_acts_def id boot p ne SUSPEND_DEADLINE_SECS_def)
qed

definition sample_cluster :: cluster where
  "sample_cluster = \<lparr> cl_node = Inr (Some (empty_node\<lparr> no_boot_id := Some ''boot-1'' \<rparr>)),
     cl_delete = Inr (), cl_create = Inr (), cl_probe_pod = Inr None, cl_unix_seconds = 1000 \<rparr>"

lemma stale_host_pod_refuses_witness:
  "\<not> script_acts (host_pod_for sample_cluster ''n'' (empty_node\<lparr> no_boot_id := Some ''boot-1'' \<rparr>) HC_Suspend)
      ''boot-1'' 1121"
  using stale_host_pod_refuses [OF refl, where node = "empty_node\<lparr> no_boot_id := Some ''boot-1'' \<rparr>"
      and boot = "''boot-1''" and cl = sample_cluster and cmd = HC_Suspend and node_name = "''n''"
      and current = "''boot-1''" and now = 1121]
  by (simp add: sample_cluster_def SUSPEND_DEADLINE_SECS_def)

text \<open>The name that is to be the single host command pod of a node is not its own: nodes whose
  names differ in a dot and a dash share it, so cancelling or replacing one node's pod deletes
  the other's.\<close>

theorem pod_name_collision:
  "pod_name ''rack1.a'' = pod_name ''rack1-a'' \<and> probe_pod_name ''rack1.a'' = probe_pod_name ''rack1-a''
   \<and> snd (cancel cl ''rack1.a'') = snd (cancel cl ''rack1-a'')"
  by (simp add: cancel_def pod_name_def probe_pod_name_def node_pod_name_def)

lemma node_pod_name_length: "length (node_pod_name prefix node) \<le> 63"
proof -
  have "length (dropWhile P (rev (take 63 xs))) \<le> 63" for P and xs :: string
    by (rule order_trans [OF length_dropWhile_le]) simp
  then show ?thesis unfolding node_pod_name_def length_rev .
qed

lemma run_cancels_first:
  "fst (run cl node cmd) = Inr () \<Longrightarrow>
     \<exists>pod. snd (run cl node cmd) = [DeletePod (pod_name node), CreateHostPod pod]"
  by (auto simp: run_def cancel_def split: sum.splits option.splits)

lemma offers_s3_samples: "offers_s3 ''s2idle [deep]'' \<and> \<not> offers_s3 ''[s2idle]''"
  by code_simp

end
