(* ===== verification/Lifecycle.thy ===== *)
theory Lifecycle
  imports Crd
begin

text \<open>
  The pure half of \<^verbatim>\<open>controller/node_power_management_config.rs\<close>: the state to drive a
  machine towards, how manual power changes, boots and power-on attempts are recognised, how a
  machine is taken offline, and the check of the power reading against a live Node.
\<close>

definition FAST :: duration where "FAST = secs 10"
definition NORMAL :: duration where "NORMAL = secs 30"
definition SLOW :: duration where "SLOW = secs 60"
definition RETRY_ACTION_AFTER :: int where "RETRY_ACTION_AFTER = 90"
definition STANDBY_SETTLE_SECS :: int where "STANDBY_SETTLE_SECS = 240"
definition STANDBY_BACKOFF_SECS :: int where "STANDBY_BACKOFF_SECS = 86400"
definition PROBE_WAIT_SECS :: int where "PROBE_WAIT_SECS = 60"
definition SPONTANEOUS_WAKE_SECS :: int where "SPONTANEOUS_WAKE_SECS = 300"
definition OFF_GRACE_SECS :: int where "OFF_GRACE_SECS = 90"
definition LEASE_FRESH_SECS :: int where "LEASE_FRESH_SECS = 15"

lemmas lifecycle_constants = RETRY_ACTION_AFTER_def STANDBY_SETTLE_SECS_def STANDBY_BACKOFF_SECS_def
  PROBE_WAIT_SECS_def SPONTANEOUS_WAKE_SECS_def OFF_GRACE_SECS_def LEASE_FRESH_SECS_def

definition elapsed :: "instant \<Rightarrow> instant \<Rightarrow> int" where
  "elapsed now t = num_seconds (now - t)"

section \<open>The desired state\<close>

definition desired_target :: "power_policy \<Rightarrow> npmc_status \<Rightarrow> power_target option" where
  "desired_target policy st =
     (case policy of
        AlwaysOn \<Rightarrow> Some Target_On
      | AlwaysOff \<Rightarrow> Some Target_Off
      | Auto \<Rightarrow>
          (case st_scaling_decision st of
             Some d \<Rightarrow> if sdn_pool d \<in> set (st_pools st) then Some (sdn_target d) else None
           | None \<Rightarrow> None))"

definition managed_target :: "power_policy \<Rightarrow> npmc_status \<Rightarrow> manual_power_on_policy \<Rightarrow> power_target option" where
  "managed_target policy st manual =
     (if policy = Auto \<and> st_manual_power_on st \<noteq> None \<and> manual = LeaveOn then None
      else desired_target policy st)"

section \<open>Manual power changes\<close>

datatype manual_change = MC_None | MC_PoweredOn | MC_PoweredOff

definition action_age :: "npmc_status \<Rightarrow> instant \<Rightarrow> string list \<Rightarrow> int option" where
  "action_age st now actions =
     (case st_last_power_action st of
        Some a \<Rightarrow> if pa_action a \<in> set actions then Some (elapsed now (pa_time a)) else None
      | None \<Rightarrow> None)"

definition detect_manual_change ::
    "npmc_status \<Rightarrow> npmc_status \<Rightarrow> instant \<Rightarrow> nat \<Rightarrow> nat \<Rightarrow> manual_change" where
  "detect_manual_change old st now boot_timeout_secs shutdown_timeout_secs =
     (let our_on = is_some_and (action_age st now [''PowerOn'']) (\<lambda>s. s \<le> as_i64 boot_timeout_secs);
          our_off = is_some_and (action_age st now [''PowerOff'', ''ForceOff'', ''Standby''])
                      (\<lambda>s. s \<le> wrap_i64 (as_i64 shutdown_timeout_secs + 300));
          on_now = st_power_state st = PS_On \<or> st_node_ready st;
          off_now = st_power_state st = PS_Off \<and> \<not> st_node_ready st
      in case st_phase old of
           Ph_Off \<Rightarrow> if on_now \<and> \<not> our_on then MC_PoweredOn else MC_None
         | Ph_Standby \<Rightarrow>
             if st_node_ready st \<and> \<not> our_on
                 \<and> is_none_or (st_standby_since old) (\<lambda>t. SPONTANEOUS_WAKE_SECS < elapsed now t)
             then MC_PoweredOn else MC_None
         | p \<Rightarrow>
             if p \<in> {Ph_On, Ph_PoweringOn, Ph_BootFailed} \<and> st_power_state old = PS_On \<and> off_now \<and> \<not> our_off
             then MC_PoweredOff else MC_None)"

section \<open>Boots\<close>

datatype boot_event = BE_None | BE_Failed | BE_Recovered

definition is_booting :: "npmc_status \<Rightarrow> bool" where
  "is_booting st = (st_power_state st = PS_On \<and> st_standby_since st = None
     \<and> st_phase st \<notin> {Ph_PoweringOff, Ph_Draining, Ph_Standby})"

definition boot_start :: "npmc_status \<Rightarrow> instant \<Rightarrow> instant" where
  "boot_start st now =
     (if st_phase st = Ph_PoweringOn \<or> st_phase st = Ph_BootFailed
      then min (unwrap_or (st_phase_since st) now) now else now)"

definition track_boot :: "npmc_status \<Rightarrow> instant \<Rightarrow> nat \<Rightarrow> npmc_status \<times> boot_event" where
  "track_boot st now boot_timeout_secs =
     (if st_node_ready st then
        (st\<lparr> st_powered_on_not_ready_since := None, st_boot_failure := None \<rparr>,
         if st_boot_failure st \<noteq> None then BE_Recovered else BE_None)
      else if \<not> is_booting st then
        (if st_power_state st = PS_Off then st\<lparr> st_powered_on_not_ready_since := None \<rparr> else st, BE_None)
      else
        (let since = unwrap_or (st_powered_on_not_ready_since st) (boot_start st now);
             st = st\<lparr> st_powered_on_not_ready_since := Some since \<rparr>;
             new_boot = is_none_or (st_boot_failure st) (\<lambda>f. bf_time f < since)
         in if new_boot \<and> as_i64 boot_timeout_secs < elapsed now since then
              (st\<lparr> st_boot_failure := Some \<lparr> bf_time = now, bf_left_on = False \<rparr> \<rparr>, BE_Failed)
            else (st, BE_None)))"

definition failure_is_current :: "npmc_status \<Rightarrow> bool" where
  "failure_is_current st =
     (case (st_boot_failure st, st_powered_on_not_ready_since st) of
        (Some f, Some since) \<Rightarrow> since \<le> bf_time f
      | _ \<Rightarrow> False)"

definition boot_failure_leaves_on :: "npmc_status \<Rightarrow> power_policy \<Rightarrow> manual_power_on_policy \<Rightarrow> bool" where
  "boot_failure_leaves_on st power_policy policy =
     (if power_policy \<noteq> Auto then True
      else
        (let ours = is_some_and (st_last_power_action st)
               (\<lambda>a. pa_action a = ''PowerOn''
                    \<and> is_none_or (st_powered_on_not_ready_since st) (\<lambda>s. s - secs 120 \<le> pa_time a))
         in \<not> ours \<and> policy = LeaveOn))"

section \<open>Power-on attempts\<close>

datatype power_on_attempt = Ongoing | Expired

definition power_on_attempt_of ::
    "npmc_status \<Rightarrow> instant \<Rightarrow> power_on_failure_policy \<Rightarrow> nat \<Rightarrow> power_on_attempt" where
  "power_on_attempt_of st now policy timeout_seconds =
     (if policy = Retry \<or> st_node_ready st then Ongoing
      else
        (case st_scaling_decision st of
           None \<Rightarrow> Ongoing
         | Some d \<Rightarrow>
             if sdn_target d \<noteq> Target_On then Ongoing
             else if st_power_state st = PS_On \<and> st_standby_since st = None then Ongoing
             else if as_i64 timeout_seconds < elapsed now (sdn_time d) then Expired else Ongoing))"

section \<open>Going offline\<close>

definition standby_broken :: "instant option \<Rightarrow> instant \<Rightarrow> bool" where
  "standby_broken failed_at now = is_some_and failed_at (\<lambda>t. elapsed now t < STANDBY_BACKOFF_SECS)"

definition off_action :: "power_off_mode \<Rightarrow> instant option \<Rightarrow> bool option \<Rightarrow> instant \<Rightarrow> string" where
  "off_action mode standby_failed_at s3 now =
     (if standby_broken standby_failed_at now then ''PowerOff''
      else case mode of
             ModeStandby \<Rightarrow> ''Standby''
           | ModeAuto \<Rightarrow> if s3 = Some True then ''Standby'' else ''PowerOff''
           | ModeShutdown \<Rightarrow> ''PowerOff'')"

definition s3_capable :: "npmc_status \<Rightarrow> instant \<Rightarrow> bool" where
  "s3_capable st now =
     (st_phase st = Ph_Standby
      \<or> \<not> standby_broken (st_standby_failed_at st) now \<and> is_some_and (st_sleep_support st) ss_s3)"

definition in_standby :: "phase \<Rightarrow> bool \<Rightarrow> bool \<Rightarrow> bool" where
  "in_standby phase standby_requested node_ready =
     (standby_requested \<and> (phase = Ph_PoweringOff \<or> phase = Ph_Standby) \<and> \<not> node_ready)"

definition power_state_consistent :: "power_state \<Rightarrow> bool \<Rightarrow> int option \<Rightarrow> int option \<Rightarrow> bool" where
  "power_state_consistent reported node_ready lease_age since_off =
     (let node_alive = node_ready \<and> is_some_and lease_age (\<lambda>a. a \<le> LEASE_FRESH_SECS);
          recently_turned_off = is_some_and since_off (\<lambda>s. s \<le> OFF_GRACE_SECS)
      in \<not> (reported = PS_Off \<and> node_alive \<and> \<not> recently_turned_off))"

section \<open>What they promise\<close>

text \<open>A machine powered on by hand under \<^verbatim>\<open>LeaveOn\<close> has no target at all while it stays on,
  whatever decision is stored; a decision counts only under automatic policy and only from a
  pool the machine is still a member of; and the manual override policies ignore every decision.\<close>

theorem target_respects_membership_and_hand:
  "(managed_target policy st manual = Some t) =
     (policy = AlwaysOn \<and> t = Target_On \<or> policy = AlwaysOff \<and> t = Target_Off
      \<or> policy = Auto \<and> (st_manual_power_on st = None \<or> manual \<noteq> LeaveOn)
         \<and> (\<exists>d. st_scaling_decision st = Some d \<and> sdn_pool d \<in> set (st_pools st) \<and> sdn_target d = t))"
  by (cases policy) (auto simp: managed_target_def desired_target_def split: option.split if_splits)

definition sample_action :: "string \<Rightarrow> int \<Rightarrow> power_action_record" where
  "sample_action action t = \<lparr> pa_action = action, pa_time = secs t, pa_succeeded = True, pa_via = None \<rparr>"

text \<open>When \<^verbatim>\<open>track_boot\<close> reports a failure.\<close>

lemma track_boot_Failed:
  "snd (track_boot st now timeout) = BE_Failed \<longleftrightarrow>
     \<not> st_node_ready st \<and> is_booting st
     \<and> is_none_or (st_boot_failure st)
         (\<lambda>f. bf_time f < unwrap_or (st_powered_on_not_ready_since st) (boot_start st now))
     \<and> as_i64 timeout < elapsed now (unwrap_or (st_powered_on_not_ready_since st) (boot_start st now))"
  by (auto simp: track_boot_def Let_def)

lemma elapsed_past: "0 \<le> as_i64 timeout \<Longrightarrow> as_i64 timeout < elapsed now since \<Longrightarrow> since < now"
proof (rule ccontr)
  assume a: "0 \<le> as_i64 timeout" "as_i64 timeout < elapsed now since" "\<not> since < now"
  then have "elapsed now since \<le> 0"
    by (cases "now = since") (auto simp: elapsed_def num_seconds_def pos_imp_zdiv_nonneg_iff)
  with a show False by simp
qed


definition sample_boot :: npmc_status where
  "sample_boot = default_npmc_status\<lparr> st_phase := Ph_PoweringOn, st_phase_since := Some (secs 1000),
     st_power_state := PS_On \<rparr>"


text \<open>A power-on attempt under \<^verbatim>\<open>Release\<close> cannot be held open by repeating the command: once
  the timeout has passed since the decision, it has expired unless the Node is Ready or the
  machine reads as on and is not suspended; under \<^verbatim>\<open>Retry\<close> it never expires.\<close>

theorem power_on_attempt_expires:
  "(power_on_attempt_of st now policy timeout = Expired) =
     (policy = Release \<and> \<not> st_node_ready st
      \<and> (\<exists>d. st_scaling_decision st = Some d \<and> sdn_target d = Target_On
             \<and> as_i64 timeout < elapsed now (sdn_time d))
      \<and> \<not> (st_power_state st = PS_On \<and> st_standby_since st = None))
   \<and> power_on_attempt_of (st\<lparr> st_last_power_action := a, st_phase_since := p \<rparr>) now policy timeout
     = power_on_attempt_of st now policy timeout"
  by (cases policy; cases "st_scaling_decision st") (auto simp: power_on_attempt_of_def)

text \<open>After standby failed on a machine it is not suspended again for a day, whatever its mode;
  otherwise it is suspended exactly when standby is configured, or in automatic mode when the
  machine is known to sleep in S3.\<close>

theorem standby_backoff:
  "(off_action mode failed_at s3 now = ''Standby'') =
     ((\<forall>t. failed_at = Some t \<longrightarrow> 86400 \<le> elapsed now t)
      \<and> (mode = ModeStandby \<or> mode = ModeAuto \<and> s3 = Some True))
   \<and> off_action mode failed_at s3 now \<in> {''Standby'', ''PowerOff''}"
  by (cases mode; cases failed_at) (auto simp: off_action_def standby_broken_def STANDBY_BACKOFF_SECS_def)

lemma consistent_when_not_ready: "\<not> node_ready \<Longrightarrow> power_state_consistent r node_ready l s"
  by (simp add: power_state_consistent_def)

end
