(* ===== verification/ControllerBase.thy ===== *)
theory ControllerBase
  imports Json KubeObjects Crd Identity Pods
begin

text \<open>
  \<^verbatim>\<open>controller/mod.rs\<close>: what both controllers share.  Status patches as differences of JSON
  values, the patches that cordon a Node and mark it as powered off, the identity cache, and
  the warnings logged once.  A server that applies a merge patch follows RFC 7386; this is the
  interface \<^verbatim>\<open>merge_patch\<close>, with the algorithm of the RFC as its instance.
\<close>

section \<open>Merge patches\<close>

definition obj_of :: "json \<Rightarrow> (string \<times> json) list" where
  "obj_of j = unwrap_or (json_as_object j) []"

definition is_object :: "json \<Rightarrow> bool" where
  "is_object j = (json_as_object j \<noteq> None)"

lemma obj_of_JObj [simp]: "obj_of (JObj m) = m"
  by (simp add: obj_of_def)

text \<open>Applying a patch: a patch that is no object replaces the target; an object is merged member
  by member, null removing one.\<close>

locale merge_patch =
  fixes mp :: "json \<Rightarrow> json \<Rightarrow> json"
  assumes mp_other: "\<not> is_object j \<Longrightarrow> mp t j = j"
    and mp_object: "is_object (mp t (JObj p))"
    and mp_ok: "bt_ok p \<Longrightarrow> bt_ok (obj_of t) \<Longrightarrow> bt_ok (obj_of (mp t (JObj p)))"
    and mp_get: "bt_ok p \<Longrightarrow> bt_ok (obj_of t) \<Longrightarrow> bt_get (obj_of (mp t (JObj p))) k =
      (case bt_get p k of
         None \<Rightarrow> bt_get (obj_of t) k
       | Some JNull \<Rightarrow> None
       | Some v \<Rightarrow> Some (mp (unwrap_or (bt_get (obj_of t) k) JNull) v))"
begin

lemma mp_is_JObj: "mp t (JObj p) = JObj (obj_of (mp t (JObj p)))"
  using mp_object [of t p] by (cases "mp t (JObj p)") (auto simp: is_object_def obj_of_def)

text \<open>A patch whose values are neither objects nor null sets exactly its keys.\<close>

lemma mp_flat:
  assumes "bt_ok p" "bt_ok (obj_of t)" "bt_get p k = Some v" "\<not> is_object v" "v \<noteq> JNull"
  shows "bt_get (obj_of (mp t (JObj p))) k = Some v"
  using assms mp_other [of v] by (cases v) (simp_all add: mp_get)

lemma mp_untouched:
  assumes "bt_ok p" "bt_ok (obj_of t)" "bt_get p k = None"
  shows "bt_get (obj_of (mp t (JObj p))) k = bt_get (obj_of t) k"
  using assms by (simp add: mp_get)

lemma mp_removed:
  assumes "bt_ok p" "bt_ok (obj_of t)" "bt_get p k = Some JNull"
  shows "bt_get (obj_of (mp t (JObj p))) k = None"
  using assms by (simp add: mp_get)

text \<open>A member that is an object in the patch is merged, not replaced: what it does not mention
  stays.\<close>

lemma mp_nested_stays:
  assumes "bt_ok p" "bt_ok (obj_of t)" "bt_get p k = Some (JObj q)" "bt_get (obj_of t) k = Some (JObj u)"
    and "bt_ok q" "bt_ok u" "bt_get q k' = None"
  shows "bt_get (obj_of (unwrap_or (bt_get (obj_of (mp t (JObj p))) k) JNull)) k' = bt_get u k'"
  using assms by (simp add: mp_get)

end

fun rfc7386 :: "json \<Rightarrow> json \<Rightarrow> json"
  and rfc7386_members :: "(string \<times> json) list \<Rightarrow> (string \<times> json) list \<Rightarrow> (string \<times> json) list" where
  "rfc7386 t (JObj p) = JObj (rfc7386_members (obj_of t) p)"
| "rfc7386 t JNull = JNull"
| "rfc7386 t (JBool b) = JBool b"
| "rfc7386 t (JNum n) = JNum n"
| "rfc7386 t (JStr s) = JStr s"
| "rfc7386 t (JArr xs) = JArr xs"
| "rfc7386_members t [] = t"
| "rfc7386_members t ((k, v) # p) =
     rfc7386_members (if v = JNull then bt_remove k t
                      else bt_insert k (rfc7386 (unwrap_or (bt_get t k) JNull) v) t) p"

lemma members_ok: "bt_ok t \<Longrightarrow> bt_ok (rfc7386_members t p)"
  by (induction p arbitrary: t) (auto simp: bt_simps)

lemma members_get:
  "bt_ok p \<Longrightarrow> bt_ok t \<Longrightarrow> bt_get (rfc7386_members t p) k =
     (case bt_get p k of
        None \<Rightarrow> bt_get t k
      | Some JNull \<Rightarrow> None
      | Some v \<Rightarrow> Some (rfc7386 (unwrap_or (bt_get t k) JNull) v))"
proof (induction p arbitrary: t)
  case (Cons e p)
  obtain k' v where e: "e = (k', v)" by (cases e)
  have p: "bt_ok p" "bt_get p k' = None"
    using Cons.prems(1) bt_get_notin [of k' p] by (force simp: e bt_ok_Cons)+
  define t' where "t' = (if v = JNull then bt_remove k' t
      else bt_insert k' (rfc7386 (unwrap_or (bt_get t k') JNull) v) t)"
  have t: "bt_ok t'" using Cons.prems(2) by (simp add: bt_simps t'_def)
  have unfold: "rfc7386_members t (e # p) = rfc7386_members t' p" by (simp add: e t'_def)
  have g: "bt_get t' k = (if k = k' then (if v = JNull then None
      else Some (rfc7386 (unwrap_or (bt_get t k') JNull) v)) else bt_get t k)"
    using Cons.prems(2) by (simp add: bt_simps t'_def)
  show ?case
  proof (cases "k = k'")
    case True
    then show ?thesis unfolding unfold Cons.IH [OF p(1) t] using p(2) g by (cases v) (simp_all add: e)
  next
    case False
    then have g': "bt_get t' k = bt_get t k" "bt_get (e # p) k = bt_get p k" using g by (simp_all add: e)
    show ?thesis unfolding unfold Cons.IH [OF p(1) t] g' by (rule refl)
  qed
qed simp

interpretation rfc: merge_patch rfc7386
proof
  show "\<not> is_object p \<Longrightarrow> rfc7386 t p = p" for p t
    by (cases p) (auto simp: is_object_def)
qed (simp_all add: is_object_def members_ok members_get)

section \<open>Status patches\<close>

definition merge_diff :: "json \<Rightarrow> json \<Rightarrow> (string \<times> json) list" where
  "merge_diff old new =
     (let old = obj_of old; new = obj_of new;
          patch = foldl (\<lambda>patch (k, v). if bt_get old k \<noteq> Some v then bt_insert k v patch else patch) [] new
      in foldl (\<lambda>patch k. if bt_get new k = None then bt_insert k JNull patch else patch) patch (bt_keys old))"

text \<open>The body sent to the server, when there is anything to send.\<close>

definition patch_status_diff :: "json \<Rightarrow> json \<Rightarrow> json option" where
  "patch_status_diff old new =
     (let diff = merge_diff old new in
      if diff = [] then None else Some (JObj [(''status'', JObj diff)]))"

section \<open>Nodes\<close>

definition node_ready :: "knode \<Rightarrow> bool" where
  "node_ready node = is_some_and
     (Option.bind (no_conditions node) (find (\<lambda>c. nc_type c = ''Ready'')))
     (\<lambda>c. nc_status c = ''True'')"

definition is_cordoned :: "knode \<Rightarrow> bool" where
  "is_cordoned node = unwrap_or (no_unschedulable node) False"

text \<open>The merge patches the operator sends for a Node; \<^verbatim>\<open>None\<close>: nothing is sent.\<close>

definition cordon_patch :: json where
  "cordon_patch = JObj [
     (''metadata'', JObj [(''annotations'', JObj [(CORDONED_BY_ANNOTATION, JStr ''true'')])]),
     (''spec'', JObj [(''unschedulable'', JBool True)])]"

definition cordon :: "knode \<Rightarrow> json option" where
  "cordon node = (if is_cordoned node then None else Some cordon_patch)"

definition OUT_OF_SERVICE_TAINT :: string where
  "OUT_OF_SERVICE_TAINT = ''node.kubernetes.io/out-of-service''"

text \<open>\<^verbatim>\<open>to_rfc3339\<close> of the instant is the argument.\<close>

definition mark_powered_off :: "string \<Rightarrow> json" where
  "mark_powered_off stamp = JObj [(''metadata'', JObj [(''annotations'', JObj [(POWERED_OFF_ANNOTATION, JStr stamp)])])]"

fun opt_member :: "string \<Rightarrow> string option \<Rightarrow> (string \<times> json) list" where
  "opt_member k (Some v) = [(k, JStr v)]"
| "opt_member k None = []"

definition taint_json :: "taint \<Rightarrow> json" where
  "taint_json t = JObj ([(''effect'', JStr (tt_effect t)), (''key'', JStr (tt_key t))]
     @ opt_member ''value'' (tt_value t))"

definition clear_powered_off :: "knode \<Rightarrow> json option" where
  "clear_powered_off node =
     (if bt_get (no_annotations node) POWERED_OFF_ANNOTATION = None then None
      else
        (let taints = unwrap_or (no_taints node) [];
             metadata = (''metadata'', JObj [(''annotations'', JObj [(POWERED_OFF_ANNOTATION, JNull)])])
         in if list_ex (\<lambda>t. tt_key t = OUT_OF_SERVICE_TAINT) taints then
              Some (JObj [metadata, (''spec'', JObj [(''taints'',
                JArr (map taint_json (filter (\<lambda>t. tt_key t \<noteq> OUT_OF_SERVICE_TAINT) taints)))])])
            else Some (JObj [metadata])))"

definition uncordon_patch :: json where
  "uncordon_patch = JObj [
     (''metadata'', JObj [(''annotations'', JObj [(CORDONED_BY_ANNOTATION, JNull)])]),
     (''spec'', JObj [(''unschedulable'', JNull)])]"

definition uncordon_if_ours :: "knode \<Rightarrow> json option" where
  "uncordon_if_ours node =
     (if bt_get (no_annotations node) CORDONED_BY_ANNOTATION = None then None else Some uncordon_patch)"

section \<open>Caches and warnings\<close>

definition IDENTITY_TTL :: duration where
  "IDENTITY_TTL = secs 600"

type_synonym identity_key = "string \<times> int"
type_synonym identity_cache = "(identity_key \<times> instant \<times> (string \<times> identity_check) list) list"

definition identity_get :: "identity_cache \<Rightarrow> instant \<Rightarrow> identity_key \<Rightarrow> (string \<times> identity_check) list option" where
  "identity_get cache now key =
     (case map_of cache key of
        Some (at, r) \<Rightarrow> if now - at < IDENTITY_TTL then Some r else None
      | None \<Rightarrow> None)"

definition identity_put ::
    "identity_cache \<Rightarrow> instant \<Rightarrow> identity_key \<Rightarrow> (string \<times> identity_check) list \<Rightarrow> identity_cache" where
  "identity_put cache now key results =
     (key, now, results) # filter (\<lambda>((name, _), _). name \<noteq> fst key) cache"

text \<open>Whether a warning is new for its key, and what is remembered afterwards.\<close>

definition first_time :: "string btmap \<Rightarrow> string \<Rightarrow> string option \<Rightarrow> bool \<times> string btmap" where
  "first_time warned key message =
     (case message of
        Some m \<Rightarrow> (bt_get warned key \<noteq> Some m, bt_insert key m warned)
      | None \<Rightarrow> (False, bt_remove key warned))"

definition pods_on :: "kpod list \<Rightarrow> string \<Rightarrow> kpod list" where
  "pods_on pods node = filter (\<lambda>p. Option.bind (p_spec p) pd_node_name = Some node) pods"

section \<open>What a status patch does\<close>

lemma bt_get_fold_changed:
  "distinct (map fst kvs) \<Longrightarrow>
   bt_get (foldl (\<lambda>m (k, v). if P k v then bt_insert k v m else m) m kvs) k =
     (case map_of kvs k of Some v \<Rightarrow> if P k v then Some v else bt_get m k | None \<Rightarrow> bt_get m k)"
proof (induction kvs arbitrary: m)
  case (Cons e kvs)
  obtain k' v where e: "e = (k', v)" by (cases e)
  then have "map_of kvs k' = None" using Cons.prems by (simp add: map_of_eq_None_iff)
  with Cons e show ?case by (simp add: bt_simps split: option.split)
qed simp

lemma bt_get_fold_removed:
  "bt_get (foldl (\<lambda>m k. if P k then bt_insert k v m else m) m ks) k =
     (if k \<in> set ks \<and> P k then Some v else bt_get m k)"
  by (induction ks arbitrary: m) (auto simp: bt_simps)

lemma bt_ok_fold_changed:
  "bt_ok m \<Longrightarrow> bt_ok (foldl (\<lambda>m (k, v). if P k v then bt_insert k v m else m) m kvs)"
  by (induction kvs arbitrary: m) (auto simp: bt_simps split: prod.split)

lemma bt_ok_fold_removed:
  "bt_ok m \<Longrightarrow> bt_ok (foldl (\<lambda>m k. if P k then bt_insert k v m else m) m ks)"
  by (induction ks arbitrary: m) (auto simp: bt_simps)

lemma merge_diff_ok: "bt_ok (merge_diff old new)"
  unfolding merge_diff_def Let_def by (intro bt_ok_fold_removed bt_ok_fold_changed bt_ok_Nil)

lemma merge_diff_get:
  assumes "bt_ok (obj_of new)"
  shows "bt_get (merge_diff old new) k =
    (case bt_get (obj_of new) k of
       Some v \<Rightarrow> if bt_get (obj_of old) k = Some v then None else Some v
     | None \<Rightarrow> if bt_get (obj_of old) k = None then None else Some JNull)"
proof -
  let ?o = "obj_of old" and ?n = "obj_of new"
  have old: "k \<in> set (bt_keys ?o) \<longleftrightarrow> bt_get ?o k \<noteq> None" by (simp add: bt_get_None_iff)
  have "bt_get (merge_diff old new) k =
      (if k \<in> set (bt_keys ?o) \<and> bt_get ?n k = None then Some JNull
       else case map_of ?n k of Some v \<Rightarrow> if bt_get ?o k \<noteq> Some v then Some v else bt_get [] k
            | None \<Rightarrow> bt_get [] k)"
    unfolding merge_diff_def Let_def bt_get_fold_removed bt_get_fold_changed [OF bt_ok_distinct [OF assms]]
    by (rule refl)
  then show ?thesis
    unfolding old by (cases "bt_get ?n k") (simp_all add: bt_get_map_of [symmetric])
qed

text \<open>On fields that are not objects, the status patch does what it is for: applied to the
  old status by a server that merges as RFC 7386 says, it yields the new status exactly; and a
  field that did not change is not in the patch, so that another writer's change to it stays.\<close>

theorem status_patch_flat:
  assumes "bt_ok old" "bt_ok new"
    and "\<forall>k v. bt_get new k = Some v \<and> bt_get old k \<noteq> Some v \<longrightarrow> \<not> is_object v \<and> v \<noteq> JNull"
  shows "rfc7386 (JObj old) (JObj (merge_diff (JObj old) (JObj new))) = JObj new
    \<and> (\<forall>k. bt_get old k = bt_get new k \<longrightarrow> bt_get (merge_diff (JObj old) (JObj new)) k = None)"
proof
  let ?p = "merge_diff (JObj old) (JObj new)"
  have g: "bt_get ?p k = (case bt_get new k of
       Some v \<Rightarrow> if bt_get old k = Some v then None else Some v
     | None \<Rightarrow> if bt_get old k = None then None else Some JNull)" for k
    using merge_diff_get [of "JObj new" "JObj old" k] assms(2) unfolding obj_of_JObj by blast
  have ok: "bt_ok ?p" "bt_ok (obj_of (JObj old))" using assms(1) by (simp_all add: merge_diff_ok)
  have "bt_get (obj_of (rfc7386 (JObj old) (JObj ?p))) k = bt_get new k" for k
  proof (cases "bt_get new k")
    case None
    show ?thesis
    proof (cases "bt_get old k")
      case None
      then have "bt_get ?p k = None" using \<open>bt_get new k = None\<close> g by simp
      from rfc.mp_untouched [OF ok this] show ?thesis using \<open>bt_get new k = None\<close> None by simp
    next
      case (Some w)
      then have "bt_get ?p k = Some JNull" using \<open>bt_get new k = None\<close> g by simp
      from rfc.mp_removed [OF ok this] show ?thesis using \<open>bt_get new k = None\<close> by simp
    qed
  next
    case (Some v)
    show ?thesis
    proof (cases "bt_get old k = Some v")
      case True
      then have "bt_get ?p k = None" using Some g by simp
      from rfc.mp_untouched [OF ok this] show ?thesis using Some True by simp
    next
      case False
      then have "bt_get ?p k = Some v" "\<not> is_object v" "v \<noteq> JNull" using Some g assms(3) by auto
      from rfc.mp_flat [OF ok this] show ?thesis using Some by simp
    qed
  qed
  then have "obj_of (rfc7386 (JObj old) (JObj ?p)) = new"
    using rfc.mp_ok [OF ok] assms(2) by (intro bt_ext)
  then show "rfc7386 (JObj old) (JObj ?p) = JObj new" using rfc.mp_is_JObj by metis
  show "\<forall>k. bt_get old k = bt_get new k \<longrightarrow> bt_get ?p k = None"
    using g by (simp split: option.split)
qed

lemma status_patch_flat_witness:
  "rfc7386 (JObj [(''a'', JNum 1), (''b'', JNum 2)])
     (JObj (merge_diff (JObj [(''a'', JNum 1), (''b'', JNum 2)]) (JObj [(''a'', JNum 5)])))
   = JObj [(''a'', JNum 5)]"
  using status_patch_flat [of "[(''a'', JNum 1), (''b'', JNum 2)]" "[(''a'', JNum 5)]"]
  by (simp add: bt_ok_def is_object_def split: if_splits)

text \<open>On a field that is itself a map, the patch does not turn the old status into the new
  one: a removed entry stays on the server.  With \<^verbatim>\<open>unneededSince\<close> of machines \<^verbatim>\<open>a\<close> and \<^verbatim>\<open>b\<close>, of
  which \<^verbatim>\<open>b\<close> is needed again, the server keeps the entry of \<^verbatim>\<open>b\<close>, whichever RFC 7386
  implementation it runs.\<close>

theorem status_patch_keeps_removed_entry:
  "bt_get (obj_of (unwrap_or (bt_get (obj_of (rfc7386
      (JObj [(''unneededSince'', JObj [(''a'', JStr t), (''b'', JStr u)])])
      (JObj (merge_diff (JObj [(''unneededSince'', JObj [(''a'', JStr t), (''b'', JStr u)])])
                        (JObj [(''unneededSince'', JObj [(''a'', JStr t)])])))))
      ''unneededSince'') JNull)) ''b'' = Some (JStr u)"
proof -
  let ?o = "[(''unneededSince'', JObj [(''a'', JStr t), (''b'', JStr u)])]"
  let ?p = "merge_diff (JObj ?o) (JObj [(''unneededSince'', JObj [(''a'', JStr t)])])"
  have p: "bt_get ?p ''unneededSince'' = Some (JObj [(''a'', JStr t)])"
    by (simp add: merge_diff_def Let_def)
  have "bt_ok (obj_of (JObj ?o))" "bt_get (obj_of (JObj ?o)) ''unneededSince'' = Some (JObj [(''a'', JStr t), (''b'', JStr u)])"
      "bt_ok [(''a'', JStr t)]" "bt_ok [(''a'', JStr t), (''b'', JStr u)]" "bt_get [(''a'', JStr t)] ''b'' = None"
    by (simp_all add: bt_ok_def)
  from rfc.mp_nested_stays [OF merge_diff_ok this(1) p this(2-5)] show ?thesis by simp
qed

section \<open>Cordoning\<close>

lemma insert_then_remove: "bt_ok a \<Longrightarrow> bt_get a k = None \<Longrightarrow> bt_remove k (bt_insert k v a) = a"
  by (rule bt_ext) (simp_all add: bt_simps)

lemma insert_back: "bt_ok m \<Longrightarrow> bt_get m k = Some x \<Longrightarrow> bt_insert k x (bt_insert k y m) = m"
  by (rule bt_ext) (simp_all add: bt_simps)

text \<open>What the operator does to a Node by cordoning it, it undoes: applied one after the
  other, the two patches give back a Node that carried neither the operator's mark nor
  \<^verbatim>\<open>spec.unschedulable\<close>; and a Node someone else cordoned is not touched, nor one without the
  mark uncordoned.\<close>

theorem cordon_roundtrip:
  assumes ok: "bt_ok n" "bt_ok m" "bt_ok a" "bt_ok sp"
    and n: "bt_get n ''metadata'' = Some (JObj m)" "bt_get n ''spec'' = Some (JObj sp)"
      "bt_get m ''annotations'' = Some (JObj a)"
    and clean: "bt_get a CORDONED_BY_ANNOTATION = None" "bt_get sp ''unschedulable'' = None"
  shows "rfc7386 (rfc7386 (JObj n) cordon_patch) uncordon_patch = JObj n
    \<and> (no_unschedulable node = Some True \<longrightarrow> cordon node = None)
    \<and> (bt_get (no_annotations node) CORDONED_BY_ANNOTATION = None \<longrightarrow> uncordon_if_ours node = None)"
proof -
  have "rfc7386 (rfc7386 (JObj n) cordon_patch) uncordon_patch =
    JObj (bt_insert ''spec'' (JObj (bt_remove ''unschedulable'' (bt_insert ''unschedulable'' (JBool True) sp)))
      (bt_insert ''metadata'' (JObj (bt_insert ''annotations''
          (JObj (bt_remove CORDONED_BY_ANNOTATION (bt_insert CORDONED_BY_ANNOTATION (JStr ''true'') a)))
          (bt_insert ''annotations'' (JObj (bt_insert CORDONED_BY_ANNOTATION (JStr ''true'') a)) m)))
        (bt_insert ''spec'' (JObj (bt_insert ''unschedulable'' (JBool True) sp))
          (bt_insert ''metadata'' (JObj (bt_insert ''annotations''
             (JObj (bt_insert CORDONED_BY_ANNOTATION (JStr ''true'') a)) m)) n))))"
    using n by (simp add: cordon_patch_def uncordon_patch_def bt_get_insert)
  also have "\<dots> = JObj n"
    unfolding insert_then_remove [OF ok(3) clean(1)] insert_then_remove [OF ok(4) clean(2)]
      insert_back [OF ok(2) n(3)]
    using ok(1) n(1,2) by simp (rule bt_ext; simp add: bt_simps)
  finally show ?thesis by (simp add: cordon_def is_cordoned_def uncordon_if_ours_def)
qed

lemma cordon_roundtrip_witness:
  "rfc7386 (rfc7386 (JObj [(''metadata'', JObj [(''annotations'', JObj [])]), (''spec'', JObj [])])
     cordon_patch) uncordon_patch
   = JObj [(''metadata'', JObj [(''annotations'', JObj [])]), (''spec'', JObj [])]"
  using cordon_roundtrip [of "[(''metadata'', JObj [(''annotations'', JObj [])]), (''spec'', JObj [])]"
      "[(''annotations'', JObj [])]" "[]" "[]" empty_node]
  by (simp add: bt_ok_def)

section \<open>The identity cache\<close>

lemma identity_get_put:
  "identity_get (identity_put cache t key r) now key = (if now - t < IDENTITY_TTL then Some r else None)"
  by (simp add: identity_get_def identity_put_def)

lemma identity_old_generation_gone:
  assumes "snd key' \<noteq> snd key" "fst key' = fst key"
  shows "identity_get (identity_put cache t key r) now key' = None"
proof -
  have "map_of (filter (\<lambda>((name, _), _). name \<noteq> fst key) cache) key' = None"
    using assms(2) by (auto simp: map_of_eq_None_iff)
  then show ?thesis using assms by (auto simp: identity_get_def identity_put_def)
qed

lemma identity_other_machine_kept:
  assumes "fst key' \<noteq> fst key"
  shows "identity_get (identity_put cache t key r) now key' = identity_get cache now key'"
proof -
  have "map_of (filter (\<lambda>((name, _), _). name \<noteq> fst key) cache) key' = map_of cache key'"
    using assms by (induction cache) (auto split: prod.splits)
  then show ?thesis using assms by (auto simp: identity_get_def identity_put_def)
qed

end
