(* ===== verification/Reconciler.thy ===== *)
theory Reconciler
  imports Inband Lifecycle ControllerBase
begin

text \<open>
  The \<^verbatim>\<open>Reconciler\<close> of \<^verbatim>\<open>controller/node_power_management_config.rs\<close>: one pass that drives a
  machine towards its target.  The state is the status being written and the log of everything
  done outside, in order; the answers of the API server and of the management interfaces are
  fields of \<^verbatim>\<open>rc_env\<close>, the API server's as a function of how much has been done before, so
  that no two calls have to be answered alike.  A \<^verbatim>\<open>?\<close> of the code is an \<^verbatim>\<open>Inl\<close> that ends the pass.
\<close>

section \<open>State\<close>

datatype effect =
    E_PowerOn "string list"
  | E_PowerOff bool "string list"
  | E_Api api_call
  | E_DryRun string
  | E_NodePatch string json
  | E_Evict string string
  | E_Event bool string string

record rc_env =
  rv_spec :: npmc_spec
  rv_dry_run :: bool
  rv_chain :: power_chain
  rv_node :: "knode option"
  rv_pods :: "kpod list"
  rv_now :: instant
  rv_boot_timeout :: nat
  rv_manual_policy :: manual_power_on_policy
  rv_failure_policy :: power_on_failure_policy
  rv_power_on_timeout :: nat
  rv_cluster :: "nat \<Rightarrow> cluster"
  rv_patch_answer :: "nat \<Rightarrow> string + unit"
  rv_rfc3339 :: "instant \<Rightarrow> string"

record rs =
  rs_st :: npmc_status
  rs_log :: "effect list"

definition upd :: "(npmc_status \<Rightarrow> npmc_status) \<Rightarrow> rs \<Rightarrow> rs" where
  "upd f s = s\<lparr> rs_st := f (rs_st s) \<rparr>"

definition emit :: "effect list \<Rightarrow> rs \<Rightarrow> rs" where
  "emit es s = s\<lparr> rs_log := rs_log s @ es \<rparr>"

definition event :: "string \<Rightarrow> string \<Rightarrow> rs \<Rightarrow> rs" where
  "event reason note_text s = emit [E_Event False reason note_text] s"

definition warning :: "string \<Rightarrow> string \<Rightarrow> rs \<Rightarrow> rs" where
  "warning reason note_text s = emit [E_Event True reason note_text] s"

definition set_message :: "string option \<Rightarrow> rs \<Rightarrow> rs" where
  "set_message m s = upd (\<lambda>st. st\<lparr> st_message := m \<rparr>) s"

text \<open>\<^verbatim>\<open>i64::MAX\<close>.\<close>

definition I64_MAX :: int where "I64_MAX = 9223372036854775807"

abbreviation lifecycle :: "rc_env \<Rightarrow> lifecycle_spec" where
  "lifecycle env \<equiv> nm_lifecycle (rv_spec env)"

abbreviation node_name :: "rc_env \<Rightarrow> string" where
  "node_name env \<equiv> nm_node_name (rv_spec env)"

definition cluster_at :: "rc_env \<Rightarrow> rs \<Rightarrow> cluster" where
  "cluster_at env s = rv_cluster env (length (rs_log s))"

section \<open>Phases and patches\<close>

definition set_phase :: "rc_env \<Rightarrow> phase \<Rightarrow> rs \<Rightarrow> rs" where
  "set_phase env p s =
     (if st_phase (rs_st s) \<noteq> p
      then upd (\<lambda>st. st\<lparr> st_phase := p, st_phase_since := Some (rv_now env) \<rparr>) s else s)"

definition in_phase_for :: "rc_env \<Rightarrow> rs \<Rightarrow> int" where
  "in_phase_for env s =
     (case st_phase_since (rs_st s) of Some t \<Rightarrow> elapsed (rv_now env) t | None \<Rightarrow> I64_MAX)"

definition since_last_action :: "rc_env \<Rightarrow> string \<Rightarrow> rs \<Rightarrow> int" where
  "since_last_action env action s =
     (case st_last_power_action (rs_st s) of
        Some a \<Rightarrow> if pa_action a = action then elapsed (rv_now env) (pa_time a) else I64_MAX
      | None \<Rightarrow> I64_MAX)"

definition send_patch :: "rc_env \<Rightarrow> string \<Rightarrow> json \<Rightarrow> rs \<Rightarrow> (string + unit) \<times> rs" where
  "send_patch env node p s = (rv_patch_answer env (length (rs_log s)), emit [E_NodePatch node p] s)"

text \<open>A patch of the machine's Node, when there is one and the patch is needed.\<close>

definition patch_node :: "rc_env \<Rightarrow> (knode \<Rightarrow> json option) \<Rightarrow> rs \<Rightarrow> (string + unit) \<times> rs" where
  "patch_node env patch s =
     (case rv_node env of
        None \<Rightarrow> (Inr (), s)
      | Some node \<Rightarrow> (case patch node of None \<Rightarrow> (Inr (), s) | Some p \<Rightarrow> send_patch env (no_name node) p s))"

text \<open>The annotation for node fencing tools: left out in a dry run, its failure only logged.\<close>

definition announce_power_off :: "rc_env \<Rightarrow> rs \<Rightarrow> rs" where
  "announce_power_off env s =
     (if rv_dry_run env then s
      else snd (send_patch env (node_name env) (mark_powered_off (rv_rfc3339 env (rv_now env))) s))"

section \<open>Power actions\<close>

definition suspend_command :: "rc_env \<Rightarrow> host_command" where
  "suspend_command env = (if lc_power_off_mode (lifecycle env) = ModeAuto then HC_SuspendS3 else HC_Suspend)"

text \<open>What is sent where, and with what result.\<close>

definition execute :: "rc_env \<Rightarrow> string \<Rightarrow> rs \<Rightarrow> (string + unit outcome) \<times> effect list" where
  "execute env action s =
     (if rv_dry_run env then
        (Inr \<lparr> oc_value = (), oc_via = ''dry-run'', oc_failures = [] \<rparr>, [E_DryRun action])
      else if action = ''PowerOn'' then
        (case chain_power_on (rv_chain env) of (r, tried) \<Rightarrow> (r, [E_PowerOn tried]))
      else if action = ''PowerOff'' then
        (case chain_power_off (rv_chain env) False of (r, tried) \<Rightarrow> (r, [E_PowerOff False tried]))
      else if action = ''Standby'' then
        (case run (cluster_at env s) (node_name env) (suspend_command env) of
           (Inl e, calls) \<Rightarrow> (Inl e, map E_Api calls)
         | (Inr _, calls) \<Rightarrow> (Inr \<lparr> oc_value = (), oc_via = ''in-band'', oc_failures = [] \<rparr>, map E_Api calls))
      else
        (case chain_power_off (rv_chain env) True of (r, tried) \<Rightarrow> (r, [E_PowerOff True tried])))"

definition standby_mark :: "rc_env \<Rightarrow> string \<Rightarrow> npmc_status \<Rightarrow> npmc_status" where
  "standby_mark env action st =
     (if action = ''Standby'' then st\<lparr> st_standby_since := Some (rv_now env) \<rparr>
      else if action = ''PowerOff'' then st\<lparr> st_standby_since := None \<rparr> else st)"

definition is_ok :: "'e + 'a \<Rightarrow> bool" where
  "is_ok r = (case r of Inr _ \<Rightarrow> True | Inl _ \<Rightarrow> False)"

definition record_action :: "rc_env \<Rightarrow> string \<Rightarrow> string + unit outcome \<Rightarrow> npmc_status \<Rightarrow> npmc_status" where
  "record_action env action result st =
     st\<lparr> st_last_power_action := Some \<lparr> pa_action = action, pa_time = rv_now env,
           pa_succeeded = is_ok result,
           pa_via = (case result of Inr oc \<Rightarrow> Some (oc_via oc) | Inl _ \<Rightarrow> None) \<rparr> \<rparr>"

definition report_action :: "string \<Rightarrow> string + unit outcome \<Rightarrow> rs \<Rightarrow> rs" where
  "report_action action result s =
     (case result of
        Inr oc \<Rightarrow> event action (action @ '' issued via '' @ oc_via oc
          @ (if oc_failures oc = [] then '''' else '' after: '' @ join ''; '' (oc_failures oc))) s
      | Inl e \<Rightarrow> warning (action @ ''Failed'') e (set_message (Some (action @ '' failed: '' @ e)) s))"

definition act :: "rc_env \<Rightarrow> string \<Rightarrow> rs \<Rightarrow> bool \<times> rs" where
  "act env action s =
     (case execute env action s of
        (result, effects) \<Rightarrow>
          (is_ok result,
           report_action action result
             (upd (record_action env action result \<circ> standby_mark env action) (emit effects s))))"

section \<open>Sleep\<close>

definition boot_id :: "rc_env \<Rightarrow> string option" where
  "boot_id env =
     (case Option.bind (rv_node env) no_boot_id of
        Some i \<Rightarrow> if i \<noteq> '''' then Some i else None
      | None \<Rightarrow> None)"

definition s3_known :: "rc_env \<Rightarrow> rs \<Rightarrow> bool option" where
  "s3_known env s =
     (case boot_id env of
        None \<Rightarrow> None
      | Some boot \<Rightarrow>
          (case st_sleep_support (rs_st s) of
             Some known \<Rightarrow> if ss_boot_id known = boot then Some (ss_s3 known) else None
           | None \<Rightarrow> None))"

definition off_action_now :: "rc_env \<Rightarrow> rs \<Rightarrow> string" where
  "off_action_now env s =
     off_action (lc_power_off_mode (lifecycle env)) (st_standby_failed_at (rs_st s)) (s3_known env s) (rv_now env)"

text \<open>What a probe's answer says: boot id, whether S3 is offered, and the details; \<^verbatim>\<open>None\<close> while
  there is no answer for the current boot.\<close>

definition probe_verdict :: "string \<Rightarrow> string + probe \<Rightarrow> (string \<times> bool \<times> string) option" where
  "probe_verdict boot answer =
     (case answer of
        Inr Probe_Pending \<Rightarrow> None
      | Inr (Probe_Done i mem_sleep) \<Rightarrow> if i \<noteq> boot then None else Some (i, offers_s3 mem_sleep, mem_sleep)
      | Inr (Probe_Failed e) \<Rightarrow> Some (boot, False, ''probe failed: '' @ e)
      | Inl e \<Rightarrow> Some (boot, False, ''probe failed: '' @ e))"

definition probe_note :: "bool \<Rightarrow> string \<Rightarrow> string" where
  "probe_note s3 detail =
     (if s3 then ''machine can sleep in S3 (mem_sleep: '' @ detail @ ''); idle periods use standby''
      else ''machine cannot sleep in S3 (mem_sleep: '' @ detail @ ''); idle periods shut it down'')"

definition advance_probe :: "rc_env \<Rightarrow> rs \<Rightarrow> bool option \<times> rs" where
  "advance_probe env s =
     (case s3_known env s of
        Some known \<Rightarrow> (Some known, s)
      | None \<Rightarrow>
          (case boot_id env of
             None \<Rightarrow> (None, s)
           | Some boot \<Rightarrow>
               (case probe_sleep (cluster_at env s) (node_name env) of
                  (answer, calls) \<Rightarrow>
                    (case probe_verdict boot answer of
                       None \<Rightarrow> (None, emit (map E_Api calls) s)
                     | Some (i, s3, detail) \<Rightarrow>
                         (Some s3,
                          upd (\<lambda>st. st\<lparr> st_sleep_support :=
                                 Some \<lparr> ss_boot_id = i, ss_s3 = s3, ss_detail = detail \<rparr> \<rparr>)
                            (event ''SleepProbe'' (probe_note s3 detail) (emit (map E_Api calls) s)))))))"

definition standby_failed :: "rc_env \<Rightarrow> string \<Rightarrow> rs \<Rightarrow> rs" where
  "standby_failed env why s =
     warning ''StandbyFailed''
       (why @ ''; shutting down instead of standby for the next '' @ show_int (STANDBY_BACKOFF_SECS div 3600) @ ''h'')
       (upd (\<lambda>st. st\<lparr> st_standby_failed_at := Some (rv_now env) \<rparr>) s)"

section \<open>Powering on\<close>

definition release_failed_power_on :: "rc_env \<Rightarrow> rs \<Rightarrow> rs" where
  "release_failed_power_on env s =
     (let note_text = node_name env @ '' did not power on within '' @ show_nat (rv_power_on_timeout env)
            @ ''s; released, not woken again for the pools' bootFailureBackoffSeconds'';
          s = upd (\<lambda>st. st\<lparr>
                st_standby_failed_at := (if st_standby_since st \<noteq> None then Some (rv_now env) else st_standby_failed_at st),
                st_boot_failure := Some \<lparr> bf_time = rv_now env, bf_left_on = False \<rparr>,
                st_scaling_decision := None,
                st_standby_since := None,
                st_message := Some note_text \<rparr>) s;
          s = warning ''PowerOnFailed'' note_text s
      in if st_power_state (rs_st s) = PS_On then
           set_phase env Ph_BootFailed
             (upd (\<lambda>st. st\<lparr> st_forced_off_at := Some (rv_now env) \<rparr>)
               (snd (act env ''ForceOff''
                 (upd (\<lambda>st. st\<lparr> st_powered_on_not_ready_since := Some (rv_now env) \<rparr>)
                   (announce_power_off env s)))))
         else set_phase env Ph_Off s)"

definition act_power_on :: "rc_env \<Rightarrow> rs \<Rightarrow> rs" where
  "act_power_on env s =
     (case act env ''PowerOn'' s of
        (ok, s) \<Rightarrow> set_phase env (if ok then Ph_PoweringOn else Ph_Error) s)"

text \<open>The machine is on and its Node is Ready.\<close>

definition is_online :: "rc_env \<Rightarrow> rs \<Rightarrow> (string + duration) \<times> rs" where
  "is_online env s =
     (case patch_node env uncordon_if_ours s of
        (Inl e, s) \<Rightarrow> (Inl e, s)
      | (Inr _, s) \<Rightarrow>
          (case patch_node env clear_powered_off s of
             (Inl e, s) \<Rightarrow> (Inl e, s)
           | (Inr _, s) \<Rightarrow>
               (let s = (if st_phase (rs_st s) \<noteq> Ph_On
                         then event ''NodeOnline'' (''node '' @ node_name env @ '' is Ready'') s else s);
                    s = upd (\<lambda>st. st\<lparr> st_forced_off_at := None, st_standby_since := None, st_message := None \<rparr>)
                          (set_phase env Ph_On s);
                    s = (if lc_power_off_mode (lifecycle env) = ModeAuto then snd (advance_probe env s) else s)
                in (Inr SLOW, s))))"

definition keep_powering_on :: "rc_env \<Rightarrow> rs \<Rightarrow> rs" where
  "keep_powering_on env s =
     (let boot_timeout = as_i64 (rv_boot_timeout env) in
      if boot_timeout < in_phase_for env s \<and> st_standby_since (rs_st s) \<noteq> None then
        set_message (Some (''did not wake from standby within '' @ show_int boot_timeout
            @ ''s; forced off for a cold boot''))
          (set_phase env Ph_Error
            (snd (act env ''ForceOff''
              (standby_failed env (''machine did not wake from standby within '' @ show_int boot_timeout @ ''s'') s))))
      else if (st_power_state (rs_st s) = PS_Off \<or> st_standby_since (rs_st s) \<noteq> None)
              \<and> RETRY_ACTION_AFTER < since_last_action env ''PowerOn'' s then
        snd (act env ''PowerOn'' s)
      else s)"

definition ensure_on :: "rc_env \<Rightarrow> rs \<Rightarrow> (string + duration) \<times> rs" where
  "ensure_on env s =
     (let st = rs_st s; power = st_power_state st in
      if power = PS_On \<and> st_node_ready st then is_online env s
      else if power_on_attempt_of st (rv_now env) (rv_failure_policy env) (rv_power_on_timeout env) = Expired then
        (Inr FAST, release_failed_power_on env s)
      else if st_phase st = Ph_PoweringOn then (Inr FAST, keep_powering_on env s)
      else if st_phase st \<in> {Ph_PoweringOff, Ph_Standby} \<and> st_standby_since st \<noteq> None then
        (Inr FAST, act_power_on env
           (emit (map E_Api (snd (cancel (cluster_at env s) (node_name env)))) s))
      else if st_phase st = Ph_PoweringOff \<and> power = PS_On
              \<and> in_phase_for env s \<le> as_i64 (lc_shutdown_timeout_seconds (lifecycle env)) then
        (Inr FAST, set_message (Some ''waiting for shutdown to complete before powering back on'') s)
      else if power = PS_On \<and> st_standby_since st = None then
        (case patch_node env uncordon_if_ours s of
           (Inl e, s) \<Rightarrow> (Inl e, s)
         | (Inr _, s) \<Rightarrow> (Inr FAST, set_phase env Ph_PoweringOn s))
      else if st_phase st = Ph_Error \<and> since_last_action env ''PowerOn'' s < RETRY_ACTION_AFTER then
        (Inr NORMAL, s)
      else (Inr FAST, act_power_on env s))"

section \<open>Draining\<close>

definition pod_id :: "kpod \<Rightarrow> string" where
  "pod_id pod = unwrap_or (p_namespace pod) '''' @ ''/'' @ unwrap_or (p_name pod) ''''"

text \<open>The loop over the pods of the node: what still has to leave, what blocks, and the evictions
  asked for.  Whatever the API server answers to an eviction, the loop goes on.\<close>

fun drain_pods :: "kpod list \<Rightarrow> rs \<Rightarrow> string list \<times> string list \<times> rs" where
  "drain_pods [] s = ([], [], s)"
| "drain_pods (pod # pods) s =
     (case drain_class_of pod of
        DC_Ignore \<Rightarrow> drain_pods pods s
      | DC_Block why \<Rightarrow>
          (case drain_pods pods s of
             (remaining, blocked, s) \<Rightarrow> (remaining, (pod_id pod @ '' ('' @ why @ '')'') # blocked, s))
      | DC_Evict \<Rightarrow>
          (case drain_pods pods
                  (if p_deletion_timestamp pod \<noteq> None then s
                   else emit [E_Evict (unwrap_or (p_namespace pod) '''') (unwrap_or (p_name pod) '''')] s) of
             (remaining, blocked, s) \<Rightarrow> (pod_id pod # remaining, blocked, s)))"

definition power_off :: "rc_env \<Rightarrow> rs \<Rightarrow> rs" where
  "power_off env s =
     (let s = announce_power_off env s in
      set_phase env Ph_PoweringOff (snd (act env (off_action_now env s) s)))"

definition drain_summary :: "string list \<Rightarrow> string list \<Rightarrow> string" where
  "drain_summary remaining blocked =
     ''waiting for '' @ show_nat (length remaining) @ '' pod(s) to leave''
     @ (if blocked = [] then '''' else ''; blocked by '' @ join '', '' blocked)"

text \<open>Nothing is left on the node: power off, once it is known how.\<close>

definition drained :: "rc_env \<Rightarrow> rs \<Rightarrow> (string + duration) \<times> rs" where
  "drained env s =
     (let (pending, s) = (if lc_power_off_mode (lifecycle env) = ModeAuto
             then (case advance_probe env s of
                     (known, s) \<Rightarrow> (known = None \<and> in_phase_for env s \<le> PROBE_WAIT_SECS, s))
             else (False, s))
      in if pending then
           (Inr (secs 2), set_message (Some ''checking whether the machine can sleep in S3'') s)
         else (Inr FAST, power_off env (set_message None s)))"

definition abort_decision :: "rc_env \<Rightarrow> npmc_status \<Rightarrow> scaling_decision" where
  "abort_decision env st =
     \<lparr> sdn_pool = unwrap_or (opt_or (map_option sdn_pool (st_scaling_decision st))
                    (case st_pools st of [] \<Rightarrow> None | p # _ \<Rightarrow> Some p)) '''',
       sdn_target = Target_On, sdn_reason = ''scale down aborted: drain failed'', sdn_time = rv_now env \<rparr>"

definition drain_failed :: "rc_env \<Rightarrow> string \<Rightarrow> rs \<Rightarrow> (string + duration) \<times> rs" where
  "drain_failed env summary s =
     (let note_text = ''drain timed out after '' @ show_int (as_i64 (lc_drain_timeout_seconds (lifecycle env)))
            @ ''s: '' @ summary;
          s = upd (\<lambda>st. st\<lparr> st_message := Some note_text, st_drain_failed_at := Some (rv_now env) \<rparr>)
                (warning ''DrainFailed'' note_text s)
      in if nm_power_policy (rv_spec env) = Auto then
           (let s = upd (\<lambda>st. st\<lparr> st_scaling_decision := Some (abort_decision env st) \<rparr>) s in
            case patch_node env uncordon_if_ours s of
              (Inl e, s) \<Rightarrow> (Inl e, s)
            | (Inr _, s) \<Rightarrow> (Inr NORMAL, set_phase env Ph_On s))
         else (Inr NORMAL, upd (\<lambda>st. st\<lparr> st_phase_since := Some (rv_now env) \<rparr>) s))"

definition drain_timed_out :: "rc_env \<Rightarrow> rs \<Rightarrow> bool" where
  "drain_timed_out env s = (as_i64 (lc_drain_timeout_seconds (lifecycle env)) < in_phase_for env s)"

definition drain :: "rc_env \<Rightarrow> rs \<Rightarrow> (string + duration) \<times> rs" where
  "drain env s =
     (case drain_pods (pods_on (rv_pods env) (node_name env)) s of
        (remaining, blocked, s) \<Rightarrow>
          (if remaining = [] \<and> blocked = [] then drained env s
           else if \<not> drain_timed_out env s then
             (Inr (secs 5), set_message (Some (drain_summary remaining blocked)) s)
           else if lc_force_after_drain_timeout (lifecycle env) then
             (let note_text = ''drain timed out ('' @ drain_summary remaining blocked @ ''); powering off anyway'' in
              (Inr FAST, power_off env (warning ''DrainTimeout'' note_text (set_message (Some note_text) s))))
           else drain_failed env (drain_summary remaining blocked) s))"

section \<open>Powering off\<close>

text \<open>A machine in standby that is awake: it is not suspended again but drained and shut down.\<close>

definition woke_by_itself :: "rs \<Rightarrow> bool" where
  "woke_by_itself s = (st_phase (rs_st s) = Ph_Standby \<and> st_standby_since (rs_st s) \<noteq> None
     \<and> st_node_ready (rs_st s) \<and> st_power_state (rs_st s) \<noteq> PS_Off)"

definition note_wake :: "rc_env \<Rightarrow> rs \<Rightarrow> rs" where
  "note_wake env s =
     (if woke_by_itself s then
        upd (\<lambda>st. st\<lparr> st_standby_since := None \<rparr>)
          (standby_failed env ''machine woke up from standby by itself'' s)
      else s)"

definition is_offline :: "rc_env \<Rightarrow> rs \<Rightarrow> rs" where
  "is_offline env s =
     (let (p, reason, note_text) =
            (if st_standby_since (rs_st s) \<noteq> None
             then (Ph_Standby, ''Standby'', ''machine is in standby'')
             else (Ph_Off, ''PoweredOff'', ''machine is powered off''));
          s = (if st_phase (rs_st s) \<noteq> p then event reason note_text s else s)
      in upd (\<lambda>st. st\<lparr> st_forced_off_at := None, st_message := None \<rparr>) (set_phase env p s))"

definition may_force :: "rc_env \<Rightarrow> rs \<Rightarrow> bool" where
  "may_force env s = is_none_or (st_forced_off_at (rs_st s)) (\<lambda>t. RETRY_ACTION_AFTER < elapsed (rv_now env) t)"

definition keep_powering_off :: "rc_env \<Rightarrow> rs \<Rightarrow> rs" where
  "keep_powering_off env s =
     (let shutdown_timeout = as_i64 (lc_shutdown_timeout_seconds (lifecycle env));
          settle = min shutdown_timeout STANDBY_SETTLE_SECS
      in if st_standby_since (rs_st s) \<noteq> None \<and> settle < in_phase_for env s then
           upd (\<lambda>st. st\<lparr> st_phase_since := Some (rv_now env) \<rparr>)
             (snd (act env ''PowerOff''
               (standby_failed env (''machine did not stay in standby (still up '' @ show_int settle
                  @ ''s after suspending)'') s)))
         else if shutdown_timeout < in_phase_for env s then
           (if may_force env s then
              upd (\<lambda>st. st\<lparr> st_forced_off_at := Some (rv_now env), st_standby_since := None \<rparr>)
                (snd (act env ''ForceOff''
                  (set_message (Some (''graceful shutdown did not finish within '' @ show_int shutdown_timeout
                     @ ''s; forcing power off'')) s)))
            else s)
         else if is_some_and (st_last_power_action (rs_st s)) (\<lambda>a. \<not> pa_succeeded a)
                 \<and> RETRY_ACTION_AFTER div 3 < since_last_action env (off_action_now env s) s then
           snd (act env (off_action_now env s) s)
         else s)"

definition start_drain :: "rc_env \<Rightarrow> rs \<Rightarrow> (string + duration) \<times> rs" where
  "start_drain env s =
     (case rv_node env of
        Some node \<Rightarrow>
          (case patch_node env cordon s of
             (Inl e, s) \<Rightarrow> (Inl e, s)
           | (Inr _, s) \<Rightarrow>
               (Inr (secs 2), set_phase env Ph_Draining
                  (event ''Draining'' (''cordoned node '' @ no_name node @ ''; evicting pods'') s)))
      | None \<Rightarrow>
          (Inr NORMAL, set_message (Some (''refusing to power off: Node '' @ node_name env
             @ '' not found, cannot drain'')) s))"

definition ensure_off :: "rc_env \<Rightarrow> rs \<Rightarrow> (string + duration) \<times> rs" where
  "ensure_off env s =
     (let power = st_power_state (rs_st s);
          s = note_wake env s;
          st = rs_st s;
          suspended = in_standby (st_phase st) (st_standby_since st \<noteq> None) (st_node_ready st)
      in if power = PS_Off \<or> suspended then (Inr SLOW, is_offline env s)
         else (case st_phase st of
                 Ph_PoweringOff \<Rightarrow> (Inr FAST, keep_powering_off env s)
               | Ph_Draining \<Rightarrow> drain env s
               | _ \<Rightarrow> start_drain env s))"

section \<open>Changes made by someone else, and boots\<close>

fun show_manual_policy :: "manual_power_on_policy \<Rightarrow> string" where
  "show_manual_policy LeaveOn = ''LeaveOn''"
| "show_manual_policy Adopt = ''Adopt''"
| "show_manual_policy ManualPowerOff = ''PowerOff''"

fun manual_policy_text :: "manual_power_on_policy \<Rightarrow> string" where
  "manual_policy_text LeaveOn = ''not managing it while it stays on''"
| "manual_policy_text Adopt = ''managing it as if its pool had powered it on''"
| "manual_policy_text ManualPowerOff = ''powering it off again after the pool's grace period''"

definition on_manual_change :: "rc_env \<Rightarrow> manual_change \<Rightarrow> rs \<Rightarrow> rs" where
  "on_manual_change env change s =
     (case change of
        MC_None \<Rightarrow> s
      | MC_PoweredOn \<Rightarrow>
          (let policy = rv_manual_policy env in
           event ''ManualPowerOn'' (node_name env @ '' powered on outside the autoscaler; policy ''
               @ show_manual_policy policy @ '': '' @ manual_policy_text policy)
             (upd (\<lambda>st. st\<lparr> st_manual_power_on := Some \<lparr> mc_time = rv_now env, mc_policy = Some policy \<rparr>,
                    st_scaling_decision := None, st_standby_since := None, st_boot_failure := None \<rparr>) s))
      | MC_PoweredOff \<Rightarrow>
          event ''ManualPowerOff'' (node_name env @ '' powered off outside the autoscaler; back under management'')
            (upd (\<lambda>st. st\<lparr> st_manual_power_on := None,
                   st_manual_power_off := Some \<lparr> mc_time = rv_now env, mc_policy = None \<rparr>,
                   st_scaling_decision := None,
                   st_boot_failure := (if is_some_and (st_boot_failure st) bf_left_on then None
                                       else st_boot_failure st) \<rparr>) s))"

fun show_power_policy :: "power_policy \<Rightarrow> string" where
  "show_power_policy Auto = ''Auto''"
| "show_power_policy AlwaysOn = ''AlwaysOn''"
| "show_power_policy AlwaysOff = ''AlwaysOff''"

definition boot_failed_text :: "rc_env \<Rightarrow> bool \<Rightarrow> string" where
  "boot_failed_text env leave =
     (if nm_power_policy (rv_spec env) \<noteq> Auto then
        ''left as it is: powerPolicy is '' @ show_power_policy (nm_power_policy (rv_spec env))
      else if leave then ''left on: it was powered on by hand and the policy is LeaveOn''
      else ''powering it off; it is not woken again for the pools' bootFailureBackoffSeconds'')"

definition on_boot_failed :: "rc_env \<Rightarrow> rs \<Rightarrow> rs" where
  "on_boot_failed env s =
     (let leave = boot_failure_leaves_on (rs_st s) (nm_power_policy (rv_spec env)) (rv_manual_policy env);
          note_text = node_name env @ '' powered on '' @ show_nat (rv_boot_timeout env div 60)
            @ ''m+ without its Node becoming Ready; boot failed, '' @ boot_failed_text env leave;
          s = upd (\<lambda>st. st\<lparr>
                st_boot_failure := map_option (\<lambda>f. f\<lparr> bf_left_on := leave \<rparr>) (st_boot_failure st),
                st_scaling_decision := None, st_message := Some note_text \<rparr>) s;
          s = warning ''BootFailed'' note_text (set_phase env Ph_BootFailed s)
      in if leave then s else snd (act env ''PowerOff'' (announce_power_off env s)))"

definition on_boot :: "rc_env \<Rightarrow> boot_event \<Rightarrow> rs \<Rightarrow> duration option \<times> rs" where
  "on_boot env ev s =
     (case ev of
        BE_Recovered \<Rightarrow>
          (None, event ''BootRecovered'' (node_name env @ '' is Ready after all; managed normally again'') s)
      | BE_Failed \<Rightarrow> (Some FAST, on_boot_failed env s)
      | BE_None \<Rightarrow>
          (case st_boot_failure (rs_st s) of
             None \<Rightarrow> (None, s)
           | Some failure \<Rightarrow>
               (if st_node_ready (rs_st s) \<or> st_power_state (rs_st s) \<noteq> PS_On
                   \<or> \<not> failure_is_current (rs_st s) then (None, s)
                else
                  (let s = set_phase env Ph_BootFailed s in
                   (Some FAST,
                    if \<not> bf_left_on failure
                       \<and> min (as_i64 (lc_shutdown_timeout_seconds (lifecycle env))) STANDBY_SETTLE_SECS
                           < elapsed (rv_now env) (bf_time failure)
                       \<and> may_force env s
                    then upd (\<lambda>st. st\<lparr> st_forced_off_at := Some (rv_now env) \<rparr>) (snd (act env ''ForceOff'' s))
                    else s)))))"

definition observe :: "rc_env \<Rightarrow> rs \<Rightarrow> duration \<times> rs" where
  "observe env s =
     (let st = rs_st s in
      (SLOW,
       if in_standby (st_phase st) (st_standby_since st \<noteq> None) (st_node_ready st) then s
       else set_phase env
         (case st_power_state st of
            PS_On \<Rightarrow> if st_node_ready st then Ph_On else Ph_PoweringOn
          | PS_Off \<Rightarrow> Ph_Off
          | PS_Unknown \<Rightarrow> Ph_Unknown) s))"

end
