(* ===== verification/NodeController.thy ===== *)
theory NodeController
  imports Reconciler Membership Resources
begin

text \<open>
  \<^verbatim>\<open>reconcile\<close> of \<^verbatim>\<open>controller/node_power_management_config.rs\<close>: one reconciliation of a
  machine, from the live object through the four safety gates to the \<^verbatim>\<open>Reconciler\<close>'s pass and the
  status patch.  What the operator sees of the cluster and the machine is the record
  \<^verbatim>\<open>node_env\<close>; the result is what it did, the status it wrote and when it wants to run again.
\<close>

section \<open>What a reconciliation sees and produces\<close>

record node_env =
  ne_object :: "string + npmc option"
  ne_nodes :: "string \<Rightarrow> knode option"
  ne_pools :: "pool list"
  ne_pods :: "kpod list"
  ne_drivers :: driver_context
  ne_dry_run :: bool
  ne_cache :: identity_cache
  ne_cache_now :: instant
  ne_now :: instant
  ne_lease :: "string \<Rightarrow> string + int option option"
  ne_cluster :: "nat \<Rightarrow> cluster"
  ne_patch_answer :: "nat \<Rightarrow> string + unit"
  ne_status_answer :: "string + unit"
  ne_rfc3339 :: "instant \<Rightarrow> string"

record pass_result =
  pr_result :: "string + duration option"
  pr_log :: "effect list"
  pr_written :: "npmc_status option"
  pr_cache :: identity_cache

text \<open>The status patch: nothing is sent when nothing changed.\<close>

definition finish ::
    "node_env \<Rightarrow> npmc_status \<Rightarrow> npmc_status \<Rightarrow> effect list \<Rightarrow> identity_cache \<Rightarrow> duration \<Rightarrow> pass_result" where
  "finish env old st log cache requeue =
     \<lparr> pr_result = (if st = old then Inr (Some requeue)
                    else case ne_status_answer env of Inl e \<Rightarrow> Inl e | Inr _ \<Rightarrow> Inr (Some requeue)),
       pr_log = log, pr_written = (if st = old then None else Some st), pr_cache = cache \<rparr>"

section \<open>Gate 1: the Node\<close>

definition note_node :: "knode \<Rightarrow> npmc_status \<Rightarrow> npmc_status" where
  "note_node n st =
     (let alloc = node_allocatable n in
      st\<lparr> st_allocatable := (if 0 < cpu_millis alloc then Some alloc else st_allocatable st),
          st_extended_resources :=
            foldl (\<lambda>m (name, amount). if 0 < amount then bt_insert name amount m else m)
              (st_extended_resources st) (node_extended n),
          st_node_labels := Some (no_labels n) \<rparr>)"

definition gate_node :: "instant \<Rightarrow> npmc_spec \<Rightarrow> knode option \<Rightarrow> npmc_status \<Rightarrow> npmc_status" where
  "gate_node now spec node st =
     (let st = st\<lparr> st_node_ready := is_some_and node node_ready \<rparr> in
      case node of
        Some n \<Rightarrow> status_set_condition (note_node n st) COND_NODE_FOUND ''True'' ''NodeFound'' '''' now
      | None \<Rightarrow> status_set_condition st COND_NODE_FOUND ''False'' ''NodeNotFound''
          (''Node '' @ nm_node_name spec @ '' does not exist; no power actions are taken'') now)"

section \<open>Gate 2: pool membership\<close>

definition membership_condition :: "instant \<Rightarrow> membership \<Rightarrow> npmc_status \<Rightarrow> npmc_status" where
  "membership_condition now m st =
     (case m of
        Member ps \<Rightarrow> status_set_condition st COND_POOL_MEMBERSHIP ''True'' ''InPool''
          (case ps of
             [p] \<Rightarrow> ''selected by NodeScalingPool '' @ p
           | _ \<Rightarrow> ''selected by NodeScalingPools '' @ join '', '' ps
               @ '' (any may power it on; all must agree to power it off)'') now
      | NotInPool \<Rightarrow> status_set_condition st COND_POOL_MEMBERSHIP ''False'' ''NotInPool''
          ''no NodeScalingPool selects this Node'' now
      | NoNode \<Rightarrow> status_set_condition st COND_POOL_MEMBERSHIP ''False'' ''NodeNotFound'' '''' now)"

definition gate_pools :: "instant \<Rightarrow> membership \<Rightarrow> npmc_status \<Rightarrow> npmc_status" where
  "gate_pools now m st =
     (let pools = membership_pools m;
          st = membership_condition now m
            (st\<lparr> st_pools := pools, st_pool := (if pools = [] then None else Some (join '','' pools)) \<rparr>)
      in if is_some_and (st_scaling_decision st) (\<lambda>d. sdn_pool d \<notin> set (st_pools st))
         then st\<lparr> st_scaling_decision := None \<rparr> else st)"

section \<open>Gate 3: identity\<close>

type_synonym identity_results = "(string \<times> identity_check \<times> bool) list"

text \<open>The cached results, or fresh ones, cached when all of them are.\<close>

definition identify ::
    "identity_cache \<Rightarrow> instant \<Rightarrow> identity_key \<Rightarrow> power_chain \<Rightarrow> string option \<Rightarrow> identity_results \<times> identity_cache" where
  "identify cache now key chain node_uuid =
     (case identity_get cache now key of
        Some cached \<Rightarrow> (map (\<lambda>(l, r). (l, r, True)) cached, cache)
      | None \<Rightarrow>
          (let fresh = check_identity chain node_uuid in
           (fresh,
            if list_all (\<lambda>(l, r, cacheable). cacheable) fresh
            then identity_put cache now key (map (\<lambda>(l, r, _). (l, r)) fresh) else cache)))"

definition mismatched_labels :: "identity_results \<Rightarrow> string list" where
  "mismatched_labels results =
     map fst (filter (\<lambda>(_, r, _). case r of Mismatch a b \<Rightarrow> True | _ \<Rightarrow> False) results)"

definition verified_labels :: "identity_results \<Rightarrow> string list" where
  "verified_labels results = map fst (filter (\<lambda>(_, r, _). r = Match) results)"

definition gate_identity ::
    "instant \<Rightarrow> npmc_spec \<Rightarrow> npmc_status \<Rightarrow> identity_results \<Rightarrow> npmc_status \<Rightarrow> npmc_status \<times> effect list" where
  "gate_identity now spec old results st =
     (let mismatched = mismatched_labels results; verified = verified_labels results in
      if mismatched \<noteq> [] then
        (status_set_condition st COND_IDENTITY_VERIFIED ''False'' ''Mismatch''
           (join '', '' mismatched @ '' report a different system UUID than the Node; disabled'') now,
         if condition_is_true old COND_IDENTITY_VERIFIED
            \<or> \<not> list_ex (\<lambda>c. c_type c = COND_IDENTITY_VERIFIED \<and> c_reason c = ''Mismatch'') (st_conditions old)
         then [E_Event True ''IdentityMismatch'' (''interfaces '' @ join '', '' mismatched
                 @ '' control a different machine than Node '' @ nm_node_name spec @ ''; they are disabled'')]
         else [])
      else if verified \<noteq> [] then
        (status_set_condition st COND_IDENTITY_VERIFIED ''True'' ''Verified''
           (''system UUID confirmed via '' @ join '', '' verified) now, [])
      else
        (status_set_condition st COND_IDENTITY_VERIFIED ''Unknown'' ''NotVerifiable''
           ''no interface can report a system UUID; relying on the power state consistency check'' now, []))"

section \<open>Gate 4: the power reading\<close>

text \<open>The age of the kubelet's lease, when it could be read and has been renewed at a second.\<close>

definition lease_age_secs :: "node_env \<Rightarrow> string \<Rightarrow> int option" where
  "lease_age_secs env node =
     (case ne_lease env node of
        Inr (Some (Some second)) \<Rightarrow> Some (num_seconds (ne_now env - secs second))
      | _ \<Rightarrow> None)"

definition reading_consistent :: "node_env \<Rightarrow> npmc_spec \<Rightarrow> npmc_status \<Rightarrow> bool" where
  "reading_consistent env spec st =
     power_state_consistent (st_power_state st) (st_node_ready st)
       (if st_power_state st = PS_Off \<and> st_node_ready st then lease_age_secs env (nm_node_name spec) else None)
       (action_age st (ne_now env) [''PowerOff'', ''ForceOff'', ''Standby''])"

definition gate_reading :: "instant \<Rightarrow> bool \<Rightarrow> npmc_status \<Rightarrow> npmc_status \<Rightarrow> npmc_status \<times> effect list" where
  "gate_reading now consistent old st =
     (if consistent then
        (status_set_condition st COND_POWER_STATE_CONSISTENT ''True'' ''Consistent'' '''' now, [])
      else
        (status_set_condition st COND_POWER_STATE_CONSISTENT ''False'' ''InterfaceReportsOffButNodeIsAlive''
           ''the interface reports Off, yet the Node is Ready and its kubelet lease is fresh; check that the interface points at this machine'' now,
         if condition_is_true old COND_POWER_STATE_CONSISTENT \<or> st_conditions old = []
         then [E_Event True ''PowerStateMismatch'' ''an interface reports Off while the Node's kubelet is alive; it probably controls a different machine. Power actions are disabled.'']
         else []))"

section \<open>Settings and the pass\<close>

definition member_pools :: "node_env \<Rightarrow> npmc_status \<Rightarrow> pool list" where
  "member_pools env st = filter (\<lambda>p. po_name p \<in> set (st_pools st)) (ne_pools env)"

definition boot_timeout_for :: "node_env \<Rightarrow> npmc_spec \<Rightarrow> npmc_status \<Rightarrow> nat" where
  "boot_timeout_for env spec st =
     effective_boot_timeout (lc_boot_timeout_seconds (nm_lifecycle spec))
       (map (\<lambda>p. su_boot_timeout_seconds (ps_scale_up (po_spec p))) (member_pools env st))"

definition deciding_pool :: "npmc_status \<Rightarrow> string option" where
  "deciding_pool st =
     (case st_scaling_decision st of
        Some d \<Rightarrow> if sdn_target d = Target_On then Some (sdn_pool d) else None
      | None \<Rightarrow> None)"

definition pass_env :: "node_env \<Rightarrow> npmc_spec \<Rightarrow> power_chain \<Rightarrow> npmc_status \<Rightarrow> rc_env" where
  "pass_env env spec chain st =
     (let pools = member_pools env st;
          boot_timeout = boot_timeout_for env spec st;
          (policy, timeout) = effective_power_on_failure (deciding_pool st)
             (map (\<lambda>p. (po_name p, ps_scale_up (po_spec p))) pools) boot_timeout
      in \<lparr> rv_spec = spec, rv_dry_run = ne_dry_run env, rv_chain = chain,
           rv_node = ne_nodes env (nm_node_name spec), rv_pods = ne_pods env, rv_now = ne_now env,
           rv_boot_timeout = boot_timeout,
           rv_manual_policy = effective_manual_power_on_policy (nm_manual_power_on_policy spec)
             (map (\<lambda>p. ps_manual_power_on_policy (po_spec p)) pools),
           rv_failure_policy = policy, rv_power_on_timeout = timeout,
           rv_cluster = ne_cluster env, rv_patch_answer = ne_patch_answer env,
           rv_rfc3339 = ne_rfc3339 env \<rparr>)"

text \<open>What happens after the handling of manual changes and boots.\<close>

definition steer :: "rc_env \<Rightarrow> bool \<Rightarrow> rs \<Rightarrow> (string + duration) \<times> rs" where
  "steer renv consistent s =
     (if rv_node renv = None \<or> \<not> consistent then
        (case observe renv (set_message (Some
               (if rv_node renv = None
                then ''Node '' @ node_name renv @ '' not found: observing only, no power actions''
                else ''power state contradicts the live Node: observing only, no power actions'')) s) of
           (requeue, s) \<Rightarrow> (Inr requeue, s))
      else
        (case managed_target (nm_power_policy (rv_spec renv)) (rs_st s) (rv_manual_policy renv) of
           None \<Rightarrow> (case observe renv s of (requeue, s) \<Rightarrow> (Inr requeue, s))
         | Some Target_On \<Rightarrow> ensure_on renv s
         | Some Target_Off \<Rightarrow> ensure_off renv s))"

definition clear_manual_on :: "manual_change \<Rightarrow> npmc_status \<Rightarrow> npmc_status" where
  "clear_manual_on change st =
     (if st_power_state st = PS_Off \<and> \<not> st_node_ready st \<and> change \<noteq> MC_PoweredOn
      then st\<lparr> st_manual_power_on := None \<rparr> else st)"

definition drive :: "rc_env \<Rightarrow> npmc_status \<Rightarrow> bool \<Rightarrow> rs \<Rightarrow> (string + duration) \<times> rs" where
  "drive renv old consistent s =
     (let change = detect_manual_change old (rs_st s) (rv_now renv) (rv_boot_timeout renv)
            (lc_shutdown_timeout_seconds (lifecycle renv));
          (st, ev) = track_boot (clear_manual_on change (rs_st s)) (rv_now renv) (rv_boot_timeout renv);
          s = on_manual_change renv change (s\<lparr> rs_st := st \<rparr>)
      in case on_boot renv ev s of
           (Some requeue, s) \<Rightarrow> (Inr requeue, s)
         | (None, s) \<Rightarrow> steer renv consistent s)"

section \<open>One reconciliation\<close>

definition reconcile_with ::
    "node_env \<Rightarrow> npmc_spec \<Rightarrow> npmc_status \<Rightarrow> npmc_status \<Rightarrow> power_chain \<Rightarrow> effect list \<Rightarrow> identity_cache \<Rightarrow> pass_result" where
  "reconcile_with env spec old st chain log cache =
     (case fst (chain_power_state chain) of
        Inl e \<Rightarrow>
          finish env old (st\<lparr> st_interface_warnings := ch_unavailable chain, st_power_state := PS_Unknown,
             st_message := Some (''cannot read power state: '' @ e) \<rparr>) log cache NORMAL
      | Inr oc \<Rightarrow>
          (let st = st\<lparr> st_power_state := oc_value oc, st_interface_warnings := oc_failures oc \<rparr>;
               consistent = reading_consistent env spec st;
               (st, log4) = gate_reading (ne_now env) consistent old st
           in case drive (pass_env env spec chain st) old consistent
                     \<lparr> rs_st = st, rs_log = log @ log4 \<rparr> of
                (Inl e, s) \<Rightarrow> \<lparr> pr_result = Inl e, pr_log = rs_log s, pr_written = None, pr_cache = cache \<rparr>
              | (Inr requeue, s) \<Rightarrow> finish env old (rs_st s) (rs_log s) cache requeue))"

definition gated_status :: "node_env \<Rightarrow> npmc_spec \<Rightarrow> npmc_status \<Rightarrow> npmc_status" where
  "gated_status env spec old =
     (let node = ne_nodes env (nm_node_name spec) in
      gate_pools (ne_now env) (resolve (map_option no_labels node) (ne_pools env))
        (gate_node (ne_now env) spec node old))"

definition reconcile_machine :: "node_env \<Rightarrow> npmc \<Rightarrow> pass_result" where
  "reconcile_machine env mn =
     (let old = unwrap_or (np_status mn) default_npmc_status;
          spec = np_spec mn;
          st = gated_status env spec old
      in case build_chain (ne_drivers env) spec of
           Inl e \<Rightarrow>
             finish env old (st\<lparr> st_phase := Ph_Error, st_message := Some e, st_power_state := PS_Unknown,
                st_interface_warnings := [] \<rparr>) [] (ne_cache env) SLOW
         | Inr chain \<Rightarrow>
             (let (identity, cache) = identify (ne_cache env) (ne_cache_now env)
                     (np_name mn, unwrap_or (np_generation mn) 0) chain
                     (Option.bind (ne_nodes env (nm_node_name spec)) no_system_uuid);
                  (st, log3) = gate_identity (ne_now env) spec old identity st
              in reconcile_with env spec old st (disable_mismatched chain identity) log3 cache))"

definition reconcile :: "node_env \<Rightarrow> pass_result" where
  "reconcile env =
     (case ne_object env of
        Inl e \<Rightarrow> \<lparr> pr_result = Inl e, pr_log = [], pr_written = None, pr_cache = ne_cache env \<rparr>
      | Inr None \<Rightarrow> \<lparr> pr_result = Inr None, pr_log = [], pr_written = None, pr_cache = ne_cache env \<rparr>
      | Inr (Some mn) \<Rightarrow> reconcile_machine env mn)"

end
