(* ===== verification/Reconciler_Safety.thy ===== *)
theory Reconciler_Safety
  imports NodeController
begin

text \<open>
  What a reconciliation of a machine may do to its power: which commands each step of the
  \<^verbatim>\<open>Reconciler\<close> sends, and what has to hold before it sends them.
\<close>

section \<open>Commands\<close>

text \<open>The effects that change a machine's power, and those that would in earnest.\<close>

fun is_command :: "effect \<Rightarrow> bool" where
  "is_command (E_PowerOn _) = True"
| "is_command (E_PowerOff _ _) = True"
| "is_command (E_DryRun _) = True"
| "is_command (E_Api (CreateHostPod _)) = True"
| "is_command _ = False"

fun is_real_command :: "effect \<Rightarrow> bool" where
  "is_real_command (E_DryRun _) = False"
| "is_real_command e = is_command e"

definition commands :: "rs \<Rightarrow> effect list" where
  "commands s = filter is_command (rs_log s)"

definition command_of :: "rc_env \<Rightarrow> string \<Rightarrow> rs \<Rightarrow> effect list" where
  "command_of env a s = filter is_command (snd (execute env a s))"

abbreviation last_action :: "rs \<Rightarrow> power_action_record option" where
  "last_action s \<equiv> st_last_power_action (rs_st s)"

text \<open>Whether the action on record is the given one of this pass.\<close>

definition acted :: "rc_env \<Rightarrow> string \<Rightarrow> rs \<Rightarrow> bool" where
  "acted env a s = is_some_and (last_action s) (\<lambda>r. pa_action r = a \<and> pa_time r = rv_now env)"

named_theorems cmd_simps \<open>what the steps of a pass add to the commands, and what they leave on record\<close>

lemma commands_upd [cmd_simps]: "commands (upd f s) = commands s" "rs_st (upd f s) = f (rs_st s)"
  by (simp_all add: commands_def upd_def)

lemma commands_emit [cmd_simps]: "commands (emit es s) = commands s @ filter is_command es" "rs_st (emit es s) = rs_st s"
  by (simp_all add: commands_def emit_def)

lemma commands_event [cmd_simps]: "commands (event r n s) = commands s" "commands (warning r n s) = commands s"
    "rs_st (event r n s) = rs_st s" "rs_st (warning r n s) = rs_st s"
  by (simp_all add: event_def warning_def cmd_simps)

lemma commands_set_message [cmd_simps]: "commands (set_message m s) = commands s" "last_action (set_message m s) = last_action s"
  by (simp_all add: set_message_def cmd_simps)

lemma commands_set_phase [cmd_simps]: "commands (set_phase env p s) = commands s" "last_action (set_phase env p s) = last_action s"
  by (simp_all add: set_phase_def cmd_simps)

lemma commands_send_patch [cmd_simps]: "commands (snd (send_patch env n p s)) = commands s"
    "rs_st (snd (send_patch env n p s)) = rs_st s"
  by (simp_all add: send_patch_def cmd_simps)

lemma commands_patch_node: "commands (snd (patch_node env f s)) = commands s \<and> rs_st (snd (patch_node env f s)) = rs_st s"
  by (simp add: patch_node_def cmd_simps split: option.split)

lemma commands_patch_node' [cmd_simps]: "patch_node env f s = (r, s') \<Longrightarrow> commands s' = commands s"
    "patch_node env f s = (r, s') \<Longrightarrow> rs_st s' = rs_st s"
  by (metis commands_patch_node snd_conv)+

lemma commands_announce [cmd_simps]: "commands (announce_power_off env s) = commands s"
    "rs_st (announce_power_off env s) = rs_st s"
  by (simp_all add: announce_power_off_def cmd_simps)

lemma commands_report [cmd_simps]: "commands (report_action a r s) = commands s" "last_action (report_action a r s) = last_action s"
  by (cases r; simp add: report_action_def cmd_simps)+

lemma commands_act: "commands (snd (act env a s)) = commands s @ command_of env a s"
  by (simp add: act_def command_of_def cmd_simps split: prod.split)

lemma acted_act [cmd_simps]: "acted env a (snd (act env a s))"
  by (simp add: act_def acted_def record_action_def cmd_simps split: prod.split)

lemma acted_after [cmd_simps]:
  "(\<And>st. st_last_power_action (f st) = st_last_power_action st) \<Longrightarrow> acted env a (upd f s) = acted env a s"
  "acted env a (set_message m s) = acted env a s" "acted env a (set_phase env' p s) = acted env a s"
  by (simp_all add: acted_def cmd_simps)

lemma commands_act' [cmd_simps]: "act env a s = (ok, s') \<Longrightarrow> commands s' = commands s @ command_of env a s"
    "act env a s = (ok, s') \<Longrightarrow> acted env a s'"
  by (metis commands_act acted_act snd_conv)+

lemma commands_standby_failed [cmd_simps]: "commands (standby_failed env why s) = commands s" "last_action (standby_failed env why s) = last_action s"
  by (simp_all add: standby_failed_def cmd_simps)

lemma no_host_pod_probe: "filter is_command (map E_Api (snd (probe_sleep cl n))) = []"
  by (auto simp: probe_sleep_def Let_def split: sum.split option.split probe.split)

lemma no_host_pod_cancel: "filter is_command (map E_Api (snd (cancel cl n))) = []"
  by (simp add: cancel_def)

lemma commands_advance_probe:
  "commands (snd (advance_probe env s)) = commands s \<and> last_action (snd (advance_probe env s)) = last_action s"
proof (cases "s3_known env s")
  case None
  then show ?thesis
    using no_host_pod_probe [of "cluster_at env s" "node_name env"]
    by (cases "probe_sleep (cluster_at env s) (node_name env)")
       (simp add: advance_probe_def cmd_simps split: option.split)
qed (simp add: advance_probe_def)

lemma commands_advance_probe' [cmd_simps]: "advance_probe env s = (r, s') \<Longrightarrow> commands s' = commands s"
    "advance_probe env s = (r, s') \<Longrightarrow> last_action s' = last_action s"
  by (metis commands_advance_probe snd_conv)+

lemma commands_drain_pods:
  "commands (snd (snd (drain_pods pods s))) = commands s \<and> rs_st (snd (snd (drain_pods pods s))) = rs_st s"
  by (induction pods s rule: drain_pods.induct)
     (auto simp: cmd_simps split: drain_class.split prod.split if_splits)

lemma commands_drain_pods' [cmd_simps]: "drain_pods pods s = (r, b, s') \<Longrightarrow> commands s' = commands s"
    "drain_pods pods s = (r, b, s') \<Longrightarrow> rs_st s' = rs_st s"
  by (metis commands_drain_pods snd_conv)+

lemma commands_note_wake [cmd_simps]: "commands (note_wake env s) = commands s" "last_action (note_wake env s) = last_action s"
  by (simp_all add: note_wake_def cmd_simps)

lemma commands_is_offline [cmd_simps]: "commands (is_offline env s) = commands s" "last_action (is_offline env s) = last_action s"
  by (simp_all add: is_offline_def Let_def cmd_simps)

lemma commands_on_manual_change [cmd_simps]: "commands (on_manual_change env c s) = commands s" "last_action (on_manual_change env c s) = last_action s"
  by (cases c; simp add: on_manual_change_def Let_def cmd_simps)+

lemma commands_observe [cmd_simps]: "commands (snd (observe env s)) = commands s" "last_action (snd (observe env s)) = last_action s"
  by (simp_all add: observe_def Let_def cmd_simps)

text \<open>One action is at most one command, and none in earnest in a dry run.\<close>

lemma filter_api_calls: "filter is_command (map E_Api calls) = map E_Api (filter (is_command \<circ> E_Api) calls)"
  by (simp add: filter_map)

lemma run_calls: "snd (run cl n cmd) = [] \<or> snd (run cl n cmd) = [DeletePod (pod_name n)]
    \<or> (\<exists>node. snd (run cl n cmd) = [DeletePod (pod_name n), CreateHostPod (host_pod_for cl n node cmd)])"
  by (auto simp: run_def cancel_def split: sum.split option.split)

lemma command_of_length: "length (command_of env a s) \<le> 1"
  using run_calls [of "cluster_at env s" "node_name env" "suspend_command env"]
  by (auto simp: command_of_def execute_def split: prod.split sum.split)

lemma command_of_dry: "rv_dry_run env \<Longrightarrow> command_of env a s = [E_DryRun a]"
  by (simp add: command_of_def execute_def)

text \<open>A step that sends nothing, or acts once: then the action is on record.\<close>

definition sends :: "rc_env \<Rightarrow> string set \<Rightarrow> rs \<Rightarrow> rs \<Rightarrow> bool" where
  "sends env A s s' = (commands s' = commands s \<and> last_action s' = last_action s
     \<or> (\<exists>a \<in> A. \<exists>s0. commands s' = commands s @ command_of env a s0 \<and> acted env a s'))"

lemma sends_none [intro]: "commands s' = commands s \<Longrightarrow> last_action s' = last_action s \<Longrightarrow> sends env A s s'"
  by (simp add: sends_def)

lemma sends_one [intro]:
  "commands s' = commands s @ command_of env a s0 \<Longrightarrow> acted env a s' \<Longrightarrow> a \<in> A \<Longrightarrow> sends env A s s'"
  by (auto simp: sends_def)

lemma sends_mono: "sends env A s s' \<Longrightarrow> A \<subseteq> B \<Longrightarrow> sends env B s s'"
  by (auto simp: sends_def)

lemma sends_after: "sends env A s1 s' \<Longrightarrow> commands s1 = commands s \<Longrightarrow> last_action s1 = last_action s \<Longrightarrow> sends env A s s'"
  by (simp add: sends_def)

lemma off_action_names: "off_action m f k now = ''PowerOff'' \<or> off_action m f k now = ''Standby''"
  by (auto simp: off_action_def split: power_off_mode.split)

section \<open>What each step sends\<close>

lemma release_sends: "sends env {''ForceOff''} s (release_failed_power_on env s)"
  by (auto simp: release_failed_power_on_def Let_def cmd_simps commands_act)

lemma act_power_on_sends: "sends env {''PowerOn''} s (act_power_on env s)"
  by (auto simp: act_power_on_def cmd_simps split: prod.split)

lemma is_online_sends: "sends env {} s (snd (is_online env s))"
  by (rule sends_none)
     (auto simp: is_online_def Let_def cmd_simps commands_advance_probe split: prod.split sum.split)

lemma keep_powering_on_sends: "sends env {''PowerOn'', ''ForceOff''} s (keep_powering_on env s)"
  by (auto simp: keep_powering_on_def Let_def cmd_simps commands_act)

lemma ensure_on_sends: "sends env {''PowerOn'', ''ForceOff''} s (snd (ensure_on env s))"
proof -
  let ?A = "{''PowerOn'', ''ForceOff''}"
  let ?s = "emit (map E_Api (snd (cancel (cluster_at env s) (node_name env)))) s"
  have c: "commands ?s = commands s" "last_action ?s = last_action s"
    using no_host_pod_cancel [of "cluster_at env s" "node_name env"] by (simp_all add: cmd_simps)
  have 1: "sends env ?A s (act_power_on env ?s)"
    by (rule sends_after [OF sends_mono [OF act_power_on_sends] c]) simp
  have 2: "sends env ?A s (snd (case patch_node env uncordon_if_ours s of
      (Inl e, s) \<Rightarrow> (Inl e, s) | (Inr _, s) \<Rightarrow> (Inr FAST, set_phase env Ph_PoweringOn s)))"
    by (rule sends_none) (auto simp: cmd_simps split: prod.split sum.split)
  have 3: "sends env ?A s (snd (is_online env s))" by (rule sends_mono [OF is_online_sends]) simp
  have 4: "sends env ?A s (release_failed_power_on env s)" by (rule sends_mono [OF release_sends]) simp
  have 5: "sends env ?A s (act_power_on env s)" by (rule sends_mono [OF act_power_on_sends]) simp
  have 6: "sends env ?A s (set_message m s)" "sends env ?A s s" for m
    by (rule sends_none; simp add: cmd_simps)+
  show ?thesis unfolding ensure_on_def Let_def using 1 2 3 4 5 6 keep_powering_on_sends by simp
qed

lemma off_action_now_names: "off_action_now env s \<in> {''PowerOff'', ''Standby''}"
  using off_action_names by (auto simp: off_action_now_def)

lemma commands_power_off:
  "commands (power_off env s) = commands s @
     command_of env (off_action_now env (announce_power_off env s)) (announce_power_off env s)"
  by (simp add: power_off_def Let_def cmd_simps commands_act)

lemma power_off_sends: "sends env {''PowerOff'', ''Standby''} s (power_off env s)"
  by (rule sends_one [OF commands_power_off]) (simp add: power_off_def Let_def cmd_simps, rule off_action_now_names)

lemma drained_sends: "sends env {''PowerOff'', ''Standby''} s (snd (drained env s))"
proof -
  have "sends env {''PowerOff'', ''Standby''} s (power_off env (set_message None s'))"
    if "commands s' = commands s" "last_action s' = last_action s" for s'
    by (rule sends_after [OF power_off_sends]) (simp_all add: cmd_simps that)
  then show ?thesis
    by (auto simp: drained_def Let_def cmd_simps split: prod.split)
qed

lemma commands_drain_failed:
  "commands (snd (drain_failed env summary s)) = commands s
   \<and> last_action (snd (drain_failed env summary s)) = last_action s"
  by (auto simp: drain_failed_def Let_def cmd_simps split: prod.split sum.split)

lemma drain_sends: "sends env {''PowerOff'', ''Standby''} s (snd (drain env s))"
proof -
  obtain r b s1 where d: "drain_pods (pods_on (rv_pods env) (node_name env)) s = (r, b, s1)"
    by (metis prod_cases3)
  then have c: "commands s1 = commands s" "last_action s1 = last_action s" by (simp_all add: cmd_simps)
  have "sends env {''PowerOff'', ''Standby''} s (snd (drained env s1))"
    by (rule sends_after [OF drained_sends c])
  moreover have "sends env {''PowerOff'', ''Standby''} s (power_off env (warning n m (set_message k s1)))" for n m k
    by (rule sends_after [OF power_off_sends]) (simp_all add: cmd_simps c)
  ultimately show ?thesis
    by (auto simp: drain_def d Let_def cmd_simps c commands_drain_failed)
qed

lemma keep_powering_off_sends: "sends env {''PowerOff'', ''Standby'', ''ForceOff''} s (keep_powering_off env s)"
proof -
  let ?A = "{''PowerOff'', ''Standby'', ''ForceOff''}"
  have act: "sends env ?A s (snd (act env a s'))" if "commands s' = commands s" "a \<in> ?A" for a s'
    using that by (intro sends_one) (simp_all add: cmd_simps commands_act)
  have upd: "sends env ?A s (upd f s')"
    if "sends env ?A s s'" "\<And>st. st_last_power_action (f st) = st_last_power_action st" for f s'
    using that by (simp add: sends_def cmd_simps)
  have branch: "sends env ?A s (if b then x else y)" if "b \<Longrightarrow> sends env ?A s x" "\<not> b \<Longrightarrow> sends env ?A s y" for b x y
    using that by simp
  have name: "off_action_now env s \<in> ?A" using off_action_now_names [of env s] by auto
  have 1: "sends env ?A s (upd f (snd (act env a (standby_failed env why s))))"
    if "a \<in> ?A" "\<And>st. st_last_power_action (f st) = st_last_power_action st" for f a why
    by (rule upd [OF act]) (simp_all add: cmd_simps that del: insert_iff)
  have 2: "sends env ?A s (upd f (snd (act env a (set_message m s))))"
    if "a \<in> ?A" "\<And>st. st_last_power_action (f st) = st_last_power_action st" for f a m
    by (rule upd [OF act]) (simp_all add: cmd_simps that del: insert_iff)
  show ?thesis
    unfolding keep_powering_off_def Let_def
    by (intro branch 1 2 act [OF refl name] sends_none refl; simp)
qed

lemma commands_start_drain:
  "commands (snd (start_drain env s)) = commands s \<and> last_action (snd (start_drain env s)) = last_action s"
  by (auto simp: start_drain_def cmd_simps split: option.split prod.split sum.split)

lemma ensure_off_sends: "sends env {''PowerOff'', ''Standby'', ''ForceOff''} s (snd (ensure_off env s))"
proof -
  let ?A = "{''PowerOff'', ''Standby'', ''ForceOff''}" and ?s = "note_wake env s"
  have "sends env ?A s (snd (drain env ?s))"
    by (rule sends_after [OF sends_mono [OF drain_sends]]) (auto simp: cmd_simps)
  moreover have "sends env ?A s (keep_powering_off env ?s)"
    by (rule sends_after [OF keep_powering_off_sends]) (simp_all add: cmd_simps)
  moreover have "sends env ?A s (snd (start_drain env ?s))"
    by (rule sends_none) (simp_all add: commands_start_drain cmd_simps)
  moreover have "sends env ?A s (is_offline env ?s)"
    by (rule sends_none) (simp_all add: cmd_simps)
  ultimately show ?thesis
    by (simp add: ensure_off_def Let_def split: phase.split)
qed

lemma on_boot_failed_sends: "sends env {''PowerOff''} s (on_boot_failed env s)"
  by (auto simp: on_boot_failed_def Let_def cmd_simps commands_act)

lemma on_boot_sends: "sends env {''PowerOff'', ''ForceOff''} s (snd (on_boot env ev s))"
  using sends_mono [OF on_boot_failed_sends, of "{''PowerOff'', ''ForceOff''}" env s]
  by (cases ev) (auto simp: on_boot_def Let_def cmd_simps commands_act split: option.split)

lemma on_boot_None: "fst (on_boot env ev s) = None \<Longrightarrow>
    commands (snd (on_boot env ev s)) = commands s \<and> last_action (snd (on_boot env ev s)) = last_action s"
  by (cases ev) (auto simp: on_boot_def Let_def cmd_simps split: option.splits if_splits)

text \<open>When a gate is closed, the machine is only observed.\<close>

lemma steer_refuses:
  assumes "rv_node env = None \<or> \<not> consistent"
  shows "\<exists>m. steer env consistent s = (Inr (fst (observe env (set_message m s))), snd (observe env (set_message m s)))"
  using assms by (cases "rv_node env") (auto simp: steer_def case_prod_beta)

lemma steer_drives:
  assumes "rv_node env \<noteq> None" "consistent"
  shows "steer env consistent s =
    (case managed_target (nm_power_policy (rv_spec env)) (rs_st s) (rv_manual_policy env) of
       None \<Rightarrow> (Inr (fst (observe env s)), snd (observe env s))
     | Some Target_On \<Rightarrow> ensure_on env s
     | Some Target_Off \<Rightarrow> ensure_off env s)"
  using assms by (cases "rv_node env") (simp_all add: steer_def split: option.split prod.split)

text \<open>The power actions a pass can take.\<close>

definition ACTIONS :: "string set" where
  "ACTIONS = {''PowerOn'', ''PowerOff'', ''Standby'', ''ForceOff''}"

lemma actions: "{''PowerOn'', ''ForceOff''} \<subseteq> ACTIONS" "{''PowerOff'', ''Standby'', ''ForceOff''} \<subseteq> ACTIONS"
    "{''PowerOff'', ''ForceOff''} \<subseteq> ACTIONS"
  by (auto simp: ACTIONS_def)

lemma steer_sends: "sends env ACTIONS s (snd (steer env consistent s))"
proof (cases "rv_node env = None \<or> \<not> consistent")
  case True
  then show ?thesis using steer_refuses [OF True, of s] by (auto simp: cmd_simps)
next
  case False
  then show ?thesis
    using sends_mono [OF ensure_on_sends actions(1), of env s] sends_mono [OF ensure_off_sends actions(2), of env s]
    by (auto simp: steer_drives cmd_simps split: option.split power_target.split)
qed

lemma drive_eq:
  "drive env old consistent s =
    (let c = detect_manual_change old (rs_st s) (rv_now env) (rv_boot_timeout env)
               (lc_shutdown_timeout_seconds (lifecycle env));
         t = track_boot (clear_manual_on c (rs_st s)) (rv_now env) (rv_boot_timeout env);
         b = on_boot env (snd t) (on_manual_change env c (s\<lparr> rs_st := fst t \<rparr>))
     in case fst b of Some r \<Rightarrow> (Inr r, snd b) | None \<Rightarrow> steer env consistent (snd b))"
  unfolding drive_def Let_def case_prod_beta by (simp add: case_prod_beta split: option.split)

lemma drive_sends: "sends env ACTIONS s (snd (drive env old consistent s))"
proof -
  let ?A = ACTIONS
  obtain st ev where t: "track_boot (clear_manual_on (detect_manual_change old (rs_st s) (rv_now env)
      (rv_boot_timeout env) (lc_shutdown_timeout_seconds (lifecycle env))) (rs_st s)) (rv_now env)
      (rv_boot_timeout env) = (st, ev)" by fastforce
  define s1 where "s1 = on_manual_change env (detect_manual_change old (rs_st s) (rv_now env)
      (rv_boot_timeout env) (lc_shutdown_timeout_seconds (lifecycle env))) (s\<lparr> rs_st := st \<rparr>)"
  have "last_action (s\<lparr> rs_st := st \<rparr>) = last_action s"
    using t by (simp add: track_boot_def clear_manual_on_def Let_def split: if_splits) auto
  then have s1: "commands s1 = commands s" "last_action s1 = last_action s"
    unfolding s1_def by (simp_all add: cmd_simps) (simp add: commands_def)
  obtain q s2 where b: "on_boot env ev s1 = (q, s2)" by fastforce
  have e: "drive env old consistent s = (case q of Some r \<Rightarrow> (Inr r, s2) | None \<Rightarrow> steer env consistent s2)"
    by (simp add: drive_def t Let_def s1_def [symmetric] b split: option.split)
  show ?thesis
  proof (cases q)
    case None
    then have "commands s2 = commands s" "last_action s2 = last_action s" using on_boot_None [of env ev s1] b s1 by simp_all
    then show ?thesis by (simp add: e None sends_after [OF steer_sends])
  next
    case (Some r)
    then show ?thesis using sends_after [OF sends_mono [OF on_boot_sends [where env = env and ev = ev and s = s1] actions(3)] s1] b by (simp add: e)
  qed
qed

end
