(* ===== verification/Machine_Safety.thy ===== *)
theory Machine_Safety
  imports Reconciler_Safety
begin

text \<open>
  What one reconciliation of a machine can do to its power, over the whole of
  \<^verbatim>\<open>reconcile\<close>: how many commands it sends, what a dry run and the gates hold back, what has to
  hold before a machine is taken offline, and how its phase can move.
\<close>

section \<open>A machine to try things on\<close>

definition sample_factory :: "power_state \<Rightarrow> driver_factory" where
  "sample_factory p = \<lparr> fa_name = ''ipmi'', fa_requires_credentials = False, fa_validate = (\<lambda>_. Inr ()),
     fa_build = (\<lambda>_ _ _. Inr (sample_driver (Inr p) None)) \<rparr>"

definition sample_context :: "power_state \<Rightarrow> driver_context" where
  "sample_context p = \<lparr> cx_namespace = ''kha'', cx_secrets = (\<lambda>_. Inr None),
     cx_catalog = [sample_factory p], cx_op_timeout = 10 \<rparr>"

definition sample_spec :: "power_policy \<Rightarrow> npmc_spec" where
  "sample_spec policy = \<lparr> nm_node_name = ''n1'', nm_power_policy = policy,
     nm_power_interfaces = [sample_interface ''ipmi''], nm_lifecycle = default_lifecycle_spec,
     nm_manual_power_on_policy = None, nm_manual_power_off_cooldown_seconds = None \<rparr>"

definition sample_node :: "string \<Rightarrow> knode" where
  "sample_node ready = empty_node\<lparr> no_name := ''n1'', no_labels := [(''pool'', ''a'')],
     no_conditions := Some [\<lparr> nc_type = ''Ready'', nc_status = ready, nc_last_transition = None \<rparr>] \<rparr>"

definition sample_node_env :: "power_policy \<Rightarrow> power_state \<Rightarrow> knode option \<Rightarrow> kpod list \<Rightarrow> npmc_status \<Rightarrow> node_env" where
  "sample_node_env policy p node pods st = \<lparr>
     ne_object = Inr (Some \<lparr> np_name = ''m1'', np_generation = Some 1, np_spec = sample_spec policy,
        np_status = Some st \<rparr>),
     ne_nodes = (\<lambda>n. if n = ''n1'' then node else None), ne_pools = [], ne_pods = pods,
     ne_drivers = sample_context p, ne_dry_run = False, ne_cache = [], ne_cache_now = 0,
     ne_now = secs 100000, ne_lease = (\<lambda>_. Inr (Some (Some 99999))),
     ne_cluster = (\<lambda>_. sample_cluster), ne_patch_answer = (\<lambda>_. Inr ()), ne_status_answer = Inr (),
     ne_rfc3339 = (\<lambda>_. ''1970-01-02T03:46:40+00:00'') \<rparr>"

section \<open>From the log of a reconciliation to its pass\<close>

lemma gate_logs_silent:
  "filter is_command (snd (gate_identity now spec old results st)) = []"
  "filter is_command (snd (gate_reading now c old st)) = []"
  by (simp_all add: gate_identity_def gate_reading_def Let_def)

lemma finish_log [simp]: "pr_log (finish env old st log cache q) = log"
  by (simp add: finish_def)

text \<open>The log of \<^verbatim>\<open>reconcile_with\<close> is that of a pass, or nothing is driven at all.\<close>

lemma reconcile_with_log:
  assumes "filter is_command log = []"
  shows "filter is_command (pr_log (reconcile_with env spec old st chain log cache)) = []
    \<or> (\<exists>renv st' consistent s. rv_dry_run renv = ne_dry_run env \<and> commands s = []
        \<and> filter is_command (pr_log (reconcile_with env spec old st chain log cache))
            = commands (snd (drive renv old consistent s)))"
proof (cases "fst (chain_power_state chain)")
  case (Inr oc)
  let ?st = "st\<lparr> st_power_state := oc_value oc, st_interface_warnings := oc_failures oc \<rparr>"
  let ?g = "gate_reading (ne_now env) (reading_consistent env spec ?st) old ?st"
  let ?s = "\<lparr> rs_st = fst ?g, rs_log = log @ snd ?g \<rparr>"
  let ?renv = "pass_env env spec chain (fst ?g)"
  have "pr_log (reconcile_with env spec old st chain log cache)
      = rs_log (snd (drive ?renv old (reading_consistent env spec ?st) ?s))"
    by (simp add: reconcile_with_def Inr Let_def split: prod.split sum.split)
  moreover have "commands ?s = []" using assms gate_logs_silent(2) by (simp add: commands_def)
  moreover have "rv_dry_run ?renv = ne_dry_run env" by (simp add: pass_env_def Let_def split: prod.split)
  ultimately show ?thesis by (metis commands_def)
qed (use assms in \<open>simp add: reconcile_with_def\<close>)

lemma reconcile_log:
  "filter is_command (pr_log (reconcile env)) = []
    \<or> (\<exists>renv old consistent s. rv_dry_run renv = ne_dry_run env \<and> commands s = []
        \<and> filter is_command (pr_log (reconcile env)) = commands (snd (drive renv old consistent s)))"
proof (cases "\<exists>mn. ne_object env = Inr (Some mn)")
  case True
  then obtain mn where mn: "ne_object env = Inr (Some mn)" ..
  let ?st = "gated_status env (np_spec mn) (unwrap_or (np_status mn) default_npmc_status)"
  show ?thesis
  proof (cases "build_chain (ne_drivers env) (np_spec mn)")
    case (Inr chain)
    obtain results cache where i: "identify (ne_cache env) (ne_cache_now env)
        (np_name mn, unwrap_or (np_generation mn) 0) chain
        (Option.bind (ne_nodes env (nm_node_name (np_spec mn))) no_system_uuid) = (results, cache)" by fastforce
    obtain st log where g: "gate_identity (ne_now env) (np_spec mn)
        (unwrap_or (np_status mn) default_npmc_status) results ?st = (st, log)" by fastforce
    have "filter is_command log = []" using gate_logs_silent(1) g by (metis snd_conv)
    from reconcile_with_log [OF this] show ?thesis
      by (fastforce simp: reconcile_def mn reconcile_machine_def Inr i g Let_def)
  qed (simp add: reconcile_def mn reconcile_machine_def Let_def)
qed (auto simp: reconcile_def split: sum.split option.split)

section \<open>How many commands\<close>

text \<open>C14: One reconciliation sends at most one command to a machine, whatever it finds: a power
  command to its interfaces, or a suspend pod, or the dry-run record of either, never two, so a
  power-on can never race a power-off it sent itself.\<close>

theorem one_command_per_reconcile:
  "length (filter is_command (pr_log (reconcile env))) \<le> 1"
  using reconcile_log [of env]
proof (elim disjE exE conjE)
  fix renv old consistent s
  assume "commands s = []" "filter is_command (pr_log (reconcile env)) = commands (snd (drive renv old consistent s))"
  then show ?thesis using drive_sends [of renv s old consistent] command_of_length by (auto simp: sends_def)
qed simp

lemma real_is_command: "is_real_command e \<Longrightarrow> is_command e"
  by (cases e) auto

text \<open>C17: A dry run never powers anything: no power command reaches an interface and no suspend
  pod is created, in any state of the machine.\<close>

theorem dry_run_never_powers:
  assumes "ne_dry_run env"
  shows "filter is_real_command (pr_log (reconcile env)) = []"
proof -
  have "\<not> is_real_command e" if "e \<in> set (pr_log (reconcile env))" for e
  proof
    assume r: "is_real_command e"
    then have e: "e \<in> set (filter is_command (pr_log (reconcile env)))" using that real_is_command by simp
    from reconcile_log [of env] show False
    proof (elim disjE exE conjE)
      fix renv old consistent s
      assume "rv_dry_run renv = ne_dry_run env" "commands s = []"
        "filter is_command (pr_log (reconcile env)) = commands (snd (drive renv old consistent s))"
      then have "\<exists>a. e = E_DryRun a"
        using drive_sends [of renv s old consistent] e assms by (auto simp: sends_def command_of_dry)
      then show False using r by auto
    qed (use e in simp)
  qed
  then show ?thesis by (simp add: filter_empty_conv)
qed

abbreviation "draining_sample \<equiv> (sample_node_env AlwaysOff PS_On (Some (sample_node ''True'')) []
  (default_npmc_status\<lparr> st_phase := Ph_Draining, st_phase_since := Some (secs 99990) \<rparr>))"

lemma dry_run_never_powers_witness:
  "filter is_real_command (pr_log (reconcile (draining_sample\<lparr> ne_dry_run := True \<rparr>))) = []
   \<and> filter is_command (pr_log (reconcile (draining_sample\<lparr> ne_dry_run := True \<rparr>))) = [E_DryRun ''PowerOff'']
   \<and> filter is_command (pr_log (reconcile draining_sample)) = [E_PowerOff False [''ipmi'']]"
proof (intro conjI)
  show "filter is_real_command (pr_log (reconcile (draining_sample\<lparr> ne_dry_run := True \<rparr>))) = []"
    by (rule dry_run_never_powers) simp
  show "filter is_command (pr_log (reconcile (draining_sample\<lparr> ne_dry_run := True \<rparr>))) = [E_DryRun ''PowerOff'']"
    by code_simp
  show "filter is_command (pr_log (reconcile draining_sample)) = [E_PowerOff False [''ipmi'']]"
    by code_simp
qed

text \<open>A dry run is not without effect: it still cordons the Node of a machine it would power
  off and evicts its pods, and only then stops short of the power command.\<close>

theorem dry_run_still_drains:
  "pr_log (reconcile ((sample_node_env AlwaysOff PS_On (Some (sample_node ''True'')) []
       (default_npmc_status\<lparr> st_phase := Ph_On \<rparr>))\<lparr> ne_dry_run := True \<rparr>))
     = [E_NodePatch ''n1'' cordon_patch, E_Event False ''Draining'' ''cordoned node n1; evicting pods'']
   \<and> E_Evict ''default'' ''web'' \<in> set (pr_log (reconcile (draining_sample\<lparr> ne_dry_run := True,
       ne_pods := [empty_pod\<lparr> p_name := Some ''web'', p_namespace := Some ''default'',
         p_owner_kinds := Some [''ReplicaSet''],
         p_spec := Some (empty_pod_spec\<lparr> pd_node_name := Some ''n1'' \<rparr>) \<rparr>] \<rparr>)))"
proof (rule conjI)
  show "E_Evict ''default'' ''web'' \<in> set (pr_log (reconcile (draining_sample\<lparr> ne_dry_run := True,
       ne_pods := [empty_pod\<lparr> p_name := Some ''web'', p_namespace := Some ''default'',
         p_owner_kinds := Some [''ReplicaSet''],
         p_spec := Some (empty_pod_spec\<lparr> pd_node_name := Some ''n1'' \<rparr>) \<rparr>] \<rparr>)))"
    by code_simp
qed code_simp

section \<open>The gates\<close>

lemma commands_rs_update: "commands (s\<lparr> rs_st := st \<rparr>) = commands s"
  by (simp add: commands_def)

text \<open>Without a boot event, and with no boot failure acted on, a pass is \<^verbatim>\<open>steer\<close>'s.\<close>

lemma drive_observes:
  assumes "rv_node renv = None \<or> \<not> consistent" and "st_power_state (rs_st s) \<noteq> PS_On"
  shows "commands (snd (drive renv old consistent s)) = commands s"
proof -
  define c where "c = detect_manual_change old (rs_st s) (rv_now renv) (rv_boot_timeout renv)
      (lc_shutdown_timeout_seconds (lifecycle renv))"
  let ?t = "track_boot (clear_manual_on c (rs_st s)) (rv_now renv) (rv_boot_timeout renv)"
  let ?s = "on_manual_change renv c (s\<lparr> rs_st := fst ?t \<rparr>)"
  have p: "st_power_state (clear_manual_on c (rs_st s)) \<noteq> PS_On"
    using assms(2) by (simp add: clear_manual_on_def)
  then have ev: "snd ?t \<noteq> BE_Failed" "st_power_state (fst ?t) \<noteq> PS_On"
    by (auto simp: track_boot_def is_booting_def Let_def)
  then have "st_power_state (rs_st ?s) \<noteq> PS_On"
    by (cases c) (simp_all add: on_manual_change_def Let_def event_def emit_def upd_def)
  with ev(1) have "fst (on_boot renv (snd ?t) ?s) = None"
    by (cases "snd ?t") (auto simp: on_boot_def split: option.split)
  then have "snd (drive renv old consistent s) = snd (steer renv consistent (snd (on_boot renv (snd ?t) ?s)))"
    "commands (snd (on_boot renv (snd ?t) ?s)) = commands s"
    using on_boot_None [of renv "snd ?t" ?s]
    by (auto simp: drive_def c_def Let_def cmd_simps commands_rs_update split: prod.split option.split)
  moreover have "commands (snd (steer renv consistent s')) = commands s'" for s'
    using steer_refuses [OF assms(1)] by (metis commands_observe commands_set_message snd_conv)
  ultimately show ?thesis by simp
qed

lemma inconsistent_reads_off:
  assumes "\<not> reading_consistent env spec st"
  shows "st_power_state st = PS_Off \<and> st_node_ready st"
  using assms by (auto simp: reading_consistent_def power_state_consistent_def Let_def split: if_splits)

text \<open>The first gate has a hole: a machine whose Node does not exist, and whose condition says
  that no power actions are taken, is sent a power-off all the same when its boot times out.\<close>

theorem node_gate_bypassed_by_boot_failure:
  "let st = default_npmc_status\<lparr> st_phase := Ph_PoweringOn, st_power_state := PS_On,
         st_phase_since := Some (secs 1000), st_powered_on_not_ready_since := Some (secs 1000),
         st_last_power_action := Some (sample_action ''PowerOn'' 1000) \<rparr>;
       result = reconcile (sample_node_env Auto PS_On None [] st)
   in filter is_command (pr_log result) = [E_PowerOff False [''ipmi'']]
      \<and> is_some_and (pr_written result) (\<lambda>st'. list_ex (\<lambda>c. c_type c = COND_NODE_FOUND
            \<and> c_message c = ''Node n1 does not exist; no power actions are taken'') (st_conditions st'))"
  by code_simp

section \<open>Before a machine goes offline\<close>

lemma drain_pods_empty:
  "fst (drain_pods pods s) = [] \<and> fst (snd (drain_pods pods s)) = []
     \<longleftrightarrow> (\<forall>p \<in> set pods. drain_class_of p = DC_Ignore)"
  by (induction pods s rule: drain_pods.induct) (auto split: drain_class.split prod.split)

lemma drain_pods_st: "rs_st (snd (snd (drain_pods pods s))) = rs_st s"
  by (induction pods s rule: drain_pods.induct)
     (auto simp: emit_def split: drain_class.split prod.split)

lemma in_phase_for_cong: "rs_st s = rs_st s' \<Longrightarrow> in_phase_for env s = in_phase_for env s'"
  by (simp add: in_phase_for_def)

text \<open>A drain sends a command only once nothing is left on the node, or by force.\<close>

lemma drain_commands:
  assumes "commands (snd (drain env s)) \<noteq> commands s"
  shows "(\<forall>p \<in> set (pods_on (rv_pods env) (node_name env)). drain_class_of p = DC_Ignore)
    \<or> lc_force_after_drain_timeout (lifecycle env) \<and> drain_timed_out env s"
proof -
  obtain r b s1 where d: "drain_pods (pods_on (rv_pods env) (node_name env)) s = (r, b, s1)"
    by (metis prod_cases3)
  then have c: "commands s1 = commands s" by (simp add: cmd_simps)
  have t: "drain_timed_out env s1 = drain_timed_out env s"
    using drain_pods_st [of "pods_on (rv_pods env) (node_name env)" s] d
    by (simp add: drain_timed_out_def in_phase_for_def)
  show ?thesis
  proof (cases "r = [] \<and> b = []")
    case True
    then show ?thesis using drain_pods_empty [of "pods_on (rv_pods env) (node_name env)" s] d by simp
  next
    case False
    then show ?thesis
      using assms by (auto simp: drain_def d Let_def cmd_simps c commands_drain_failed t split: if_splits)
  qed
qed

text \<open>A power-off by a drain is announced to node fencing before it is sent.\<close>

lemma power_off_log:
  "\<exists>effects k. rs_log (power_off env s) =
     rs_log s @ (if rv_dry_run env then [] else [E_NodePatch (node_name env)
        (mark_powered_off (rv_rfc3339 env (rv_now env)))]) @ effects @ [k] \<and> \<not> is_command k"
proof -
  have "\<exists>effects k. rs_log (snd (act env a s)) = rs_log s @ effects @ [k] \<and> \<not> is_command k" for a s
    by (auto simp: act_def report_action_def event_def warning_def set_message_def emit_def upd_def
        split: prod.split sum.split)
  from this [of "off_action_now env (announce_power_off env s)" "announce_power_off env s"] show ?thesis
    by (auto simp: power_off_def Let_def set_phase_def upd_def announce_power_off_def send_patch_def emit_def)
qed

text \<open>Taking a machine offline starts with cordoning and draining it: a command is sent only to
  a machine that does not read Off and is already powering off, or is draining with every pod
  on its node gone or ignorable, or whose drain timed out with force configured.  A machine in
  any other phase, among them one whose Node is missing, is sent nothing.\<close>

lemma ensure_off_commands:
  assumes "commands (snd (ensure_off env s)) \<noteq> commands s"
  shows "st_power_state (rs_st s) \<noteq> PS_Off
    \<and> (st_phase (rs_st s) = Ph_PoweringOff
       \<or> st_phase (rs_st s) = Ph_Draining
         \<and> ((\<forall>p \<in> set (pods_on (rv_pods env) (node_name env)). drain_class_of p = DC_Ignore)
            \<or> lc_force_after_drain_timeout (lifecycle env) \<and> drain_timed_out env s))"
proof -
  have w: "st_phase (rs_st (note_wake env s)) = st_phase (rs_st s)"
    by (simp add: note_wake_def standby_failed_def warning_def emit_def upd_def)
  have n: "note_wake env s = s" if "st_phase (rs_st s) = Ph_Draining"
    using that by (simp add: note_wake_def woke_by_itself_def)
  have "st_power_state (rs_st s) \<noteq> PS_Off"
    using assms by (auto simp: ensure_off_def Let_def cmd_simps)
  moreover have "st_phase (rs_st s) = Ph_PoweringOff \<or> st_phase (rs_st s) = Ph_Draining"
    using assms by (auto simp: ensure_off_def Let_def cmd_simps w commands_start_drain
        split: phase.splits if_splits)
  moreover have "commands (snd (drain env s)) \<noteq> commands s" if "st_phase (rs_st s) = Ph_Draining"
    using assms that by (auto simp: ensure_off_def Let_def cmd_simps n split: if_splits)
  ultimately show ?thesis using drain_commands by blast
qed

abbreviation "draining_renv \<equiv> pass_env draining_sample (sample_spec AlwaysOff)
  \<lparr> ch_links = [sample_link ''ipmi'' (sample_driver (Inr PS_On) None)], ch_unavailable = [] \<rparr> default_npmc_status"

abbreviation "off_sample p since \<equiv> \<lparr> rs_st = default_npmc_status\<lparr> st_phase := p, st_phase_since := Some (secs since),
  st_power_state := PS_On, st_node_ready := True \<rparr>, rs_log = [] \<rparr>"

text \<open>Cutting the power, or noting in a dry run that it would be cut.\<close>

fun cuts_power :: "effect \<Rightarrow> bool" where
  "cuts_power (E_PowerOff force _) = force"
| "cuts_power (E_DryRun action) = (action = ''ForceOff'')"
| "cuts_power _ = False"

lemma force_command: "list_ex cuts_power (command_of env ''ForceOff'' s)"
  by (simp add: command_of_def execute_def split: prod.split)

lemma graceful_command: "a \<in> {''PowerOn'', ''PowerOff'', ''Standby''} \<Longrightarrow> \<not> list_ex cuts_power (command_of env a s)"
  using run_calls [of "cluster_at env s" "node_name env" "suspend_command env"]
  by (auto simp: command_of_def execute_def split: prod.splits sum.splits)

lemma drain_never_forces: "list_ex cuts_power (commands (snd (drain env s))) = list_ex cuts_power (commands s)"
  using drain_sends [of env s] graceful_command by (auto simp: sends_def)

text \<open>What \<^verbatim>\<open>PoweringOff\<close> does, by the three deadlines it watches.\<close>

lemma keep_powering_off_commands:
  "commands (keep_powering_off env s) =
     (let timeout = as_i64 (lc_shutdown_timeout_seconds (lifecycle env)) in
      if st_standby_since (rs_st s) \<noteq> None \<and> min timeout STANDBY_SETTLE_SECS < in_phase_for env s
      then commands s @ command_of env ''PowerOff'' (standby_failed env (''machine did not stay in standby (still up ''
             @ show_int (min timeout STANDBY_SETTLE_SECS) @ ''s after suspending)'') s)
      else if timeout < in_phase_for env s then
        (if may_force env s then commands s @ command_of env ''ForceOff''
           (set_message (Some (''graceful shutdown did not finish within '' @ show_int timeout
                     @ ''s; forcing power off'')) s) else commands s)
      else if is_some_and (st_last_power_action (rs_st s)) (\<lambda>a. \<not> pa_succeeded a)
              \<and> RETRY_ACTION_AFTER div 3 < since_last_action env (off_action_now env s) s
      then commands s @ command_of env (off_action_now env s) s else commands s)"
  unfolding keep_powering_off_def Let_def
  by (simp only: if_distrib [of commands] commands_act commands_upd commands_standby_failed commands_set_message)

text \<open>C16: A graceful shutdown gets its time and no more.  The step that takes a machine offline cuts
  its power exactly when it is in \<^verbatim>\<open>PoweringOff\<close> for more than \<^verbatim>\<open>shutdownTimeoutSeconds\<close>, does not
  read Off, is not being suspended, and its power was not cut before or more than 90 seconds ago;
  and then the time is noted, so that it is cut again only after another 90 seconds.\<close>

theorem forced_exactly_when_overdue:
  assumes start: "commands s = []"
  shows "(list_ex cuts_power (commands (snd (ensure_off env s))) \<longleftrightarrow>
      st_phase (rs_st s) = Ph_PoweringOff \<and> st_power_state (rs_st s) \<noteq> PS_Off \<and> st_standby_since (rs_st s) = None
      \<and> as_i64 (lc_shutdown_timeout_seconds (lifecycle env)) < in_phase_for env s
      \<and> (\<forall>t. st_forced_off_at (rs_st s) = Some t \<longrightarrow> 90 < elapsed (rv_now env) t))
    \<and> (list_ex cuts_power (commands (snd (ensure_off env s)))
        \<longrightarrow> st_forced_off_at (rs_st (snd (ensure_off env s))) = Some (rv_now env))"
proof (cases "st_phase (rs_st s) = Ph_PoweringOff")
  case off: True
  then have n: "note_wake env s = s" by (simp add: note_wake_def woke_by_itself_def)
  have g: "\<not> list_ex cuts_power (command_of env (off_action_now env s) s)"
    using off_action_now_names [of env s] graceful_command by blast
  have m: "may_force env s = (\<forall>t. st_forced_off_at (rs_st s) = Some t \<longrightarrow> 90 < elapsed (rv_now env) t)"
    by (cases "st_forced_off_at (rs_st s)") (simp_all add: may_force_def RETRY_ACTION_AFTER_def)
  show ?thesis
  proof (cases "st_power_state (rs_st s) = PS_Off
      \<or> in_standby (st_phase (rs_st s)) (st_standby_since (rs_st s) \<noteq> None) (st_node_ready (rs_st s))")
    case True
    then have "commands (snd (ensure_off env s)) = []"
      using start by (simp add: ensure_off_def n cmd_simps)
    then show ?thesis using True by (auto simp: in_standby_def)
  next
    case False
    then have e: "snd (ensure_off env s) = keep_powering_off env s" using off by (auto simp: ensure_off_def n)
    have f: "may_force env s \<and> st_standby_since (rs_st s) = None
        \<and> as_i64 (lc_shutdown_timeout_seconds (lifecycle env)) < in_phase_for env s
        \<longrightarrow> st_forced_off_at (rs_st (keep_powering_off env s)) = Some (rv_now env)"
      by (simp add: keep_powering_off_def upd_def Let_def)
    have p: "\<not> list_ex cuts_power (command_of env ''PowerOff'' s')" for s' by (rule graceful_command) simp
    show ?thesis
      unfolding e m [symmetric] using f False off
      by (auto simp: keep_powering_off_commands start force_command g p Let_def min_def split: if_splits)
  qed
next
  case False
  have "st_phase (rs_st (note_wake env s)) = st_phase (rs_st s)"
    by (simp add: note_wake_def standby_failed_def warning_def emit_def upd_def)
  then have "\<not> list_ex cuts_power (commands (snd (ensure_off env s)))"
    using False start
    by (auto simp: ensure_off_def Let_def cmd_simps drain_never_forces commands_start_drain split: phase.split)
  then show ?thesis using False by simp
qed

lemma forced_exactly_when_overdue_witness:
  "list_ex cuts_power (commands (snd (ensure_off draining_renv (off_sample Ph_PoweringOff 99600))))
   \<and> st_forced_off_at (rs_st (snd (ensure_off draining_renv (off_sample Ph_PoweringOff 99600)))) = Some (secs 100000)
   \<and> \<not> list_ex cuts_power (commands (snd (ensure_off draining_renv (off_sample Ph_PoweringOff 99800))))"
proof -
  have "commands (off_sample Ph_PoweringOff t) = []" for t by (simp add: commands_def)
  note iff = forced_exactly_when_overdue [OF this, where env = draining_renv]
  have "as_i64 (lc_shutdown_timeout_seconds (lifecycle draining_renv)) < in_phase_for draining_renv (off_sample Ph_PoweringOff 99600)"
      "\<not> as_i64 (lc_shutdown_timeout_seconds (lifecycle draining_renv)) < in_phase_for draining_renv (off_sample Ph_PoweringOff 99800)"
      "rv_now draining_renv = secs 100000"
    by code_simp+
  then show ?thesis using iff [of 99600] iff [of 99800] by (simp add: default_npmc_status_def)
qed

end
