(* ===== verification/Machine_Phases.thy ===== *)
theory Machine_Phases
  imports Machine_Safety
begin

text \<open>
  The state machine of a machine's \<^verbatim>\<open>phase\<close>: which phases one reconciliation can move between,
  as a relation of its own, and what that means for a run of reconciliations, whatever the
  cluster and the machine do in between.
\<close>

section \<open>The specification\<close>

text \<open>Readings can move a machine to most phases at any time; these two are the operator's own.\<close>

definition phase_edge :: "phase \<Rightarrow> phase \<Rightarrow> bool" where
  "phase_edge p q =
     (case q of
        Ph_PoweringOff \<Rightarrow> p = Ph_Draining \<or> p = Ph_PoweringOff
      | Ph_Draining \<Rightarrow> p \<noteq> Ph_PoweringOff
      | _ \<Rightarrow> True)"

definition phase_of :: "rs \<Rightarrow> phase" where
  "phase_of s = st_phase (rs_st s)"

named_theorems ph_simps \<open>what the steps of a pass do to the phase\<close>

lemma phase_upd [ph_simps]: "(\<And>st. st_phase (f st) = st_phase st) \<Longrightarrow> phase_of (upd f s) = phase_of s"
  by (simp add: phase_of_def upd_def)

lemma phase_emit [ph_simps]: "phase_of (emit es s) = phase_of s" "phase_of (event r n s) = phase_of s"
    "phase_of (warning r n s) = phase_of s"
  by (simp_all add: phase_of_def emit_def event_def warning_def)

lemma phase_message [ph_simps]: "phase_of (set_message m s) = phase_of s"
  by (simp add: phase_of_def set_message_def upd_def)

lemma phase_set_phase [ph_simps]: "phase_of (set_phase env p s) = p"
  by (simp add: phase_of_def set_phase_def upd_def)

lemma phase_patch_node [ph_simps]: "patch_node env f s = (r, s') \<Longrightarrow> phase_of s' = phase_of s"
  by (auto simp: patch_node_def send_patch_def phase_of_def emit_def split: option.splits)

lemma phase_act [ph_simps]: "phase_of (snd (act env a s)) = phase_of s"
  by (simp add: act_def report_action_def record_action_def standby_mark_def ph_simps split: prod.split sum.split)

lemma phase_act' [ph_simps]: "act env a s = (ok, s') \<Longrightarrow> phase_of s' = phase_of s"
  by (metis phase_act snd_conv)

lemma phase_announce [ph_simps]: "phase_of (announce_power_off env s) = phase_of s"
  by (simp add: announce_power_off_def send_patch_def ph_simps)

lemma phase_standby_failed [ph_simps]: "phase_of (standby_failed env why s) = phase_of s"
  by (simp add: standby_failed_def ph_simps)

lemma phase_note_wake [ph_simps]: "phase_of (note_wake env s) = phase_of s"
  by (simp add: note_wake_def ph_simps)

lemma phase_advance_probe: "phase_of (snd (advance_probe env s)) = phase_of s"
  by (simp add: advance_probe_def ph_simps split: option.split prod.split)

lemma phase_advance_probe' [ph_simps]: "advance_probe env s = (r, s') \<Longrightarrow> phase_of s' = phase_of s"
  by (metis phase_advance_probe snd_conv)

lemma phase_drain_pods [ph_simps]: "drain_pods pods s = (r, b, s') \<Longrightarrow> phase_of s' = phase_of s"
  using drain_pods_st [of pods s] by (simp add: phase_of_def)

lemma phase_power_off [ph_simps]: "phase_of (power_off env s) = Ph_PoweringOff"
  by (simp add: power_off_def Let_def ph_simps)

lemma phase_manual_change [ph_simps]: "phase_of (on_manual_change env c s) = phase_of s"
  by (cases c) (simp_all add: on_manual_change_def Let_def ph_simps)

section \<open>Where each step leaves the phase\<close>

lemma edge_other: "q \<noteq> Ph_PoweringOff \<Longrightarrow> q \<noteq> Ph_Draining \<Longrightarrow> phase_edge p q"
  by (cases q) (simp_all add: phase_edge_def)

lemma edge_refl: "phase_edge p p"
  by (cases p) (simp_all add: phase_edge_def)

lemma phase_simple:
  "phase_of (act_power_on env s) \<in> {Ph_PoweringOn, Ph_Error}"
  "phase_of (release_failed_power_on env s) \<in> {Ph_BootFailed, Ph_Off}"
  "phase_of (is_offline env s) \<in> {Ph_Standby, Ph_Off}"
  by (auto simp: act_power_on_def release_failed_power_on_def is_offline_def Let_def ph_simps
      split: prod.split)

lemma phase_is_online: "phase_of (snd (is_online env s)) \<in> {Ph_On, phase_of s}"
  by (auto simp: is_online_def Let_def ph_simps phase_advance_probe split: prod.split sum.split)

lemma phase_keep_on: "phase_of (keep_powering_on env s) \<in> {Ph_Error, phase_of s}"
  by (simp add: keep_powering_on_def Let_def ph_simps)

lemma phase_keep_off: "phase_of (keep_powering_off env s) = phase_of s"
proof -
  have "phase_of (upd (\<lambda>st. st\<lparr> st_phase_since := t \<rparr>) s') = phase_of s'"
    "phase_of (upd (\<lambda>st. st\<lparr> st_forced_off_at := t, st_standby_since := u \<rparr>) s') = phase_of s'" for t u s'
    by (simp_all add: ph_simps)
  then show ?thesis
    unfolding keep_powering_off_def Let_def
    by (simp only: if_distrib [of phase_of] phase_act phase_standby_failed phase_message if_cancel)
qed

lemma ensure_on_edge: "phase_edge (phase_of s) (phase_of (snd (ensure_on env s)))"
proof -
  let ?ok = "\<lambda>s'. phase_edge (phase_of s) (phase_of s')"
  let ?s = "emit (map E_Api (snd (cancel (cluster_at env s) (node_name env)))) s"
  have p: "?ok (act_power_on env s')" for s'
    using phase_simple(1) [of env s'] edge_other by auto
  have r: "?ok (release_failed_power_on env s)"
    using phase_simple(2) [of env s] edge_other by auto
  have k: "?ok (keep_powering_on env s)" "?ok (snd (is_online env s))" "?ok s" "?ok (set_message m s)" for m
    using phase_keep_on [of env s] phase_is_online [of env s] edge_other edge_refl by (auto simp: phase_message)
  have u: "?ok (snd (case patch_node env uncordon_if_ours s of
      (Inl e, s) \<Rightarrow> (Inl e, s) | (Inr _, s) \<Rightarrow> (Inr FAST, set_phase env Ph_PoweringOn s)))"
    using edge_refl by (auto simp: ph_simps edge_other split: prod.split sum.split)
  show ?thesis unfolding ensure_on_def Let_def by (simp add: p r k u)
qed

lemma phase_drain: "phase_of s = Ph_Draining \<Longrightarrow> phase_of (snd (drain env s)) \<in> {Ph_Draining, Ph_PoweringOff, Ph_On}"
proof -
  assume d: "phase_of s = Ph_Draining"
  have 1: "phase_of (snd (drained env s1)) \<in> {Ph_PoweringOff, phase_of s1}" for s1
    by (auto simp: drained_def Let_def ph_simps split: prod.split)
  have 2: "phase_of (snd (drain_failed env m s1)) \<in> {Ph_On, phase_of s1}" for m s1
    by (auto simp: drain_failed_def Let_def ph_simps split: prod.split sum.split)
  obtain r b s1 where p: "drain_pods (pods_on (rv_pods env) (node_name env)) s = (r, b, s1)"
    by (metis prod_cases3)
  then have "phase_of s1 = Ph_Draining" using d by (simp add: ph_simps)
  then show ?thesis
    using 1 [of s1] 2 [of "drain_summary r b" s1] by (auto simp: drain_def p Let_def ph_simps)
qed

lemma phase_start_drain: "phase_of (snd (start_drain env s)) \<in> {Ph_Draining, phase_of s}"
  by (auto simp: start_drain_def ph_simps split: option.split prod.split sum.split)

lemma ensure_off_edge: "phase_edge (phase_of s) (phase_of (snd (ensure_off env s)))"
proof -
  let ?s = "note_wake env s"
  have p: "st_phase (rs_st ?s) = phase_of s" using phase_note_wake [of env s] by (simp add: phase_of_def)
  have "phase_edge (phase_of s) (phase_of (is_offline env ?s))"
    using phase_simple(3) [of env ?s] edge_other by auto
  moreover have "phase_edge (phase_of s) (phase_of (snd (drain env ?s)))" if "phase_of s = Ph_Draining"
    using phase_drain [of ?s env] that by (auto simp: ph_simps phase_edge_def)
  moreover have "phase_edge (phase_of s) (phase_of (keep_powering_off env ?s))"
    using edge_refl by (simp add: phase_keep_off ph_simps)
  moreover have "phase_edge (phase_of s) (phase_of (snd (start_drain env ?s)))" if "phase_of s \<noteq> Ph_PoweringOff"
    using phase_start_drain [of env ?s] that edge_refl by (auto simp: ph_simps phase_edge_def)
  ultimately show ?thesis
    by (auto simp: ensure_off_def Let_def p split: phase.splits)
qed

lemma observe_edge: "phase_edge (phase_of s) (phase_of (snd (observe env s)))"
  using edge_refl by (auto simp: observe_def Let_def ph_simps edge_other split: power_state.split)

lemma steer_edge: "phase_edge (phase_of s) (phase_of (snd (steer env consistent s)))"
proof (cases "rv_node env = None \<or> \<not> consistent")
  case True
  then obtain m where "snd (steer env consistent s) = snd (observe env (set_message m s))"
    using steer_refuses [OF True, of s] by auto
  then show ?thesis using observe_edge [of "set_message m s" env] by (simp add: ph_simps)
next
  case False
  then show ?thesis
    using ensure_on_edge [of s env] ensure_off_edge [of s env] observe_edge [of s env]
    by (auto simp: steer_drives split: option.split power_target.split)
qed

lemma on_boot_phase: "phase_of (snd (on_boot env ev s)) \<in> {Ph_BootFailed, phase_of s}"
proof -
  have "phase_of (on_boot_failed env s) = Ph_BootFailed" by (simp add: on_boot_failed_def Let_def ph_simps)
  then show ?thesis
    by (cases ev) (auto simp: on_boot_def Let_def ph_simps split: option.split)
qed

lemma on_boot_None_phase: "fst (on_boot env ev s) = None \<Longrightarrow> phase_of (snd (on_boot env ev s)) = phase_of s"
  by (cases ev) (auto simp: on_boot_def Let_def ph_simps split: option.splits if_splits)

lemma track_boot_phase: "st_phase (fst (track_boot st now t)) = st_phase st"
  by (simp add: track_boot_def Let_def)

lemma clear_manual_on_phase: "st_phase (clear_manual_on c st) = st_phase st"
  by (simp add: clear_manual_on_def)

lemma drive_edge: "phase_edge (phase_of s) (phase_of (snd (drive env old consistent s)))"
proof -
  define c where "c = detect_manual_change old (rs_st s) (rv_now env) (rv_boot_timeout env)
      (lc_shutdown_timeout_seconds (lifecycle env))"
  let ?t = "track_boot (clear_manual_on c (rs_st s)) (rv_now env) (rv_boot_timeout env)"
  let ?s = "on_manual_change env c (s\<lparr> rs_st := fst ?t \<rparr>)"
  have p: "phase_of ?s = phase_of s"
    by (simp add: ph_simps) (simp add: phase_of_def track_boot_phase clear_manual_on_phase)
  obtain q s2 where b: "on_boot env (snd ?t) ?s = (q, s2)" by fastforce
  have e: "drive env old consistent s = (case q of Some r \<Rightarrow> (Inr r, s2) | None \<Rightarrow> steer env consistent s2)"
    unfolding drive_eq [of env old consistent s] Let_def c_def [symmetric] b by (cases q) simp_all
  show ?thesis
  proof (cases q)
    case None
    then have "phase_of s2 = phase_of s" using on_boot_None_phase [of env "snd ?t" ?s] b p by simp
    then show ?thesis using steer_edge [of s2 env consistent] by (simp add: e None)
  next
    case (Some r)
    then show ?thesis using on_boot_phase [of env "snd ?t" ?s] b p edge_refl edge_other by (auto simp: e)
  qed
qed

section \<open>One reconciliation\<close>

lemma gates_keep_phase:
  "st_phase (gated_status env spec old) = st_phase old"
  "st_phase (fst (gate_identity now spec old results st)) = st_phase st"
  "st_phase (fst (gate_reading now c old st)) = st_phase st"
  by (auto simp: gated_status_def gate_node_def gate_pools_def membership_condition_def note_node_def
      gate_identity_def gate_reading_def status_set_condition_def Let_def split: option.split membership.split)

lemma finish_written: "pr_written (finish env old st log cache q) = Some st' \<Longrightarrow> st' = st"
  by (auto simp: finish_def split: if_splits)

lemma reconcile_with_edge:
  assumes "pr_written (reconcile_with env spec old st chain log cache) = Some st'"
  shows "phase_edge (st_phase st) (st_phase st')"
proof (cases "fst (chain_power_state chain)")
  case (Inl e)
  then show ?thesis using assms edge_refl by (auto simp: reconcile_with_def dest: finish_written)
next
  case (Inr oc)
  let ?st = "st\<lparr> st_power_state := oc_value oc, st_interface_warnings := oc_failures oc \<rparr>"
  let ?c = "reading_consistent env spec ?st"
  let ?g = "gate_reading (ne_now env) ?c old ?st"
  let ?s = "\<lparr> rs_st = fst ?g, rs_log = log @ snd ?g \<rparr>"
  let ?d = "drive (pass_env env spec chain (fst ?g)) old ?c ?s"
  have "st' = rs_st (snd ?d)"
    using assms by (auto simp: reconcile_with_def Inr Let_def case_prod_beta dest: finish_written split: sum.splits)
  moreover have "phase_of ?s = st_phase st" by (simp add: phase_of_def gates_keep_phase)
  ultimately show ?thesis using drive_edge [of ?s "pass_env env spec chain (fst ?g)" old ?c] by (simp add: phase_of_def)
qed

lemma reconcile_machine_edge:
  assumes "pr_written (reconcile_machine env mn) = Some st'"
  shows "phase_edge (st_phase (unwrap_or (np_status mn) default_npmc_status)) (st_phase st')"
proof (cases "build_chain (ne_drivers env) (np_spec mn)")
  case (Inl e)
  then have "st_phase st' = Ph_Error"
    using assms by (auto simp: reconcile_machine_def Let_def dest: finish_written)
  then show ?thesis by (simp add: edge_other)
next
  case (Inr chain)
  let ?old = "unwrap_or (np_status mn) default_npmc_status"
  let ?i = "identify (ne_cache env) (ne_cache_now env) (np_name mn, unwrap_or (np_generation mn) 0) chain
      (Option.bind (ne_nodes env (nm_node_name (np_spec mn))) no_system_uuid)"
  let ?g = "gate_identity (ne_now env) (np_spec mn) ?old (fst ?i) (gated_status env (np_spec mn) ?old)"
  have "pr_written (reconcile_with env (np_spec mn) ?old (fst ?g) (disable_mismatched chain (fst ?i))
      (snd ?g) (snd ?i)) = Some st'"
    using assms by (simp add: reconcile_machine_def Inr Let_def case_prod_beta)
  from reconcile_with_edge [OF this] show ?thesis by (simp add: gates_keep_phase)
qed

section \<open>Runs of reconciliations\<close>

text \<open>The phases a machine has gone through, latest first: each reconciliation starts from the
  status its predecessor wrote, of which anything but the phase may have been changed by others,
  and sees a cluster, machine and clock of its own.  A machine starts without a status.\<close>

inductive machine_run :: "phase list \<Rightarrow> bool" where
  fresh: "machine_run [Ph_Unknown]"
| pass: "machine_run (p # ps) \<Longrightarrow> st_phase (unwrap_or (np_status mn) default_npmc_status) = p
    \<Longrightarrow> ne_object env = Inr (Some mn) \<Longrightarrow> pr_written (reconcile env) = Some st
    \<Longrightarrow> machine_run (st_phase st # p # ps)"

inductive_cases machine_run_ConsE: "machine_run (p # ps)"

lemma machine_run_edge: "machine_run (q # p # ps) \<Longrightarrow> phase_edge p q \<and> machine_run (p # ps)"
  by (erule machine_run_ConsE) (auto simp: reconcile_def dest: reconcile_machine_edge)

text \<open>C6: In every run a machine that is powering off was draining before: since the last phase
  other than \<^verbatim>\<open>PoweringOff\<close> it has been in no phase but \<^verbatim>\<open>Draining\<close>, which is entered only by
  cordoning its Node.\<close>

theorem powering_off_was_draining:
  assumes "machine_run (Ph_PoweringOff # ps)"
  shows "\<exists>offs rest. ps = offs @ Ph_Draining # rest \<and> set offs \<subseteq> {Ph_PoweringOff}"
  using assms
proof (induction ps)
  case Nil
  then show ?case by (auto elim: machine_run.cases)
next
  case (Cons p ps)
  then have e: "phase_edge p Ph_PoweringOff" "machine_run (p # ps)" using machine_run_edge by blast+
  then consider "p = Ph_Draining" | "p = Ph_PoweringOff" by (auto simp: phase_edge_def)
  then show ?case
  proof cases
    case 1
    then show ?thesis by (intro exI [of _ "[]"] exI [of _ ps]) simp
  next
    case 2
    then obtain offs rest where "ps = offs @ Ph_Draining # rest" "set offs \<subseteq> {Ph_PoweringOff}"
      using Cons.IH e(2) by blast
    with 2 show ?thesis by (intro exI [of _ "p # offs"] exI [of _ rest]) simp
  qed
qed

lemma machine_run_pass:
  assumes "machine_run (p # ps)" and "st_phase st0 = p"
    and "map_option st_phase (pr_written (reconcile (sample_node_env policy reading node pods st0))) = Some q"
  shows "machine_run (q # p # ps)"
proof -
  let ?env = "sample_node_env policy reading node pods st0"
  obtain st where st: "pr_written (reconcile ?env) = Some st" "st_phase st = q" using assms(3) by auto
  let ?mn = "\<lparr> np_name = ''m1'', np_generation = Some 1, np_spec = sample_spec policy, np_status = Some st0 \<rparr>"
  have "ne_object ?env = Inr (Some ?mn)" by (simp add: sample_node_env_def)
  from pass [OF assms(1) _ this st(1)] show ?thesis using assms(2) st(2) by simp
qed

lemma powering_off_was_draining_witness:
  "machine_run [Ph_PoweringOff, Ph_Draining, Ph_Unknown]
   \<and> (\<exists>offs rest. [Ph_Draining, Ph_Unknown] = offs @ Ph_Draining # rest \<and> set offs \<subseteq> {Ph_PoweringOff})"
proof -
  let ?off = "sample_node_env AlwaysOff PS_On (Some (sample_node ''True'')) []"
  have "map_option st_phase (pr_written (reconcile (?off default_npmc_status))) = Some Ph_Draining"
    by code_simp
  from machine_run_pass [OF fresh _ this] have 1: "machine_run [Ph_Draining, Ph_Unknown]"
    by (simp add: default_npmc_status_def)
  have "map_option st_phase (pr_written (reconcile (?off (default_npmc_status\<lparr> st_phase := Ph_Draining,
      st_phase_since := Some (secs 99990) \<rparr>)))) = Some Ph_PoweringOff"
    by code_simp
  from machine_run_pass [OF 1 _ this] have "machine_run [Ph_PoweringOff, Ph_Draining, Ph_Unknown]"
    by simp
  with powering_off_was_draining [OF this] show ?thesis by simp
qed

end
