(* ===== verification/PoolController.thy ===== *)
theory PoolController
  imports Plan Membership Lifecycle ControllerBase
begin

text \<open>
  \<^verbatim>\<open>controller/node_scaling_pool.rs\<close>: one reconciliation of a pool, from the machines, Nodes and
  pods in the caches to the decisions written on the machines and the pool's own status.  What
  is in the caches, the clock readings and the API server's answers are the record
  \<^verbatim>\<open>pool_env\<close>; what is sent is logged in order.
\<close>

section \<open>What a reconciliation sees\<close>

datatype decision_verbosity = V_Quiet | V_Summary | V_Detailed

record pool_env =
  pe_nodes :: "knode list"
  pe_pods :: "kpod list"
  pe_machines :: "npmc list"
  pe_pools :: "pool list"
  pe_now :: instant
  pe_member_clock :: "string \<Rightarrow> instant"
  pe_decide_clock :: "nat \<Rightarrow> instant"
  pe_warned :: "string btmap"
  pe_verbosity :: decision_verbosity
  pe_decide_answer :: "nat \<Rightarrow> string + unit"
  pe_status_answer :: "string + unit"

datatype pool_effect =
    PE_Decide string scaling_decision
  | PE_PoolEvent string string
  | PE_MachineEvent string string string

definition INTERVAL :: duration where "INTERVAL = secs 15"

definition lookup_node :: "pool_env \<Rightarrow> string \<Rightarrow> knode option" where
  "lookup_node env name = find (\<lambda>n. no_name n = name) (pe_nodes env)"

section \<open>The state of a member\<close>

definition reading_refuted :: "npmc_status \<Rightarrow> bool" where
  "reading_refuted st =
     list_ex (\<lambda>c. c_type c = COND_POWER_STATE_CONSISTENT \<and> c_status c = ''False'') (st_conditions st)"

definition decision_of :: "npmc_status \<Rightarrow> string list \<Rightarrow> power_target option" where
  "decision_of st pools =
     (case st_scaling_decision st of
        Some d \<Rightarrow> if sdn_pool d \<in> set pools then Some (sdn_target d) else None
      | None \<Rightarrow> None)"

definition phase_state :: "npmc_status \<Rightarrow> member_state" where
  "phase_state st =
     (case st_phase st of
        Ph_On \<Rightarrow> if st_node_ready st then Online else Booting
      | Ph_PoweringOn \<Rightarrow> Booting
      | Ph_Off \<Rightarrow> Offline
      | Ph_Standby \<Rightarrow> Offline
      | Ph_Draining \<Rightarrow> Leaving
      | Ph_PoweringOff \<Rightarrow> Leaving
      | _ \<Rightarrow> Unavailable)"

definition member_state_of :: "npmc \<Rightarrow> string list \<Rightarrow> member_state" where
  "member_state_of mn pools =
     (let st = unwrap_or (np_status mn) default_npmc_status;
          ready_on = (st_phase st = Ph_On \<and> st_node_ready st)
      in if reading_refuted st then Unavailable
         else if nm_power_policy (np_spec mn) = AlwaysOn \<and> ready_on then Online
         else if nm_power_policy (np_spec mn) \<noteq> Auto then Unavailable
         else (case decision_of st pools of
                 Some Target_Off \<Rightarrow> if st_phase st \<in> {Ph_Off, Ph_Standby} then Offline else Leaving
               | Some Target_On \<Rightarrow>
                   if ready_on then Online
                   else if st_phase st \<in> {Ph_Error, Ph_BootFailed} then Unavailable else Booting
               | None \<Rightarrow> phase_state st))"

section \<open>Boot failures and manual changes\<close>

record special =
  sp_state :: "member_state option"
  sp_note :: "string option"
  sp_adopted_at :: "instant option"
  sp_release_after :: "instant option"

definition default_special :: special where
  "default_special = \<lparr> sp_state = None, sp_note = None, sp_adopted_at = None, sp_release_after = None \<rparr>"

definition unavailable_because :: "string \<Rightarrow> special" where
  "unavailable_because why = default_special\<lparr> sp_state := Some Unavailable, sp_note := Some why \<rparr>"

definition boot_failed_special :: "boot_failure \<Rightarrow> nat \<Rightarrow> special" where
  "boot_failed_special f boot_timeout =
     unavailable_because (''boot failed at '' @ hhmmss (bf_time f) @ '': on '' @ show_nat (boot_timeout div 60)
       @ ''m+ without Ready; released hold; ''
       @ (if bf_left_on f then ''left on (powered on by hand, LeaveOn)'' else ''powering off''))"

definition in_backoff :: "npmc_status \<Rightarrow> pool_spec \<Rightarrow> instant \<Rightarrow> bool" where
  "in_backoff st spec now = is_some_and (st_boot_failure st)
     (\<lambda>f. \<not> bf_left_on f
          \<and> now < bf_time f + secs (as_i64 (su_boot_failure_backoff_seconds (ps_scale_up spec))))"

definition in_cooldown :: "npmc_status \<Rightarrow> nat \<Rightarrow> instant \<Rightarrow> bool" where
  "in_cooldown st cooldown now = is_some_and (st_manual_power_off st)
     (\<lambda>off. 0 < cooldown \<and> now < mc_time off + secs (as_i64 cooldown))"

text \<open>A member that is off.\<close>

definition offline_special :: "npmc_status \<Rightarrow> pool_spec \<Rightarrow> nat \<Rightarrow> instant \<Rightarrow> special" where
  "offline_special st spec cooldown now =
     (case (if in_backoff st spec now then st_boot_failure st else None) of
        Some f \<Rightarrow> unavailable_because (''boot failed at '' @ hhmmss (bf_time f) @ ''; not woken again until ''
          @ hhmmss (bf_time f + secs (as_i64 (su_boot_failure_backoff_seconds (ps_scale_up spec)))))
      | None \<Rightarrow>
          (case st_manual_power_off st of
             None \<Rightarrow> default_special
           | Some off \<Rightarrow>
               if in_cooldown st cooldown now then
                 unavailable_because (''manually powered off at '' @ hhmmss (mc_time off)
                   @ ''; not woken again until '' @ hhmmss (mc_time off + secs (as_i64 cooldown)))
               else if now < mc_time off + secs 600 then
                 default_special\<lparr> sp_note := Some (''manually powered off at '' @ hhmmss (mc_time off)
                   @ ''; back under management'') \<rparr>
               else default_special))"

text \<open>A member someone powered on.\<close>

definition manual_special :: "npmc_status \<Rightarrow> manual_power_change \<Rightarrow> manual_power_on_policy \<Rightarrow> pool_spec \<Rightarrow> special" where
  "manual_special st on policy spec =
     (let since = ''manually powered on at '' @ hhmmss (mc_time on) in
      case policy of
        LeaveOn \<Rightarrow>
          if st_node_ready st then
            default_special\<lparr> sp_state := Some Manual, sp_note := Some (since @ ''; policy LeaveOn; not managing'') \<rparr>
          else unavailable_because (since @ '', not Ready yet; policy LeaveOn; not managing'')
      | Adopt \<Rightarrow>
          default_special\<lparr> sp_note := Some (since @ ''; policy Adopt; managed as if this pool woke it''),
            sp_adopted_at := Some (mc_time on) \<rparr>
      | ManualPowerOff \<Rightarrow>
          (let after = mc_time on + secs (as_i64 (ps_manual_power_on_grace_seconds spec)) in
           default_special\<lparr> sp_note := Some (since @ ''; policy PowerOff; powered off after '' @ hhmmss after),
             sp_release_after := Some after \<rparr>))"

definition classify ::
    "npmc_status \<Rightarrow> member_state \<Rightarrow> manual_power_on_policy \<Rightarrow> pool_spec \<Rightarrow> nat \<Rightarrow> nat \<Rightarrow> instant \<Rightarrow> special" where
  "classify st base policy spec boot_timeout cooldown now =
     (case (if st_phase st = Ph_BootFailed then st_boot_failure st else None) of
        Some f \<Rightarrow> boot_failed_special f boot_timeout
      | None \<Rightarrow>
          if base = Offline then offline_special st spec cooldown now
          else (case st_manual_power_on st of
                  None \<Rightarrow> default_special
                | Some on \<Rightarrow> manual_special st on policy spec))"

section \<open>A member\<close>

definition ignored_pod :: "pool_spec \<Rightarrow> kpod \<Rightarrow> bool" where
  "ignored_pod spec pod =
     (sd_ignore_daemon_set_utilization (ps_scale_down spec) \<and> is_daemonset_pod pod
      \<or> sd_ignore_non_selecting_pod_utilization (ps_scale_down spec)
         \<and> \<not> explicitly_selects (from_pod pod) (ps_node_selector spec))"

record member_pods =
  mp_requested :: resource_amounts
  mp_counted :: resource_amounts
  mp_movable :: "pod_view list"
  mp_blocking :: "string list"

definition add_member_pod :: "pool_spec \<Rightarrow> member_pods \<Rightarrow> kpod \<Rightarrow> member_pods" where
  "add_member_pod spec acc pod =
     (if \<not> is_active pod then acc
      else
        (let requests = pod_requests pod;
             acc = acc\<lparr> mp_requested := ra_add (mp_requested acc) requests,
                        mp_counted := (if ignored_pod spec pod then mp_counted acc
                                       else ra_add (mp_counted acc) requests) \<rparr>
         in case drain_class_of pod of
              DC_Ignore \<Rightarrow> acc
            | DC_Evict \<Rightarrow> acc\<lparr> mp_movable := mp_movable acc @ [from_pod pod] \<rparr>
            | DC_Block why \<Rightarrow> acc\<lparr> mp_blocking := mp_blocking acc
                @ [unwrap_or (p_namespace pod) '''' @ ''/'' @ unwrap_or (p_name pod) '''' @ '' ('' @ why @ '')''] \<rparr>))"

definition member_pods_of :: "pool_spec \<Rightarrow> kpod list \<Rightarrow> member_pods" where
  "member_pods_of spec pods = foldl (add_member_pod spec)
     \<lparr> mp_requested = zero_amounts, mp_counted = zero_amounts, mp_movable = [], mp_blocking = [] \<rparr> pods"

text \<open>When the Node last became Ready, to the second.\<close>

definition ready_since :: "knode \<Rightarrow> instant option" where
  "ready_since node =
     (case Option.bind (no_conditions node) (find (\<lambda>c. nc_type c = ''Ready'' \<and> nc_status c = ''True'')) of
        Some c \<Rightarrow> map_option secs (nc_last_transition c)
      | None \<Rightarrow> None)"

definition registering_resources :: "knode \<Rightarrow> npmc_status \<Rightarrow> nat \<Rightarrow> instant \<Rightarrow> int btmap" where
  "registering_resources node st boot_timeout now =
     (case ready_since node of
        Some t \<Rightarrow>
          if now - t < secs (as_i64 boot_timeout) then
            filter (\<lambda>(k, v). 0 < v \<and> unwrap_or (bt_get (node_extended node) k) 0 = 0) (st_extended_resources st)
          else []
      | None \<Rightarrow> [])"

definition member_allocatable :: "knode \<Rightarrow> npmc_status \<Rightarrow> resource_amounts" where
  "member_allocatable node st =
     (let a = node_allocatable node in
      if 0 < cpu_millis a then a else unwrap_or (st_allocatable st) zero_amounts)"

definition pools_named :: "pool_env \<Rightarrow> string list \<Rightarrow> pool list" where
  "pools_named env names = filter (\<lambda>p. po_name p \<in> set names) (pe_pools env)"

definition member_special :: "pool_env \<Rightarrow> npmc \<Rightarrow> string list \<Rightarrow> pool \<Rightarrow> special" where
  "member_special env mn member_of pool =
     (let st = unwrap_or (np_status mn) default_npmc_status;
          pools = pools_named env member_of;
          boot_timeout = effective_boot_timeout (lc_boot_timeout_seconds (nm_lifecycle (np_spec mn)))
            (map (\<lambda>p. su_boot_timeout_seconds (ps_scale_up (po_spec p))) pools);
          policy = effective_manual_power_on_policy (nm_manual_power_on_policy (np_spec mn))
            (map (\<lambda>p. ps_manual_power_on_policy (po_spec p)) pools);
          cooldown = effective_manual_power_off_cooldown (nm_manual_power_off_cooldown_seconds (np_spec mn))
            (map (\<lambda>p. ps_manual_power_off_cooldown_seconds (po_spec p)) pools)
      in classify st (member_state_of mn member_of) policy (po_spec pool) boot_timeout cooldown
           (pe_member_clock env (np_name mn)))"

definition woken_by :: "npmc_status \<Rightarrow> string list \<Rightarrow> string option" where
  "woken_by st member_of =
     (case st_scaling_decision st of
        Some d \<Rightarrow> if sdn_target d = Target_On \<and> sdn_pool d \<in> set member_of then Some (sdn_pool d) else None
      | None \<Rightarrow> None)"

definition build_member :: "pool_env \<Rightarrow> npmc \<Rightarrow> string list \<Rightarrow> pool \<Rightarrow> member option" where
  "build_member env mn member_of pool =
     (case lookup_node env (nm_node_name (np_spec mn)) of
        None \<Rightarrow> None
      | Some node \<Rightarrow>
          (let st = unwrap_or (np_status mn) default_npmc_status;
               pods = member_pods_of (po_spec pool) (pods_on (pe_pods env) (nm_node_name (np_spec mn)));
               boot_timeout = effective_boot_timeout (lc_boot_timeout_seconds (nm_lifecycle (np_spec mn)))
                 (map (\<lambda>p. su_boot_timeout_seconds (ps_scale_up (po_spec p))) (pools_named env member_of));
               now = pe_member_clock env (np_name mn);
               special = member_special env mn member_of pool
           in Some \<lparr> m_name = np_name mn,
                m_state = unwrap_or (sp_state special) (member_state_of mn member_of),
                m_auto = (nm_power_policy (np_spec mn) = Auto),
                m_labels = no_labels node, m_taints = unwrap_or (no_taints node) [],
                m_allocatable = member_allocatable node st,
                m_requested = mp_requested pods, m_counted = mp_counted pods,
                m_movable_pods = mp_movable pods, m_blocking_pods = mp_blocking pods,
                m_drain_failed_at = st_drain_failed_at st, m_s3_capable = s3_capable st now,
                m_registering = registering_resources node st boot_timeout now,
                m_woken_by = woken_by st member_of, m_note = sp_note special,
                m_adopted_at = sp_adopted_at special, m_release_after = sp_release_after special \<rparr>))"

section \<open>Everything else the plan needs\<close>

definition node_used :: "kpod list \<Rightarrow> resource_amounts" where
  "node_used pods = foldl (\<lambda>used pod. if is_active pod then ra_add used (pod_requests pod) else used) zero_amounts pods"

definition external_nodes :: "pool_env \<Rightarrow> external_node list" where
  "external_nodes env =
     (let auto_managed = map (\<lambda>c. nm_node_name (np_spec c))
            (filter (\<lambda>c. nm_power_policy (np_spec c) = Auto) (pe_machines env))
      in map (\<lambda>n. \<lparr> en_name = no_name n, en_labels = no_labels n, en_taints = unwrap_or (no_taints n) [],
             en_free = ra_minus (node_allocatable n) (node_used (pods_on (pe_pods env) (no_name n))) \<rparr>)
           (filter (\<lambda>n. no_name n \<notin> set auto_managed \<and> node_ready n \<and> \<not> is_cordoned n) (pe_nodes env)))"

definition status_of_pool :: "pool list \<Rightarrow> string \<Rightarrow> pool_status" where
  "status_of_pool pools name =
     unwrap_or (Option.bind (find (\<lambda>p. po_name p = name) pools) po_status) default_pool_status"

definition other_pools_holding :: "string \<Rightarrow> string list \<Rightarrow> string \<Rightarrow> pool list \<Rightarrow> (string \<times> string) list" where
  "other_pools_holding machine member_of this_pool pools =
     filter_map (\<lambda>other.
         let st = status_of_pool pools other in
         if machine \<in> set (pt_releasable st) then None
         else Some (other, unwrap_or (bt_get (pt_needed st) machine) ''not evaluated yet''))
       (filter (\<lambda>p. p \<noteq> this_pool) member_of)"

section \<open>Preferred nodes\<close>

fun preferred_node_problems ::
    "node_selector \<Rightarrow> (string \<Rightarrow> string btmap option) \<Rightarrow> preferred_node list \<Rightarrow> string list \<times> string list" where
  "preferred_node_problems selector labels_of [] = ([], [])"
| "preferred_node_problems selector labels_of (p # ps) =
     (case preferred_node_problems selector labels_of ps of
        (missing, outside) \<Rightarrow>
          (case labels_of (pn_name p) of
             None \<Rightarrow> (pn_name p # missing, outside)
           | Some labels \<Rightarrow>
               if \<not> selector_matches selector labels then (missing, pn_name p # outside)
               else (missing, outside)))"

text \<open>The condition, and what is remembered to have been warned about.\<close>

definition check_preferred_nodes :: "pool_env \<Rightarrow> pool \<Rightarrow> string btmap \<Rightarrow> pool_status \<Rightarrow> pool_status \<times> string btmap" where
  "check_preferred_nodes env pool warned st =
     (let preferred = su_preferred_nodes (ps_scale_up (po_spec pool));
          (missing, outside) = preferred_node_problems (ps_node_selector (po_spec pool))
            (\<lambda>n. map_option no_labels (lookup_node env n)) preferred;
          problems = (if missing = [] then [] else [''no such Node: '' @ join '', '' missing])
            @ (if outside = [] then [] else [''not selected by this pool's nodeSelector: '' @ join '', '' outside]);
          key = po_name pool @ ''/preferredNodes''
      in if problems = [] then
           (if preferred = [] then
              st\<lparr> pt_conditions := filter (\<lambda>c. c_type c \<noteq> COND_PREFERRED_NODES_VALID) (pt_conditions st) \<rparr>
            else st\<lparr> pt_conditions := set_condition (pt_conditions st) COND_PREFERRED_NODES_VALID ''True''
                       ''AllSelected'' '''' (pe_now env) \<rparr>,
            snd (first_time warned key None))
         else
           (let message = ''scaleUp.preferredNodes entries ignored ('' @ join ''; '' problems
                  @ ''); the other entries apply'' in
            (st\<lparr> pt_conditions := set_condition (pt_conditions st) COND_PREFERRED_NODES_VALID ''False''
                   (if missing = [] then ''NotInPool'' else ''UnknownNodes'') message (pe_now env) \<rparr>,
             snd (first_time warned key (Some message)))))"

section \<open>Recording decisions\<close>

definition repeats_latest :: "decision_record list \<Rightarrow> planned_decision \<Rightarrow> bool" where
  "repeats_latest recent d =
     (dc_action d = DA_NoAction \<and> recent \<noteq> []
      \<and> dr_action (last recent) = DA_NoAction \<and> dr_reason (last recent) = dc_reason d)"

definition decision_record_of :: "instant \<Rightarrow> planned_decision \<Rightarrow> decision_record" where
  "decision_record_of now d = \<lparr> dr_time = now, dr_action = dc_action d, dr_node = dc_node d,
     dr_reason = dc_reason d, dr_candidates = dc_candidates d \<rparr>"

fun append_decisions ::
    "decision_record list \<Rightarrow> planned_decision list \<Rightarrow> instant \<Rightarrow> decision_record list \<times> planned_decision list" where
  "append_decisions recent [] now = (recent, [])"
| "append_decisions recent (d # ds) now =
     (if repeats_latest recent d then append_decisions recent ds now
      else (case append_decisions (recent @ [decision_record_of now d]) ds now of
              (recent, new) \<Rightarrow> (recent, d # new)))"

definition record_decisions ::
    "decision_record list \<Rightarrow> planned_decision list \<Rightarrow> instant \<Rightarrow> decision_record list \<times> planned_decision list" where
  "record_decisions recent decisions now =
     (case append_decisions recent decisions now of
        (recent, new) \<Rightarrow> (drop (length recent - MAX_RECENT_DECISIONS) recent, new))"

section \<open>Carrying the plan out\<close>

definition no_action_event :: "planned_decision \<Rightarrow> pool_effect list" where
  "no_action_event d =
     (if starts_with (dc_reason d) ''pod '' then [PE_PoolEvent ''ScaleUpBlocked'' (dc_reason d)]
      else if starts_with (dc_reason d) ''scale-down held'' then [PE_PoolEvent ''ScaleDownBlocked'' (dc_reason d)]
      else [])"

definition target_of :: "decision_action \<Rightarrow> power_target" where
  "target_of a = (if a = DA_PowerOn then Target_On else Target_Off)"

definition decision_for :: "pool_env \<Rightarrow> string \<Rightarrow> planned_decision \<Rightarrow> nat \<Rightarrow> scaling_decision" where
  "decision_for env pool d k = \<lparr> sdn_pool = pool, sdn_target = target_of (dc_action d),
     sdn_reason = dc_reason d, sdn_time = pe_decide_clock env k \<rparr>"

text \<open>The loop over the new decisions: the first failed write ends it.\<close>

fun carry_out :: "pool_env \<Rightarrow> string \<Rightarrow> npmc list \<Rightarrow> planned_decision list \<Rightarrow> pool_effect list \<Rightarrow> (string + unit) \<times> pool_effect list" where
  "carry_out env pool managed [] log = (Inr (), log)"
| "carry_out env pool managed (d # ds) log =
     (if dc_action d = DA_NoAction then
        carry_out env pool managed ds
          (log @ (if pe_verbosity env = V_Quiet then [] else no_action_event d))
      else
        (let machine = unwrap_or (dc_node d) '''';
             reason = (if dc_action d = DA_PowerOn then ''ScaleUpSelected'' else ''ScaleDownSelected'');
             log' = log @ [PE_Decide machine (decision_for env pool d (length log))]
         in case pe_decide_answer env (length log) of
              Inl e \<Rightarrow> (Inl e, log')
            | Inr _ \<Rightarrow> carry_out env pool managed ds
                (log' @ [PE_PoolEvent reason (machine @ '': '' @ dc_reason d)]
                 @ (case find (\<lambda>m. np_name m = machine) managed of
                      Some mn \<Rightarrow> [PE_MachineEvent machine reason (''NodeScalingPool '' @ pool @ '': '' @ dc_reason d)]
                    | None \<Rightarrow> []))))"

section \<open>One reconciliation\<close>

text \<open>The pools a machine belongs to, when this pool is one of them.\<close>

definition pools_of :: "pool_env \<Rightarrow> npmc \<Rightarrow> string list" where
  "pools_of env mn = membership_pools
     (resolve (map_option no_labels (lookup_node env (nm_node_name (np_spec mn)))) (pe_pools env))"

definition managed_machines :: "pool_env \<Rightarrow> pool \<Rightarrow> npmc list" where
  "managed_machines env pool = filter (\<lambda>mn. po_name pool \<in> set (pools_of env mn)) (pe_machines env)"

definition kept_by_others :: "pool_env \<Rightarrow> pool \<Rightarrow> (string \<times> string) list btmap" where
  "kept_by_others env pool = foldl (\<lambda>m mn.
       let holds = other_pools_holding (np_name mn) (pools_of env mn) (po_name pool) (pe_pools env) in
       if holds = [] then m else bt_insert (np_name mn) holds m)
     [] (managed_machines env pool)"

definition snapshot_of :: "pool_env \<Rightarrow> pool \<Rightarrow> pool_status \<Rightarrow> pool_snapshot" where
  "snapshot_of env pool old = \<lparr>
     sn_spec = po_spec pool,
     sn_members = filter_map (\<lambda>mn. build_member env mn (pools_of env mn) pool) (managed_machines env pool),
     sn_pending = map from_pod (filter is_unschedulable (pe_pods env)),
     sn_now = pe_now env,
     sn_last_scale_up = pt_last_scale_up_time old,
     sn_unneeded_since = pt_unneeded_since old,
     sn_external = external_nodes env,
     sn_kept_by_others = kept_by_others env pool \<rparr>"

record pool_result =
  pl_result :: "string + duration"
  pl_log :: "pool_effect list"
  pl_written :: "pool_status option"
  pl_warned :: "string btmap"

definition pool_status_after :: "pool_env \<Rightarrow> pool \<Rightarrow> plan \<Rightarrow> decision_record list \<Rightarrow> pool_status \<Rightarrow> pool_status" where
  "pool_status_after env pool p recent st =
     (let managed = managed_machines env pool in
      st\<lparr> pt_members := sort (map np_name managed),
          pt_conflicts := [],
          pt_releasable := pl_releasable p,
          pt_needed := pl_needed p,
          pt_total_nodes := as_u32 (length managed),
          pt_online_nodes := as_u32 (pl_online p + length (pl_power_on p) - min (length (pl_power_off p)) (pl_online p)),
          pt_pending_pods := pl_relevant_pending p,
          pt_unneeded_since := pl_unneeded_since p,
          pt_message := Some (pl_message p),
          pt_last_scale_up_time := (if pl_power_on p \<noteq> [] then Some (pe_now env) else pt_last_scale_up_time st),
          pt_last_scale_down_time := (if pl_power_off p \<noteq> [] then Some (pe_now env) else pt_last_scale_down_time st),
          pt_recent_decisions := recent \<rparr>)"

definition pool_reconcile :: "pool_env \<Rightarrow> pool \<Rightarrow> pool_result" where
  "pool_reconcile env pool =
     (let old = unwrap_or (po_status pool) default_pool_status;
          warned = snd (first_time (pe_warned env) (po_name pool @ ''/deprecated'')
            (deprecation_warning (ps_scale_down (po_spec pool))));
          (st, warned) = check_preferred_nodes env pool warned old;
          p = plan_of (snapshot_of env pool old);
          (recent, new) = record_decisions (pt_recent_decisions st) (pl_decisions p) (pe_now env)
      in case carry_out env (po_name pool) (managed_machines env pool) new [] of
           (Inl e, log) \<Rightarrow> \<lparr> pl_result = Inl e, pl_log = log, pl_written = None, pl_warned = warned \<rparr>
         | (Inr _, log) \<Rightarrow>
             (let st' = pool_status_after env pool p recent st in
              \<lparr> pl_result = (if st' = old then Inr INTERVAL
                   else case pe_status_answer env of Inl e \<Rightarrow> Inl e | Inr _ \<Rightarrow> Inr INTERVAL),
                pl_log = log, pl_written = (if st' = old then None else Some st'), pl_warned = warned \<rparr>))"

end
