(* ===== verification/Pool_Safety.thy ===== *)
theory Pool_Safety
  imports PoolController Plan_Safety Machine_Safety
begin

text \<open>
  What the pool controller may decide about a machine, down from the plan to the status of the
  machine and of the other pools.
\<close>

section \<open>The log and the decisions\<close>

definition is_action :: "planned_decision \<Rightarrow> bool" where
  "is_action d = (dc_action d \<noteq> DA_NoAction)"

lemma append_decisions_grows:
  "fst (append_decisions recent ds now) = recent @ map (decision_record_of now) (snd (append_decisions recent ds now))"
  by (induction recent ds now rule: append_decisions.induct) (auto split: prod.split)

lemma append_decisions_actions:
  "filter is_action (snd (append_decisions recent ds now)) = filter is_action ds"
  by (induction recent ds now rule: append_decisions.induct)
     (auto simp: is_action_def repeats_latest_def split: prod.split)

lemma append_decisions_subset: "set (snd (append_decisions recent ds now)) \<subseteq> set ds"
  by (induction recent ds now rule: append_decisions.induct) (auto split: prod.split)

lemma record_decisions_snd: "snd (record_decisions recent ds now) = snd (append_decisions recent ds now)"
  by (simp add: record_decisions_def split: prod.split)

text \<open>The decision log keeps the twenty latest records in order, and a power action is never
  left out of what is recorded and announced; only a reason for doing nothing that repeats the
  latest record is.\<close>

theorem record_decisions_keeps_actions:
  "length (fst (record_decisions recent ds now)) \<le> 20
   \<and> (\<exists>older. recent @ map (decision_record_of now) (snd (record_decisions recent ds now))
              = older @ fst (record_decisions recent ds now))
   \<and> filter is_action (snd (record_decisions recent ds now)) = filter is_action ds
   \<and> set (snd (record_decisions recent ds now)) \<subseteq> set ds"
proof (intro conjI)
  let ?a = "append_decisions recent ds now"
  have r: "fst (record_decisions recent ds now) = drop (length (fst ?a) - 20) (fst ?a)"
    by (simp add: record_decisions_def MAX_RECENT_DECISIONS_def split: prod.split)
  show "length (fst (record_decisions recent ds now)) \<le> 20" by (simp add: r)
  show "\<exists>older. recent @ map (decision_record_of now) (snd (record_decisions recent ds now))
              = older @ fst (record_decisions recent ds now)"
    unfolding record_decisions_snd append_decisions_grows [symmetric] r
    by (rule exI [of _ "take (length (fst ?a) - 20) (fst ?a)"]) simp
qed (simp_all add: record_decisions_snd append_decisions_actions append_decisions_subset)

text \<open>A reason is compared with the latest record, not with the latest reason: after a power
  action in between it is recorded again.\<close>

lemma reason_recorded_again:
  "let idle = \<lparr> dc_action = DA_NoAction, dc_node = None, dc_reason = r, dc_live_reason = r, dc_candidates = c \<rparr>;
       off = \<lparr> dc_action = DA_PowerOff, dc_node = Some n, dc_reason = q, dc_live_reason = q, dc_candidates = c \<rparr>
   in snd (record_decisions [] [idle, idle] now) = [idle]
      \<and> snd (record_decisions [] [idle, off, idle] now) = [idle, off, idle]"
  by (simp add: record_decisions_def repeats_latest_def decision_record_of_def Let_def)

lemma carry_out_decides:
  assumes "PE_Decide name d \<in> set (snd (carry_out env pool managed ds log))" "PE_Decide name d \<notin> set log"
  shows "\<exists>p \<in> set ds. is_action p \<and> name = unwrap_or (dc_node p) '''' \<and> sdn_target d = target_of (dc_action p)
    \<and> sdn_pool d = pool"
  using assms
proof (induction env pool managed ds log rule: carry_out.induct)
  case (2 env pool managed p ps log)
  show ?case
  proof (cases "dc_action p = DA_NoAction")
    case True
    have "PE_Decide name d \<notin> set (no_action_event p)" by (simp add: no_action_event_def)
    with 2 True show ?thesis by auto
  next
    case False
    let ?machine = "unwrap_or (dc_node p) ''''"
    let ?d = "decision_for env pool p (length log)"
    show ?thesis
    proof (cases "PE_Decide name d = PE_Decide ?machine ?d")
      case True
      then show ?thesis using False by (intro bexI [of _ p]) (simp_all add: decision_for_def is_action_def)
    next
      case other: False
      show ?thesis
      proof (cases "pe_decide_answer env (length log)")
        case (Inl e)
        then show ?thesis using 2(3,4) False other by (auto simp: Let_def)
      next
        case (Inr u)
        have "PE_Decide name d \<notin> set (case find (\<lambda>m. np_name m = ?machine) managed of
            Some mn \<Rightarrow> [PE_MachineEvent ?machine r t] | None \<Rightarrow> [])" for r t by (simp split: option.split)
        then show ?thesis using 2 False other Inr by (auto simp: Let_def)
      qed
    qed
  qed
qed simp

lemma plan_decision_source:
  assumes "p \<in> set (plan_decisions s)" "is_action p"
  shows "(dc_action p = DA_PowerOn \<and> unwrap_or (dc_node p) '''' \<in> fst ` set (us_opened (scale_up s)))
    \<or> (dc_action p = DA_PowerOff \<and> unwrap_or (dc_node p) '''' \<in> fst ` set (dn_power_off (scale_down s)))"
  using assms by (auto simp: plan_decisions_def no_action_decision_def action_decision_def is_action_def Let_def
      split: if_splits intro!: image_eqI)

lemma pool_decides:
  assumes "PE_Decide name d \<in> set (pl_log (pool_reconcile env pool))"
  shows "sdn_pool d = po_name pool
    \<and> (sdn_target d = Target_On
         \<and> name \<in> fst ` set (us_opened (scale_up (snapshot_of env pool (unwrap_or (po_status pool) default_pool_status))))
       \<or> sdn_target d = Target_Off
         \<and> name \<in> fst ` set (dn_power_off (scale_down (snapshot_of env pool (unwrap_or (po_status pool) default_pool_status)))))"
proof -
  let ?old = "unwrap_or (po_status pool) default_pool_status"
  let ?s = "snapshot_of env pool ?old"
  obtain ds where ds: "pl_log (pool_reconcile env pool) = snd (carry_out env (po_name pool) (managed_machines env pool) ds [])"
      "set ds \<subseteq> set (plan_decisions ?s)"
  proof -
    let ?st = "check_preferred_nodes env pool (snd (first_time (pe_warned env) (po_name pool @ ''/deprecated'')
            (deprecation_warning (ps_scale_down (po_spec pool))))) ?old"
    let ?r = "record_decisions (pt_recent_decisions (fst ?st)) (pl_decisions (plan_of ?s)) (pe_now env)"
    have "pl_log (pool_reconcile env pool) = snd (carry_out env (po_name pool) (managed_machines env pool) (snd ?r) [])"
      unfolding pool_reconcile_def Let_def case_prod_beta by (simp split: sum.split)
    moreover have "set (snd ?r) \<subseteq> set (plan_decisions ?s)"
      unfolding record_decisions_snd plan_sel by (rule append_decisions_subset)
    ultimately show ?thesis by (rule that)
  qed
  obtain p where p: "p \<in> set ds" "is_action p" "name = unwrap_or (dc_node p) ''''"
      "sdn_target d = target_of (dc_action p)" "sdn_pool d = po_name pool"
    using carry_out_decides [of name d env "po_name pool" "managed_machines env pool" ds "[]"] assms
    unfolding ds(1) by auto
  then have "p \<in> set (plan_decisions ?s)" using ds(2) by blast
  from plan_decision_source [OF this p(2)] show ?thesis
    using p(3,4,5) by (auto simp: target_of_def)
qed

text \<open>The other way round: while the API server takes the decisions, all of the plan is written.\<close>

lemma carry_out_step:
  assumes "pe_decide_answer env (length log) = Inr ()" "is_action p"
  shows "\<exists>log'. carry_out env pool managed (p # ps) log = carry_out env pool managed ps log'
    \<and> set log \<subseteq> set log' \<and> PE_Decide (unwrap_or (dc_node p) '''') (decision_for env pool p (length log)) \<in> set log'"
proof -
  obtain rest where "carry_out env pool managed (p # ps) log = carry_out env pool managed ps
      (log @ PE_Decide (unwrap_or (dc_node p) '''') (decision_for env pool p (length log)) # rest)"
    using assms by (simp add: is_action_def Let_def)
  then show ?thesis by (intro exI conjI) (assumption, auto)
qed

lemma carry_out_writes:
  assumes "\<And>k. pe_decide_answer env k = Inr ()"
  shows "set log \<subseteq> set (snd (carry_out env pool managed ds log))
    \<and> (\<forall>p \<in> set ds. is_action p \<longrightarrow> (\<exists>d. PE_Decide (unwrap_or (dc_node p) '''') d \<in> set (snd (carry_out env pool managed ds log))
         \<and> sdn_target d = target_of (dc_action p)))"
proof (induction ds arbitrary: log)
  case (Cons p ps)
  show ?case
  proof (cases "is_action p")
    case False
    then obtain rest where "carry_out env pool managed (p # ps) log = carry_out env pool managed ps (log @ rest)"
      by (simp add: is_action_def)
    with Cons [of "log @ rest"] False show ?thesis by auto
  next
    case True
    let ?d = "decision_for env pool p (length log)"
    obtain log' where l: "carry_out env pool managed (p # ps) log = carry_out env pool managed ps log'"
      "set log \<subseteq> set log'" "PE_Decide (unwrap_or (dc_node p) '''') ?d \<in> set log'"
      using carry_out_step [OF assms True] by blast
    have t: "sdn_target ?d = target_of (dc_action p)" by (simp add: decision_for_def)
    note ih = Cons [of log']
    have "PE_Decide (unwrap_or (dc_node p) '''') ?d \<in> set (snd (carry_out env pool managed ps log'))"
      using ih l(3) by blast
    then show ?thesis using ih l(2) t unfolding l(1) by auto
  qed
qed simp

lemma pool_announces:
  assumes "\<And>k. pe_decide_answer env k = Inr ()"
  shows "name \<in> fst ` set (us_opened (scale_up (snapshot_of env pool (unwrap_or (po_status pool) default_pool_status))))
      \<Longrightarrow> \<exists>d. PE_Decide name d \<in> set (pl_log (pool_reconcile env pool)) \<and> sdn_target d = Target_On"
    and "name \<in> fst ` set (dn_power_off (scale_down (snapshot_of env pool (unwrap_or (po_status pool) default_pool_status))))
      \<Longrightarrow> \<exists>d. PE_Decide name d \<in> set (pl_log (pool_reconcile env pool)) \<and> sdn_target d = Target_Off"
proof -
  let ?old = "unwrap_or (po_status pool) default_pool_status"
  let ?s = "snapshot_of env pool ?old"
  let ?st = "check_preferred_nodes env pool (snd (first_time (pe_warned env) (po_name pool @ ''/deprecated'')
          (deprecation_warning (ps_scale_down (po_spec pool))))) ?old"
  let ?new = "snd (append_decisions (pt_recent_decisions (fst ?st)) (plan_decisions ?s) (pe_now env))"
  have log: "pl_log (pool_reconcile env pool) = snd (carry_out env (po_name pool) (managed_machines env pool) ?new [])"
    unfolding pool_reconcile_def Let_def case_prod_beta record_decisions_snd plan_sel by (simp split: sum.split)
  have w: "\<exists>d. PE_Decide n d \<in> set (pl_log (pool_reconcile env pool)) \<and> sdn_target d = target_of a"
    if "action_decision a c (n, r) \<in> set (plan_decisions ?s)" "a \<noteq> DA_NoAction" for a c n r
  proof -
    have "filter is_action ?new = filter is_action (plan_decisions ?s)" by (rule append_decisions_actions)
    moreover have "action_decision a c (n, r) \<in> set (filter is_action (plan_decisions ?s))"
      using that by (simp add: is_action_def action_decision_def)
    ultimately have "action_decision a c (n, r) \<in> set (filter is_action ?new)" by (simp only:)
    then have "action_decision a c (n, r) \<in> set ?new" "is_action (action_decision a c (n, r))"
      unfolding set_filter by blast+
    from this carry_out_writes [OF assms, of "[]" "po_name pool" "managed_machines env pool" ?new]
    show ?thesis unfolding log by (fastforce simp: action_decision_def)
  qed
  show "\<exists>d. PE_Decide name d \<in> set (pl_log (pool_reconcile env pool)) \<and> sdn_target d = Target_On"
    if n: "name \<in> fst ` set (us_opened (scale_up ?s))"
  proof -
    obtain r where "(name, r) \<in> set (us_opened (scale_up ?s))" using n by auto
    then have "action_decision DA_PowerOn (compact (sn_spec ?s) (ranked_up ?s)) (name, r) \<in> set (plan_decisions ?s)"
      by (auto simp: plan_decisions_def Let_def)
    from w [OF this] show ?thesis by (simp add: target_of_def)
  qed
  show "\<exists>d. PE_Decide name d \<in> set (pl_log (pool_reconcile env pool)) \<and> sdn_target d = Target_Off"
    if n: "name \<in> fst ` set (dn_power_off (scale_down ?s))"
  proof -
    obtain r where "(name, r) \<in> set (dn_power_off (scale_down ?s))" using n by auto
    then have "action_decision DA_PowerOff (compact (sn_spec ?s) (candidates ?s)) (name, r) \<in> set (plan_decisions ?s)"
      by (auto simp: plan_decisions_def Let_def)
    from w [OF this] show ?thesis by (simp add: target_of_def)
  qed
qed

section \<open>From members back to machines\<close>

definition machine_status :: "npmc \<Rightarrow> npmc_status" where
  "machine_status mn = unwrap_or (np_status mn) default_npmc_status"

lemma build_member_name: "build_member env mn ps pool = Some m \<Longrightarrow> m_name m = np_name mn"
  by (auto simp: build_member_def Let_def split: option.splits)

lemma build_member_state:
  "build_member env mn ps pool = Some m \<Longrightarrow>
     m_auto m = (nm_power_policy (np_spec mn) = Auto)
     \<and> m_state m = unwrap_or (sp_state (member_special env mn ps pool)) (member_state_of mn ps)"
  by (auto simp: build_member_def Let_def split: option.splits)

lemma build_member_blocking:
  "build_member env mn ps pool = Some m \<Longrightarrow>
     m_blocking_pods m = mp_blocking (member_pods_of (po_spec pool) (pods_on (pe_pods env) (nm_node_name (np_spec mn))))"
  by (auto simp: build_member_def Let_def split: option.splits)

lemma filter_map_names:
  "(\<And>x y. f x = Some y \<Longrightarrow> g y = h x) \<Longrightarrow> distinct (map h xs) \<Longrightarrow> distinct (map g (filter_map f xs))"
proof (induction xs)
  case (Cons x xs)
  have s: "g ` set (filter_map f xs) \<subseteq> h ` set xs"
    using Cons.prems(1) by (induction xs) (auto split: option.split)
  show ?case using Cons s by (cases "f x") auto
qed simp

lemma in_filter_map: "y \<in> set (filter_map f xs) \<Longrightarrow> \<exists>x \<in> set xs. f x = Some y"
  by (induction xs) (auto split: option.splits)

lemma snapshot_members_distinct:
  assumes "distinct (map np_name (pe_machines env))"
  shows "distinct (map m_name (sn_members (snapshot_of env pool old)))"
  using assms unfolding snapshot_of_def managed_machines_def
  by (auto intro!: filter_map_names [where h = np_name] simp: build_member_name distinct_map_filter)

lemma snapshot_member:
  assumes "m \<in> set (sn_members (snapshot_of env pool old))"
  obtains mn where "mn \<in> set (pe_machines env)" "po_name pool \<in> set (pools_of env mn)"
    "build_member env mn (pools_of env mn) pool = Some m" "m_name m = np_name mn"
  using assms build_member_name by (fastforce simp: snapshot_of_def managed_machines_def dest: in_filter_map)

text \<open>The holds of the other pools, as the plan sees them.\<close>

lemma kept_fold:
  "distinct (map np_name ms) \<Longrightarrow> mn \<in> set ms \<Longrightarrow>
   bt_get (foldl (\<lambda>m mn. if f mn = [] then m else bt_insert (np_name mn) (f mn) m) m0 ms) (np_name mn) =
     (if f mn = [] then bt_get m0 (np_name mn) else Some (f mn))"
proof -
  have other: "bt_get (foldl (\<lambda>m mn. if f mn = [] then m else bt_insert (np_name mn) (f mn) m) m0 ms) k = bt_get m0 k"
    if "k \<notin> np_name ` set ms" for k m0 ms
    using that by (induction ms arbitrary: m0) (auto simp: bt_simps)
  show "distinct (map np_name ms) \<Longrightarrow> mn \<in> set ms \<Longrightarrow> ?thesis"
    by (induction ms arbitrary: m0) (auto simp: bt_simps other, metis image_eqI)
qed

lemma kept_by_others_get:
  assumes "distinct (map np_name (pe_machines env))" "mn \<in> set (managed_machines env pool)"
  shows "unwrap_or (bt_get (kept_by_others env pool) (np_name mn)) [] =
    other_pools_holding (np_name mn) (pools_of env mn) (po_name pool) (pe_pools env)"
proof -
  have "distinct (map np_name (managed_machines env pool))"
    using assms(1) by (simp add: managed_machines_def distinct_map_filter)
  from kept_fold [OF this assms(2), of "\<lambda>mn. other_pools_holding (np_name mn) (pools_of env mn) (po_name pool) (pe_pools env)" "[]"]
  show ?thesis by (simp add: kept_by_others_def Let_def)
qed

lemma nobody_holds:
  "other_pools_holding name member_of this pools = [] \<longleftrightarrow>
     (\<forall>other \<in> set member_of. other \<noteq> this \<longrightarrow> name \<in> set (pt_releasable (status_of_pool pools other)))"
  by (induction member_of) (auto simp: other_pools_holding_def Let_def)

text \<open>The states a plan acts on, and what they say of the machine.\<close>

lemma special_states: "sp_state (classify st base policy spec bt cd now) \<in> {None, Some Unavailable, Some Manual}"
  by (auto simp: classify_def boot_failed_special_def unavailable_because_def default_special_def
      offline_special_def manual_special_def Let_def split: option.split manual_power_on_policy.split)

lemma online_member:
  assumes "build_member env mn ps pool = Some m" "m_state m = Online" "m_auto m"
  shows "nm_power_policy (np_spec mn) = Auto \<and> st_phase (machine_status mn) = Ph_On
    \<and> st_node_ready (machine_status mn) \<and> \<not> reading_refuted (machine_status mn)"
proof -
  have a: "nm_power_policy (np_spec mn) = Auto" "member_state_of mn ps = Online"
    using build_member_state [OF assms(1)] assms(2,3) special_states
    by (auto simp: member_special_def Let_def)
      (metis (no_types, lifting) insertE member_state.distinct option.inject singletonD unwrap_or_simps)
  then show ?thesis
    by (auto simp: member_state_of_def machine_status_def phase_state_def Let_def
        split: if_splits option.splits power_target.splits phase.splits)
qed

lemma offline_member:
  assumes "build_member env mn ps pool = Some m" "m_state m = Offline" "m_auto m"
  shows "nm_power_policy (np_spec mn) = Auto \<and> st_phase (machine_status mn) \<in> {Ph_Off, Ph_Standby}
    \<and> \<not> reading_refuted (machine_status mn)
    \<and> \<not> in_backoff (machine_status mn) (po_spec pool) (pe_member_clock env (np_name mn))
    \<and> \<not> in_cooldown (machine_status mn)
          (effective_manual_power_off_cooldown (nm_manual_power_off_cooldown_seconds (np_spec mn))
             (map (\<lambda>p. ps_manual_power_off_cooldown_seconds (po_spec p)) (pools_named env ps)))
          (pe_member_clock env (np_name mn))"
proof -
  let ?st = "machine_status mn" and ?now = "pe_member_clock env (np_name mn)"
  let ?cd = "effective_manual_power_off_cooldown (nm_manual_power_off_cooldown_seconds (np_spec mn))
             (map (\<lambda>p. ps_manual_power_off_cooldown_seconds (po_spec p)) (pools_named env ps))"
  have a: "nm_power_policy (np_spec mn) = Auto" "member_state_of mn ps = Offline"
      "sp_state (member_special env mn ps pool) = None"
    using build_member_state [OF assms(1)] assms(2,3) special_states
    by (auto simp: member_special_def Let_def)
      (metis (no_types, lifting) insertE member_state.distinct option.inject singletonD unwrap_or_simps)+
  have p: "st_phase ?st \<in> {Ph_Off, Ph_Standby}" "\<not> reading_refuted ?st"
    using a(1,2) by (auto simp: member_state_of_def machine_status_def phase_state_def Let_def
        split: if_splits option.splits power_target.splits phase.splits)
  obtain policy bt where "sp_state (classify ?st Offline policy (po_spec pool) bt ?cd ?now) = None"
    using a(3) by (simp add: member_special_def machine_status_def a(2) Let_def)
  then have o': "sp_state (offline_special ?st (po_spec pool) ?cd ?now) = None"
    using p(1) by (auto simp: classify_def)
  have b: "\<not> in_backoff ?st (po_spec pool) ?now"
  proof
    assume i: "in_backoff ?st (po_spec pool) ?now"
    then obtain f where "st_boot_failure ?st = Some f" by (auto simp: in_backoff_def is_some_and_iff)
    with i o' show False by (simp add: offline_special_def unavailable_because_def default_special_def)
  qed
  have "\<not> in_cooldown ?st ?cd ?now"
  proof
    assume i: "in_cooldown ?st ?cd ?now"
    then obtain off where "st_manual_power_off ?st = Some off" by (auto simp: in_cooldown_def is_some_and_iff)
    with i b o' show False by (simp add: offline_special_def unavailable_because_def default_special_def)
  qed
  with a p b show ?thesis by simp
qed

section \<open>What a pool decides\<close>

text \<open>A pool tells a machine to power off only when the machine is online under automatic
  policy, its power reading is not refuted by a live Node, this pool selects its Node, and every
  other pool that selects it lists it as releasable.\<close>

theorem power_off_needs_every_pool:
  assumes names: "distinct (map np_name (pe_machines env))"
    and decided: "PE_Decide name d \<in> set (pl_log (pool_reconcile env pool))" "sdn_target d = Target_Off"
  shows "\<exists>mn \<in> set (pe_machines env). np_name mn = name \<and> nm_power_policy (np_spec mn) = Auto
    \<and> st_phase (machine_status mn) = Ph_On \<and> st_node_ready (machine_status mn)
    \<and> \<not> reading_refuted (machine_status mn) \<and> po_name pool \<in> set (pools_of env mn)
    \<and> (\<forall>other \<in> set (pools_of env mn). other \<noteq> po_name pool
         \<longrightarrow> name \<in> set (pt_releasable (status_of_pool (pe_pools env) other)))"
proof -
  let ?s = "snapshot_of env pool (unwrap_or (po_status pool) default_pool_status)"
  have n: "name \<in> fst ` set (dn_power_off (scale_down ?s))" using pool_decides [OF decided(1)] decided(2) by auto
  have ds: "distinct (map m_name (sn_members ?s))" by (rule snapshot_members_distinct [OF names])
  obtain m where m: "m \<in> set (sn_members ?s)" "m_auto m" "m_state m = Online" "m_name m = name"
    using power_off_eligible(2) [OF ds n] eligible_member by blast
  obtain mn where mn: "mn \<in> set (pe_machines env)" "po_name pool \<in> set (pools_of env mn)"
      "build_member env mn (pools_of env mn) pool = Some m" "m_name m = np_name mn"
    using snapshot_member [OF m(1)] .
  have managed: "mn \<in> set (managed_machines env pool)" using mn(1,2) by (simp add: managed_machines_def)
  have "other_pools_holding name (pools_of env mn) (po_name pool) (pe_pools env) = []"
    using power_off_eligible(1) [OF ds n] kept_by_others_get [OF names managed] m(4) mn(4)
    by (simp add: not_kept_def snapshot_of_def)
  then show ?thesis
    using online_member [OF mn(3) m(3,2)] mn m(4) unfolding nobody_holds by (intro bexI [of _ mn]) auto
qed

text \<open>C18: A pool wakes only a machine that is off or suspended under automatic policy, never one
  whose boot failed within the pool's backoff, and never one switched off by hand within its
  cooldown.\<close>

theorem power_on_respects_backoff:
  assumes names: "distinct (map np_name (pe_machines env))"
    and decided: "PE_Decide name d \<in> set (pl_log (pool_reconcile env pool))" "sdn_target d = Target_On"
  shows "\<exists>mn \<in> set (pe_machines env). np_name mn = name \<and> nm_power_policy (np_spec mn) = Auto
    \<and> st_phase (machine_status mn) \<in> {Ph_Off, Ph_Standby} \<and> \<not> reading_refuted (machine_status mn)
    \<and> po_name pool \<in> set (pools_of env mn)
    \<and> \<not> in_backoff (machine_status mn) (po_spec pool) (pe_member_clock env name)
    \<and> \<not> in_cooldown (machine_status mn)
          (effective_manual_power_off_cooldown (nm_manual_power_off_cooldown_seconds (np_spec mn))
             (map (\<lambda>p. ps_manual_power_off_cooldown_seconds (po_spec p)) (pools_named env (pools_of env mn))))
          (pe_member_clock env name)"
proof -
  let ?s = "snapshot_of env pool (unwrap_or (po_status pool) default_pool_status)"
  have n: "name \<in> fst ` set (us_opened (scale_up ?s))" using pool_decides [OF decided(1)] decided(2) by auto
  have ds: "distinct (map m_name (sn_members ?s))" by (rule snapshot_members_distinct [OF names])
  obtain m where m: "m \<in> set (sn_members ?s)" "m_auto m" "m_state m = Offline" "m_name m = name"
    using scale_up_members [OF ds] n by blast
  obtain mn where mn: "mn \<in> set (pe_machines env)" "po_name pool \<in> set (pools_of env mn)"
      "build_member env mn (pools_of env mn) pool = Some m" "m_name m = np_name mn"
    using snapshot_member [OF m(1)] .
  then show ?thesis using offline_member [OF mn(3) m(3,2)] m(4) by (intro bexI [of _ mn]) auto
qed

section \<open>A pool to try things on\<close>

definition idle_node :: knode where
  "idle_node = empty_node\<lparr> no_name := ''n1'', no_labels := [(''pool'', ''a'')],
     no_conditions := Some [\<lparr> nc_type = ''Ready'', nc_status = ''True'', nc_last_transition = Some 1000 \<rparr>] \<rparr>"

definition pool_machine :: "npmc_status \<Rightarrow> npmc" where
  "pool_machine st = \<lparr> np_name = ''n1'', np_generation = Some 1,
     np_spec = \<lparr> nm_node_name = ''n1'', nm_power_policy = Auto, nm_power_interfaces = [],
       nm_lifecycle = default_lifecycle_spec, nm_manual_power_on_policy = None,
       nm_manual_power_off_cooldown_seconds = None \<rparr>,
     np_status = Some st \<rparr>"

definition sample_pool :: "nat \<Rightarrow> pool" where
  "sample_pool at_least = \<lparr> po_name = ''a'', po_spec = sample_pool_spec\<lparr> ps_min_online := at_least \<rparr>,
     po_status = Some (default_pool_status\<lparr> pt_unneeded_since := [(''n1'', secs 1000)] \<rparr>), po_deleting = False \<rparr>"

definition sample_pool_env :: "npmc_status \<Rightarrow> pool \<Rightarrow> pool_env" where
  "sample_pool_env st pool = \<lparr> pe_nodes = [idle_node], pe_pods = [], pe_machines = [pool_machine st],
     pe_pools = [pool], pe_now = secs 100000, pe_member_clock = (\<lambda>_. secs 100000),
     pe_decide_clock = (\<lambda>_. secs 100000), pe_warned = [], pe_verbosity = V_Summary,
     pe_decide_answer = (\<lambda>_. Inr ()), pe_status_answer = Inr () \<rparr>"

abbreviation "idle_pool_env \<equiv> sample_pool_env
  (default_npmc_status\<lparr> st_phase := Ph_On, st_node_ready := True, st_power_state := PS_On \<rparr>) (sample_pool 0)"

abbreviation "waking_pool_env \<equiv> sample_pool_env
  (default_npmc_status\<lparr> st_phase := Ph_Off, st_power_state := PS_Off \<rparr>) (sample_pool 1)"

lemma idle_pool_decides:
  "\<exists>d. PE_Decide ''n1'' d \<in> set (pl_log (pool_reconcile idle_pool_env (sample_pool 0))) \<and> sdn_target d = Target_Off"
proof (rule pool_announces(2))
  show "pe_decide_answer idle_pool_env k = Inr ()" for k by (simp add: sample_pool_env_def)
  have "map fst (dn_power_off (scale_down (snapshot_of idle_pool_env (sample_pool 0)
      (unwrap_or (po_status (sample_pool 0)) default_pool_status)))) = [''n1'']"
    by code_simp
  then show "''n1'' \<in> fst ` set (dn_power_off (scale_down (snapshot_of idle_pool_env (sample_pool 0)
      (unwrap_or (po_status (sample_pool 0)) default_pool_status))))"
    by (metis list.set_intros(1) set_map)
qed

lemma waking_pool_decides:
  "\<exists>d. PE_Decide ''n1'' d \<in> set (pl_log (pool_reconcile waking_pool_env (sample_pool 1))) \<and> sdn_target d = Target_On"
proof (rule pool_announces(1))
  show "pe_decide_answer waking_pool_env k = Inr ()" for k by (simp add: sample_pool_env_def)
  have "map fst (us_opened (scale_up (snapshot_of waking_pool_env (sample_pool 1)
      (unwrap_or (po_status (sample_pool 1)) default_pool_status)))) = [''n1'']"
    by code_simp
  then show "''n1'' \<in> fst ` set (us_opened (scale_up (snapshot_of waking_pool_env (sample_pool 1)
      (unwrap_or (po_status (sample_pool 1)) default_pool_status))))"
    by (metis list.set_intros(1) set_map)
qed

lemma power_off_needs_every_pool_witness:
  "\<exists>mn \<in> set (pe_machines idle_pool_env). np_name mn = ''n1'' \<and> st_phase (machine_status mn) = Ph_On"
proof -
  obtain d where d: "PE_Decide ''n1'' d \<in> set (pl_log (pool_reconcile idle_pool_env (sample_pool 0)))" "sdn_target d = Target_Off"
    using idle_pool_decides by blast
  have "distinct (map np_name (pe_machines idle_pool_env))" by (simp add: sample_pool_env_def)
  from power_off_needs_every_pool [OF this d] show ?thesis by blast
qed

lemma power_on_respects_backoff_witness:
  "\<exists>mn \<in> set (pe_machines waking_pool_env). np_name mn = ''n1''
     \<and> \<not> in_backoff (machine_status mn) (po_spec (sample_pool 1)) (pe_member_clock waking_pool_env ''n1'')"
proof -
  obtain d where d: "PE_Decide ''n1'' d \<in> set (pl_log (pool_reconcile waking_pool_env (sample_pool 1)))" "sdn_target d = Target_On"
    using waking_pool_decides by blast
  have "distinct (map np_name (pe_machines waking_pool_env))" by (simp add: sample_pool_env_def)
  from power_on_respects_backoff [OF this d] show ?thesis by blast
qed

abbreviation "carrying_env \<equiv> (sample_node_env Auto PS_On (Some idle_node) [] default_npmc_status)
  \<lparr> ne_pools := [sample_pool 0], ne_nodes := lookup_node idle_pool_env \<rparr>"

end
