(* ===== verification/Wake.thy ===== *)
theory Wake
  imports Net
begin

text \<open>
  \<^verbatim>\<open>wake.rs\<close>: Wake-on-LAN magic packets.  The network interfaces (\<^verbatim>\<open>if_addrs\<close>) and the UDP
  socket are parameters; the packets handed to the socket are returned in order.
\<close>

section \<open>MAC addresses\<close>

fun split_on :: "(char \<Rightarrow> bool) \<Rightarrow> string \<Rightarrow> string list" where
  "split_on d [] = [[]]"
| "split_on d (c # cs) = (if d c then [] # split_on d cs
     else (case split_on d cs of p # ps \<Rightarrow> (c # p) # ps | [] \<Rightarrow> [[c]]))"

definition mac_separator :: "char \<Rightarrow> bool" where
  "mac_separator c = (c = CHR '':'' \<or> c = CHR ''-'')"

definition mac_part :: "string \<Rightarrow> byte option" where
  "mac_part p = (if length p \<noteq> 2 then None else map_option of_nat (from_str_radix 16 255 p))"

definition parse_mac :: "string \<Rightarrow> byte list option" where
  "parse_mac s =
     (let parts = split_on mac_separator s in
      if length parts \<noteq> 6 then None else those (map mac_part parts))"

section \<open>The packet and where it is sent\<close>

definition magic_packet :: "byte list \<Rightarrow> byte list" where
  "magic_packet mac = foldl (\<lambda>packet _. packet @ mac) (replicate 6 255) [0..<16]"

text \<open>The order of IPv4 addresses is that of their octets.\<close>

fun ipv4_bits :: "ipv4_addr \<Rightarrow> nat" where
  "ipv4_bits (Ipv4 a b c d) = ((unat a * 256 + unat b) * 256 + unat c) * 256 + unat d"

lemma octet_split:
  fixes m n :: nat and b c :: byte
  assumes "m * 256 + unat b = n * 256 + unat c" shows "m = n \<and> b = c"
proof -
  have "(m * 256 + unat b) div 256 = m" "(n * 256 + unat c) div 256 = n" by simp_all
  with assms have "m = n" by simp
  with assms show ?thesis by (simp add: unsigned_word_eqI)
qed

lemma ipv4_bits_inj: "ipv4_bits x = ipv4_bits y \<Longrightarrow> x = y"
proof -
  assume eq: "ipv4_bits x = ipv4_bits y"
  obtain a b c d a' b' c' d' where x: "x = Ipv4 a b c d" and y: "y = Ipv4 a' b' c' d'"
    by (cases x, cases y) blast
  have "d = d' \<and> c = c' \<and> b = b' \<and> a = a'"
    using octet_split [OF eq [unfolded x y ipv4_bits.simps]] octet_split
    by (metis unsigned_word_eqI)
  then show "x = y" by (simp add: x y)
qed

instantiation ipv4_addr :: linorder
begin

definition less_eq_ipv4_addr :: "ipv4_addr \<Rightarrow> ipv4_addr \<Rightarrow> bool" where
  "less_eq_ipv4_addr x y = (ipv4_bits x \<le> ipv4_bits y)"

definition less_ipv4_addr :: "ipv4_addr \<Rightarrow> ipv4_addr \<Rightarrow> bool" where
  "less_ipv4_addr x y = (ipv4_bits x < ipv4_bits y)"

instance
  by standard (auto simp: less_eq_ipv4_addr_def less_ipv4_addr_def intro: ipv4_bits_inj)

end

text \<open>An interface as \<^verbatim>\<open>if_addrs\<close> reports it; \<^verbatim>\<open>ni_v4_broadcast\<close> is the broadcast address of an
  IPv4 interface that has one.\<close>

record net_interface =
  ni_loopback :: bool
  ni_oper_up :: bool
  ni_v4_broadcast :: "ipv4_addr option"

definition add_broadcast :: "ipv4_addr list \<Rightarrow> net_interface \<Rightarrow> ipv4_addr list" where
  "add_broadcast out i =
     (if ni_loopback i \<or> \<not> ni_oper_up i then out
      else (case ni_v4_broadcast i of Some b \<Rightarrow> insort_insert b out | None \<Rightarrow> out))"

definition interface_broadcasts :: "(string + net_interface list) \<Rightarrow> ipv4_addr list" where
  "interface_broadcasts ifaces =
     insort_insert BROADCAST
       (case ifaces of Inr is \<Rightarrow> foldl add_broadcast [] is | Inl _ \<Rightarrow> [])"

definition targets_of :: "(string + net_interface list) \<Rightarrow> string option \<Rightarrow> nat \<Rightarrow> string + socket_addr list" where
  "targets_of ifaces explicit port =
     (case explicit of
        Some addr \<Rightarrow>
          (case parse_ipv4 addr of
             None \<Rightarrow> Inl (''invalid broadcast address '' @ addr)
           | Some ip \<Rightarrow> Inr [(V4 ip, port)])
      | None \<Rightarrow> Inr (map (\<lambda>ip. (V4 ip, port)) (interface_broadcasts ifaces)))"

section \<open>Sending\<close>

record udp_socket =
  sk_bind :: "string + unit"
  sk_set_broadcast :: "string + unit"
  sk_send_to :: "nat \<Rightarrow> socket_addr \<Rightarrow> string + unit"

type_synonym packet = "byte list \<times> socket_addr"

record send_state =
  ss_ok :: nat
  ss_last_err :: "string option"
  ss_sent :: "packet list"

definition send_one :: "udp_socket \<Rightarrow> byte list \<Rightarrow> nat \<Rightarrow> send_state \<Rightarrow> socket_addr \<Rightarrow> send_state" where
  "send_one sock packet round st target =
     (let st = st\<lparr> ss_sent := ss_sent st @ [(packet, target)] \<rparr> in
      case sk_send_to sock round target of
        Inr _ \<Rightarrow> st\<lparr> ss_ok := ss_ok st + 1 \<rparr>
      | Inl e \<Rightarrow> st\<lparr> ss_last_err := Some e \<rparr>)"

definition send_rounds :: "udp_socket \<Rightarrow> byte list \<Rightarrow> socket_addr list \<Rightarrow> nat list \<Rightarrow> send_state" where
  "send_rounds sock packet targets rounds =
     foldl (\<lambda>st round. foldl (send_one sock packet round) st targets)
       \<lparr> ss_ok = 0, ss_last_err = None, ss_sent = [] \<rparr> rounds"

definition send_magic :: "udp_socket \<Rightarrow> byte list \<Rightarrow> socket_addr list \<Rightarrow> nat \<Rightarrow> (string + nat) \<times> packet list" where
  "send_magic sock mac targets repeats =
     (case sk_bind sock of
        Inl e \<Rightarrow> (Inl e, [])
      | Inr _ \<Rightarrow>
          (case sk_set_broadcast sock of
             Inl e \<Rightarrow> (Inl e, [])
           | Inr _ \<Rightarrow>
               (let st = send_rounds sock (magic_packet mac) targets [0..<max repeats 1] in
                if ss_ok st = 0 then (Inl (unwrap_or (ss_last_err st) ''no broadcast targets''), ss_sent st)
                else (Inr (ss_ok st), ss_sent st))))"

section \<open>MAC addresses are read back\<close>

text \<open>A MAC address written with lower case digits and the given separators.\<close>

fun show_mac :: "string \<Rightarrow> byte list \<Rightarrow> string" where
  "show_mac seps [] = ''''"
| "show_mac [] (b # bs) = hex_byte b"
| "show_mac (c # seps) (b # bs) = hex_byte b @ c # show_mac seps bs"

lemma split_on_nonempty [simp]: "split_on d s \<noteq> []"
  by (induction s) (auto split: list.splits)

lemma split_on_piece: "list_all (\<lambda>c. \<not> d c) p \<Longrightarrow> split_on d p = [p]"
  by (induction p) auto

lemma split_on_pieces:
  "list_all (\<lambda>c. \<not> d c) p \<Longrightarrow> d c \<Longrightarrow> split_on d (p @ c # s) = p # split_on d s"
  by (induction p) auto

lemma to_digit_hex_digit: "n < 16 \<Longrightarrow> to_digit 16 (hex_digit n) = Some n"
  by (auto simp: to_digit_def hex_digit_def Let_def)

lemma hex_digit_not_special:
  assumes "n < 16" shows "\<not> mac_separator (hex_digit n)" and "hex_digit n \<noteq> CHR ''+''"
proof -
  have "hex_digit n \<noteq> c" if "to_digit 16 c = None" for c using to_digit_hex_digit [OF assms] that by auto
  then show "\<not> mac_separator (hex_digit n)" and "hex_digit n \<noteq> CHR ''+''"
    by (simp_all add: mac_separator_def to_digit_def)
qed

lemma hex_nibbles: "unat (b :: byte) div 16 < 16" "unat b mod 16 < 16"
proof -
  have "unat b < 16 * 16" by simp
  then show "unat b div 16 < 16" by (rule less_mult_imp_div_less)
qed simp

lemma mac_part_hex_byte: "mac_part (hex_byte b) = Some b"
proof -
  have "digits_value 16 255 0 (hex_byte b) = Some (unat b)"
    using unat_byte_le [of b] hex_nibbles [of b] by (simp add: hex_byte_def to_digit_hex_digit not_less)
  then have "from_str_radix 16 255 (hex_byte b) = Some (unat b)"
    using hex_digit_not_special(2) [OF hex_nibbles(1) [of b]] by (simp add: from_str_radix_def hex_byte_def)
  then show ?thesis by (simp add: mac_part_def hex_byte_def)
qed

lemma hex_byte_no_separator: "list_all (\<lambda>c. \<not> mac_separator c) (hex_byte b)"
  using hex_digit_not_special(1) [OF hex_nibbles(1)] hex_digit_not_special(1) [OF hex_nibbles(2)]
  by (simp add: hex_byte_def)

lemma split_show_mac:
  "length mac = Suc (length seps) \<Longrightarrow> list_all mac_separator seps \<Longrightarrow>
   split_on mac_separator (show_mac seps mac) = map hex_byte mac"
proof (induction seps mac rule: show_mac.induct)
  case (2 b bs)
  then show ?case by (simp add: split_on_piece [OF hex_byte_no_separator])
next
  case (3 c seps b bs)
  then show ?case by (simp add: split_on_pieces [OF hex_byte_no_separator])
qed simp

text \<open>A MAC address written with colons or dashes, even mixed, is read back exactly.\<close>

theorem parse_mac_show:
  assumes "length mac = 6" and "length seps = 5" and "list_all mac_separator seps"
  shows "parse_mac (show_mac seps mac) = Some mac"
proof -
  have "those (map (mac_part \<circ> hex_byte) bs) = Some bs" for bs
    by (induction bs) (simp_all add: mac_part_hex_byte)
  then show ?thesis using assms by (simp add: parse_mac_def split_show_mac)
qed

lemma parse_mac_show_witness:
  "parse_mac (show_mac '':-::-'' [0x0a, 0x1b, 0x2c, 0x3d, 0x4e, 0xff]) = Some [0x0a, 0x1b, 0x2c, 0x3d, 0x4e, 0xff]"
  by (rule parse_mac_show) (simp_all add: mac_separator_def)

lemma those_length: "those xs = Some ys \<Longrightarrow> length ys = length xs"
  by (induction xs arbitrary: ys) (auto split: option.splits)

lemma parse_mac_length: "parse_mac s = Some mac \<Longrightarrow> length mac = 6"
  by (auto simp: parse_mac_def Let_def dest: those_length split: if_splits)

text \<open>The sign that \<^verbatim>\<open>from_str_radix\<close> accepts makes some malformed addresses pass.\<close>

lemma parse_mac_accepts_plus: "parse_mac ''+a:00:00:00:00:00'' = Some [10, 0, 0, 0, 0, 0]"
  by (simp add: parse_mac_def mac_separator_def mac_part_def from_str_radix_def to_digit_def)

section \<open>What is sent\<close>

lemma foldl_append_const: "foldl (\<lambda>p _. p @ m) acc xs = acc @ concat (replicate (length xs) m)"
  by (induction xs arbitrary: acc) (simp_all)

lemma magic_packet_eq: "magic_packet mac = replicate 6 255 @ concat (replicate 16 mac)"
  by (simp add: magic_packet_def foldl_append_const)

lemma add_broadcast_set:
  "set (add_broadcast out i) = set out
     \<union> (if ni_loopback i \<or> \<not> ni_oper_up i then {} else set_option (ni_v4_broadcast i))"
  by (auto simp: add_broadcast_def set_insort_insert split: option.splits)

lemma add_broadcast_sorted:
  "sorted out \<and> distinct out \<Longrightarrow> sorted (add_broadcast out i) \<and> distinct (add_broadcast out i)"
  by (auto simp: add_broadcast_def sorted_insort_insert distinct_insort_insert split: option.splits)

lemma foldl_add_broadcast:
  "sorted out \<and> distinct out \<Longrightarrow>
     sorted (foldl add_broadcast out is) \<and> distinct (foldl add_broadcast out is)
     \<and> set (foldl add_broadcast out is) = set out
          \<union> {b. \<exists>i \<in> set is. \<not> ni_loopback i \<and> ni_oper_up i \<and> ni_v4_broadcast i = Some b}"
proof (induction "is" arbitrary: out)
  case (Cons i "is")
  from Cons.IH [OF add_broadcast_sorted [OF Cons.prems, of i]]
  show ?case by (auto simp: add_broadcast_set split: if_splits)
qed simp

text \<open>Without a configured address the packet goes to the broadcast address of every interface
  that is up and not a loopback, each once and in order, and to the limited broadcast address.\<close>

lemma interface_broadcasts_spec:
  "sorted (interface_broadcasts (Inr is)) \<and> distinct (interface_broadcasts (Inr is))
   \<and> set (interface_broadcasts (Inr is)) = insert BROADCAST
       {b. \<exists>i \<in> set is. \<not> ni_loopback i \<and> ni_oper_up i \<and> ni_v4_broadcast i = Some b}"
  using foldl_add_broadcast [of "[]" "is"]
  by (simp add: interface_broadcasts_def sorted_insort_insert distinct_insort_insert set_insort_insert)

text \<open>A configured address that is one is the only target.\<close>

lemma targets_of_explicit: "targets_of ifaces (Some (show_ipv4 a)) port = Inr [(V4 a, port)]"
  by (simp add: targets_of_def parse_ipv4_show)

lemma targets_of_total: "is_none_or explicit (\<lambda>b. parse_ipv4 b \<noteq> None) \<Longrightarrow> \<exists>ts. targets_of ifaces explicit port = Inr ts"
  by (cases explicit) (auto simp: targets_of_def)

section \<open>How often it is sent\<close>

definition accepted :: "udp_socket \<Rightarrow> socket_addr list \<Rightarrow> nat \<Rightarrow> nat" where
  "accepted sock targets round = length (filter (\<lambda>t. sk_send_to sock round t = Inr ()) targets)"

lemma send_round:
  "ss_sent (foldl (send_one sock packet round) st targets) = ss_sent st @ map (Pair packet) targets"
  "ss_ok (foldl (send_one sock packet round) st targets) = ss_ok st + accepted sock targets round"
  by (induction targets arbitrary: st)
    (auto simp: send_one_def accepted_def Let_def split: sum.splits)

lemma send_rounds_spec:
  "ss_sent (send_rounds sock packet targets rounds)
     = concat (replicate (length rounds) (map (Pair packet) targets))
   \<and> ss_ok (send_rounds sock packet targets rounds) = sum_list (map (accepted sock targets) rounds)"
proof -
  have "ss_sent (foldl (\<lambda>st round. foldl (send_one sock packet round) st targets) st rounds)
      = ss_sent st @ concat (replicate (length rounds) (map (Pair packet) targets))
    \<and> ss_ok (foldl (\<lambda>st round. foldl (send_one sock packet round) st targets) st rounds)
      = ss_ok st + sum_list (map (accepted sock targets) rounds)" for st
    by (induction rounds arbitrary: st) (simp_all add: send_round)
  then show ?thesis by (simp add: send_rounds_def)
qed

text \<open>Sending hands the magic packet (six times 255, then sixteen times the MAC address) to every
  target in every round, at least once, and reports how many sends the socket accepted, or an
  error exactly when it accepted none.\<close>

theorem send_magic_outcome:
  assumes "sk_bind sock = Inr ()" and "sk_set_broadcast sock = Inr ()"
  shows "snd (send_magic sock mac targets repeats)
      = concat (replicate (max repeats 1) (map (Pair (replicate 6 255 @ concat (replicate 16 mac))) targets))
    \<and> (case fst (send_magic sock mac targets repeats) of
         Inr n \<Rightarrow> n = (\<Sum>round \<leftarrow> [0..<max repeats 1]. accepted sock targets round) \<and> 0 < n
       | Inl _ \<Rightarrow> (\<Sum>round \<leftarrow> [0..<max repeats 1]. accepted sock targets round) = 0)"
proof -
  define st where "st = send_rounds sock (magic_packet mac) targets [0..<max repeats 1]"
  have sent: "ss_sent st = concat (replicate (max repeats 1) (map (Pair (magic_packet mac)) targets))"
    and ok: "(\<Sum>round \<leftarrow> [0..<max repeats 1]. accepted sock targets round) = ss_ok st"
    using send_rounds_spec [of sock "magic_packet mac" targets "[0..<max repeats 1]"] by (simp_all add: st_def)
  have "send_magic sock mac targets repeats
      = (if ss_ok st = 0 then (Inl (unwrap_or (ss_last_err st) ''no broadcast targets''), ss_sent st)
         else (Inr (ss_ok st), ss_sent st))"
    by (simp add: send_magic_def assms st_def Let_def)
  then show ?thesis unfolding ok by (simp add: sent magic_packet_eq)
qed

definition sample_socket :: udp_socket where
  "sample_socket = \<lparr> sk_bind = Inr (), sk_set_broadcast = Inr (),
     sk_send_to = (\<lambda>round t. if round = 0 then Inl ''down'' else Inr ()) \<rparr>"

lemma send_magic_outcome_witness:
  "length (snd (send_magic sample_socket [1, 2, 3, 4, 5, 6] [(V4 BROADCAST, 9)] 3)) = 3
   \<and> fst (send_magic sample_socket [1, 2, 3, 4, 5, 6] [(V4 BROADCAST, 9)] 3) = Inr 2"
proof -
  have up: "[0..<max 3 1] = [0, 1, 2 :: nat]" by (simp add: upt_rec)
  have "sk_bind sample_socket = Inr ()" "sk_set_broadcast sample_socket = Inr ()"
    by (simp_all add: sample_socket_def)
  from send_magic_outcome [OF this, of "[1, 2, 3, 4, 5, 6]" "[(V4 BROADCAST, 9)]" 3]
  show ?thesis
    unfolding up by (auto simp: sample_socket_def accepted_def length_concat split: sum.splits)
qed

end
