(* ===== verification/Wol.thy ===== *)
theory Wol
  imports Inband Wake ControllerBase
begin

text \<open>
  \<^verbatim>\<open>drivers/wol.rs\<close>: the Wake-on-LAN driver.  What the API server, the network interfaces and the
  UDP socket answer is the record \<^verbatim>\<open>wol_world\<close>; the calls made and the packets sent are returned
  in order.  The hash of the standard library, whose value it does not document, is the
  argument \<^verbatim>\<open>hash\<close>.
\<close>

section \<open>Configuration\<close>

record relay_config =
  rl_same_topology_as :: "string option"
  rl_node_selector :: "string btmap"
  rl_max_nodes :: nat

record wol_config =
  wc_mac_address :: string
  wc_broadcast_address :: "string option"
  wc_port :: nat
  wc_send_from_operator :: bool
  wc_relay :: "relay_config option"
  wc_shutdown_image :: "string option"

text \<open>What is filled in for the fields a configuration leaves out.\<close>

definition default_relay_config :: relay_config where
  "default_relay_config = \<lparr> rl_same_topology_as = None, rl_node_selector = [], rl_max_nodes = 3 \<rparr>"

definition default_wol_config :: "string \<Rightarrow> wol_config" where
  "default_wol_config mac_address = \<lparr> wc_mac_address = mac_address, wc_broadcast_address = None,
     wc_port = 9, wc_send_from_operator = True, wc_relay = None, wc_shutdown_image = None \<rparr>"

record wol_driver =
  wd_config :: wol_config
  wd_mac :: "byte list"
  wd_node_name :: string
  wd_shutdown_image :: string
  wd_relay_image :: string

definition build_wol :: "wol_config \<Rightarrow> string \<Rightarrow> string \<Rightarrow> string \<Rightarrow> string + wol_driver" where
  "build_wol config node_name shutdown_image relay_image =
     (case parse_mac (wc_mac_address config) of
        None \<Rightarrow> Inl (error_config (''invalid MAC address '' @ debug_str (wc_mac_address config)))
      | Some mac \<Rightarrow>
          if is_some_and (wc_broadcast_address config) (\<lambda>b. parse_ipv4 b = None) then
            Inl (error_config (''invalid broadcastAddress ''
              @ debug_str (unwrap_or (wc_broadcast_address config) '''')))
          else if \<not> wc_send_from_operator config \<and> wc_relay config = None then
            Inl (error_config ''sendFromOperator is false and no relay is configured'')
          else
            Inr \<lparr> wd_config = config, wd_mac = mac, wd_node_name = node_name,
                  wd_shutdown_image = unwrap_or (wc_shutdown_image config) shutdown_image,
                  wd_relay_image = relay_image \<rparr>)"

section \<open>Relays\<close>

definition wol_node_ready :: "knode \<Rightarrow> bool" where
  "wol_node_ready node = is_some_and
     (Option.bind (no_conditions node) (find (\<lambda>c. nc_type c = ''Ready'')))
     (\<lambda>c. nc_status c = ''True'')"

definition relay_candidate :: "string \<Rightarrow> (string \<times> string option) option \<Rightarrow> relay_config \<Rightarrow> knode \<Rightarrow> bool" where
  "relay_candidate target topology cfg n =
     (no_name n \<noteq> target
      \<and> wol_node_ready n \<and> bt_get (no_annotations n) POWERED_OFF_ANNOTATION = None
      \<and> list_all (\<lambda>(k, v). bt_get (no_labels n) k = Some v) (rl_node_selector cfg)
      \<and> (case topology of
           Some (key, Some value) \<Rightarrow> bt_get (no_labels n) key = Some value
         | _ \<Rightarrow> True))"

definition pick_relays :: "string \<Rightarrow> string btmap \<Rightarrow> knode list \<Rightarrow> relay_config \<Rightarrow> string list" where
  "pick_relays target target_labels nodes cfg =
     (let topology = map_option (\<lambda>key. (key, bt_get target_labels key)) (rl_same_topology_as cfg) in
      case topology of
        Some (_, None) \<Rightarrow> []
      | _ \<Rightarrow> take (max (rl_max_nodes cfg) 1)
               (sort (map no_name (filter (relay_candidate target topology cfg) nodes))))"

definition short_hash :: "(string list \<Rightarrow> nat) \<Rightarrow> string list \<Rightarrow> string" where
  "short_hash hash parts = hex8 (hash parts mod 2 ^ 32)"

text \<open>A relay pod: its name, its \<^verbatim>\<open>target\<close> label, the node it is bound to, its image and the
  arguments of the \<^verbatim>\<open>wake\<close> subcommand.\<close>

record relay_pod =
  ry_name :: string
  ry_target :: string
  ry_node :: string
  ry_image :: string
  ry_args :: "string list"

definition relay_pod_name :: "(string list \<Rightarrow> nat) \<Rightarrow> string \<Rightarrow> string \<Rightarrow> string" where
  "relay_pod_name hash node_name relay_node =
     (let prefix = take 45 (''kha-wake-'' @ map (\<lambda>c. if c = CHR ''.'' then CHR ''-'' else c) node_name) in
      rev (dropWhile (\<lambda>c. c = CHR ''-'') (rev prefix)) @ ''-'' @ short_hash hash [node_name, relay_node])"

definition relay_pod_for :: "(string list \<Rightarrow> nat) \<Rightarrow> wol_driver \<Rightarrow> string \<Rightarrow> relay_pod" where
  "relay_pod_for hash d relay_node =
     \<lparr> ry_name = relay_pod_name hash (wd_node_name d) relay_node,
       ry_target = wd_node_name d,
       ry_node = relay_node,
       ry_image = wd_relay_image d,
       ry_args = [''wake'', ''--mac'', wc_mac_address (wd_config d), ''--port'', show_nat (wc_port (wd_config d))]
         @ (case wc_broadcast_address (wd_config d) of Some b \<Rightarrow> [''--broadcast'', b] | None \<Rightarrow> []) \<rparr>"

section \<open>The driver and its surroundings\<close>

text \<open>An error of the API server: the status code, when it answered with one, and the text.\<close>

type_synonym api_error = "nat option \<times> string"

record wol_world =
  ww_node :: "string \<Rightarrow> string + knode option"
  ww_nodes :: "string + knode list"
  ww_relay_pods :: "string + string list"
  ww_delete :: "string \<Rightarrow> api_error + unit"
  ww_create :: "relay_pod \<Rightarrow> string + unit"
  ww_cluster :: cluster
  ww_interfaces :: "string + net_interface list"
  ww_socket :: udp_socket

datatype wol_effect =
    W_Api api_call
  | W_Packet packet
  | W_DeletePod string
  | W_CreateRelay relay_pod

definition delete_pod :: "wol_world \<Rightarrow> string \<Rightarrow> string + unit" where
  "delete_pod w name =
     (case ww_delete w name of
        Inr _ \<Rightarrow> Inr ()
      | Inl (code, text) \<Rightarrow> if code = Some 404 then Inr () else Inl text)"

fun delete_pods :: "wol_world \<Rightarrow> string list \<Rightarrow> (string + unit) \<times> wol_effect list" where
  "delete_pods w [] = (Inr (), [])"
| "delete_pods w (p # ps) =
     (case delete_pod w p of
        Inl e \<Rightarrow> (Inl e, [W_DeletePod p])
      | Inr _ \<Rightarrow> (case delete_pods w ps of (r, log) \<Rightarrow> (r, W_DeletePod p # log)))"

fun start_relays :: "(string list \<Rightarrow> nat) \<Rightarrow> wol_world \<Rightarrow> wol_driver \<Rightarrow> string list \<Rightarrow> string list \<times> wol_effect list" where
  "start_relays hash w d [] = ([], [])"
| "start_relays hash w d (relay # relays) =
     (let pod = relay_pod_for hash d relay in
      case start_relays hash w d relays of
        (started, log) \<Rightarrow>
          (case ww_create w pod of
             Inr _ \<Rightarrow> (relay # started, W_CreateRelay pod # log)
           | Inl _ \<Rightarrow> (started, W_CreateRelay pod # log)))"

definition no_relay_error :: "wol_driver \<Rightarrow> relay_config \<Rightarrow> string btmap \<Rightarrow> string" where
  "no_relay_error d cfg target_labels =
     error_interface (case rl_same_topology_as cfg of
        Some key \<Rightarrow>
          if bt_get target_labels key = None then
            ''Node '' @ wd_node_name d @ '' has no '' @ key @ '' label to select relays by''
          else ''no Ready node qualifies as a Wake-on-LAN relay''
      | None \<Rightarrow> ''no Ready node qualifies as a Wake-on-LAN relay'')"

definition wake_via_relays ::
    "(string list \<Rightarrow> nat) \<Rightarrow> wol_world \<Rightarrow> wol_driver \<Rightarrow> relay_config \<Rightarrow> (string + string list) \<times> wol_effect list" where
  "wake_via_relays hash w d cfg =
     (case ww_node w (wd_node_name d) of
        Inl e \<Rightarrow> (Inl e, [])
      | Inr target \<Rightarrow>
          (let target_labels = (case target of Some n \<Rightarrow> no_labels n | None \<Rightarrow> []) in
           case ww_nodes w of
             Inl e \<Rightarrow> (Inl e, [])
           | Inr nodes \<Rightarrow>
               (let relays = pick_relays (wd_node_name d) target_labels nodes cfg in
                if relays = [] then (Inl (no_relay_error d cfg target_labels), [])
                else
                  (case ww_relay_pods w of
                     Inl e \<Rightarrow> (Inl e, [])
                   | Inr old \<Rightarrow>
                       (case delete_pods w old of
                          (Inl e, log) \<Rightarrow> (Inl e, log)
                        | (Inr _, log) \<Rightarrow>
                            (case start_relays hash w d relays of
                               (started, log') \<Rightarrow>
                                 (if started = []
                                  then (Inl (error_interface ''no Wake-on-LAN relay pod could be started''), log @ log')
                                  else (Inr started, log @ log'))))))))"

definition wol_power_state :: "wol_world \<Rightarrow> wol_driver \<Rightarrow> string + power_state" where
  "wol_power_state w d =
     (case ww_node w (wd_node_name d) of
        Inl e \<Rightarrow> Inl e
      | Inr (Some n) \<Rightarrow> Inr (if wol_node_ready n then PS_On else PS_Off)
      | Inr None \<Rightarrow> Inr PS_Off)"

text \<open>The packets sent from the operator's own node; \<^verbatim>\<open>None\<close>: the broadcast addresses could not be
  determined, which ends the whole operation.\<close>

definition wake_from_operator :: "wol_world \<Rightarrow> wol_driver \<Rightarrow> string + (string + nat) \<times> packet list" where
  "wake_from_operator w d =
     (case targets_of (ww_interfaces w) (wc_broadcast_address (wd_config d)) (wc_port (wd_config d)) of
        Inl e \<Rightarrow> Inl (error_io e)
      | Inr targets \<Rightarrow> Inr (send_magic (ww_socket w) (wd_mac d) targets 3))"

definition wake_by_relays ::
    "(string list \<Rightarrow> nat) \<Rightarrow> wol_world \<Rightarrow> wol_driver \<Rightarrow> string list \<times> bool \<times> wol_effect list" where
  "wake_by_relays hash w d =
     (case wc_relay (wd_config d) of
        None \<Rightarrow> ([], False, [])
      | Some cfg \<Rightarrow>
          (case wake_via_relays hash w d cfg of
             (Inr _, log) \<Rightarrow> ([], True, log)
           | (Inl e, log) \<Rightarrow> ([''relays: '' @ e], False, log)))"

definition wol_power_on :: "(string list \<Rightarrow> nat) \<Rightarrow> wol_world \<Rightarrow> wol_driver \<Rightarrow> (string + unit) \<times> wol_effect list" where
  "wol_power_on hash w d =
     (case cancel (ww_cluster w) (wd_node_name d) of
        (Inl e, calls) \<Rightarrow> (Inl e, map W_Api calls)
      | (Inr _, calls) \<Rightarrow>
          (case (if wc_send_from_operator (wd_config d) then
                   (case wake_from_operator w d of
                      Inl e \<Rightarrow> Inl e
                    | Inr (Inr n, packets) \<Rightarrow> Inr ([], True, map W_Packet packets)
                    | Inr (Inl e, packets) \<Rightarrow> Inr ([''operator: '' @ e], False, map W_Packet packets))
                 else Inr ([], False, [])) of
             Inl e \<Rightarrow> (Inl e, map W_Api calls)
           | Inr (errors, sent, log) \<Rightarrow>
               (case wake_by_relays hash w d of
                  (errors', sent', log') \<Rightarrow>
                    (if sent \<or> sent' then Inr () else Inl (error_interface (join ''; '' (errors @ errors'))),
                     map W_Api calls @ log @ log'))))"

definition wol_power_off :: "wol_world \<Rightarrow> wol_driver \<Rightarrow> bool \<Rightarrow> (string + unit) \<times> wol_effect list" where
  "wol_power_off w d force =
     (case run (ww_cluster w) (wd_node_name d) HC_PowerOff of (r, calls) \<Rightarrow> (r, map W_Api calls))"

text \<open>The driver as the power chain sees it; each operation takes the given time.\<close>

definition wol_as_driver :: "(string list \<Rightarrow> nat) \<Rightarrow> wol_world \<Rightarrow> nat \<Rightarrow> wol_driver \<Rightarrow> driver" where
  "wol_as_driver hash w millis d =
     \<lparr> dv_supports = (\<lambda>_. True),
       dv_power_state = \<lparr> an_millis = millis, an_result = wol_power_state w d \<rparr>,
       dv_power_on = \<lparr> an_millis = millis, an_result = fst (wol_power_on hash w d) \<rparr>,
       dv_power_off = (\<lambda>force. \<lparr> an_millis = millis, an_result = fst (wol_power_off w d force) \<rparr>),
       dv_system_id = \<lparr> an_millis = 0, an_result = Inr None \<rparr> \<rparr>"

section \<open>Who relays\<close>

definition same_site :: "relay_config \<Rightarrow> string btmap \<Rightarrow> knode \<Rightarrow> bool" where
  "same_site cfg target_labels n =
     (case rl_same_topology_as cfg of
        None \<Rightarrow> True
      | Some key \<Rightarrow> bt_get target_labels key \<noteq> None \<and> bt_get (no_labels n) key = bt_get target_labels key)"

definition may_relay :: "string \<Rightarrow> string btmap \<Rightarrow> relay_config \<Rightarrow> knode \<Rightarrow> bool" where
  "may_relay target target_labels cfg n =
     (no_name n \<noteq> target \<and> wol_node_ready n
      \<and> bt_get (no_annotations n) POWERED_OFF_ANNOTATION = None
      \<and> list_all (\<lambda>(k, v). bt_get (no_labels n) k = Some v) (rl_node_selector cfg)
      \<and> same_site cfg target_labels n)"

lemma pick_relays_eq:
  "pick_relays target target_labels nodes cfg =
     take (max (rl_max_nodes cfg) 1) (sort (map no_name (filter (may_relay target target_labels cfg) nodes)))"
proof (cases "\<exists>key. rl_same_topology_as cfg = Some key \<and> bt_get target_labels key = None")
  case True
  then have "filter (may_relay target target_labels cfg) nodes = []"
    by (auto simp: may_relay_def same_site_def)
  with True show ?thesis by (auto simp: pick_relays_def)
next
  case False
  then have "relay_candidate target (map_option (\<lambda>key. (key, bt_get target_labels key)) (rl_same_topology_as cfg)) cfg
      = may_relay target target_labels cfg"
    by (auto simp: relay_candidate_def may_relay_def same_site_def fun_eq_iff split: option.splits)
  with False show ?thesis by (auto simp: pick_relays_def Let_def split: option.splits)
qed

text \<open>A wake is only relayed by Nodes that are Ready, are not the target, were not powered off by
  the operator, carry the selector's labels and are at the target's site; they are at most
  \<^verbatim>\<open>maxNodes\<close> (but at least one may be used), the first ones by name, and when fewer are
  picked every such Node is.\<close>

lemma relays_sound:
  "set (pick_relays target target_labels nodes cfg) \<subseteq> no_name ` {n \<in> set nodes. may_relay target target_labels cfg n}
   \<and> length (pick_relays target target_labels nodes cfg) \<le> max (rl_max_nodes cfg) 1
   \<and> sorted (pick_relays target target_labels nodes cfg)
   \<and> (length (pick_relays target target_labels nodes cfg) = max (rl_max_nodes cfg) 1
      \<or> set (pick_relays target target_labels nodes cfg) = no_name ` {n \<in> set nodes. may_relay target target_labels cfg n})"
proof -
  let ?all = "sort (map no_name (filter (may_relay target target_labels cfg) nodes))"
  have set: "set ?all = no_name ` {n \<in> set nodes. may_relay target target_labels cfg n}" by auto
  show ?thesis
    unfolding pick_relays_eq using set_take_subset [of _ ?all] sorted_wrt_take [of "(\<le>)" ?all]
    by (auto simp del: set_sort simp: set [symmetric] not_less_eq_eq min_def)
qed

text \<open>\<^verbatim>\<open>maxNodes: 0\<close> does not turn relaying off.\<close>

lemma no_relays_still_one:
  assumes "rl_max_nodes cfg = 0" and "\<exists>n \<in> set nodes. may_relay target target_labels cfg n"
  shows "length (pick_relays target target_labels nodes cfg) = 1"
proof -
  have "filter (may_relay target target_labels cfg) nodes \<noteq> []"
    using assms(2) by (auto simp: filter_empty_conv)
  then show ?thesis using assms(1) by (simp add: pick_relays_eq Suc_le_eq)
qed

lemma relay_pod_name_short: "length (relay_pod_name hash node_name relay) \<le> 54"
proof -
  have "length (rev (dropWhile p (rev xs))) \<le> length xs" for p and xs :: string
    using length_dropWhile_le [of p "rev xs"] by simp
  from this [of _ "take 45 (''kha-wake-'' @ map (\<lambda>c. if c = CHR ''.'' then CHR ''-'' else c) node_name)"]
  have "length (rev (dropWhile (\<lambda>c. c = CHR ''-'')
      (rev (take 45 (''kha-wake-'' @ map (\<lambda>c. if c = CHR ''.'' then CHR ''-'' else c) node_name))))) \<le> 45"
    by (rule order_trans) simp
  then show ?thesis by (simp add: relay_pod_name_def short_hash_def Let_def)
qed

section \<open>What powering on does\<close>

lemma start_relays_spec:
  "snd (start_relays hash w d relays) = map (\<lambda>r. W_CreateRelay (relay_pod_for hash d r)) relays
   \<and> fst (start_relays hash w d relays) = filter (\<lambda>r. ww_create w (relay_pod_for hash d r) = Inr ()) relays"
  by (induction relays) (auto simp: Let_def split: sum.splits prod.splits)

lemma delete_pods_log:
  "\<exists>k. snd (delete_pods w ps) = map W_DeletePod (take k ps)
     \<and> (fst (delete_pods w ps) = Inr () \<longrightarrow> length ps \<le> k)"
proof (induction ps)
  case (Cons p ps)
  show ?case
  proof (cases "delete_pod w p")
    case (Inl e)
    then show ?thesis by (intro exI [of _ 1]) simp
  next
    case (Inr u)
    from Cons obtain k where "snd (delete_pods w ps) = map W_DeletePod (take k ps)"
      and "fst (delete_pods w ps) = Inr () \<longrightarrow> length ps \<le> k" by blast
    with Inr show ?thesis by (intro exI [of _ "Suc k"]) (auto split: prod.splits)
  qed
qed simp

lemma wake_via_relays_shape:
  obtains (nothing) e where "wake_via_relays hash w d cfg = (Inl e, [])"
  | (stuck) e k old where "wake_via_relays hash w d cfg = (Inl e, map W_DeletePod (take k old))"
      and "ww_relay_pods w = Inr old"
  | (started) target nodes old relays where "ww_node w (wd_node_name d) = Inr target" and "ww_nodes w = Inr nodes"
      and "ww_relay_pods w = Inr old" and "relays \<noteq> []"
      and "relays = pick_relays (wd_node_name d) (case target of Some n \<Rightarrow> no_labels n | None \<Rightarrow> []) nodes cfg"
      and "wake_via_relays hash w d cfg =
        ((let ok = filter (\<lambda>r. ww_create w (relay_pod_for hash d r) = Inr ()) relays in
          if ok = [] then Inl (error_interface ''no Wake-on-LAN relay pod could be started'') else Inr ok),
         map W_DeletePod old @ map (\<lambda>r. W_CreateRelay (relay_pod_for hash d r)) relays)"
proof (cases "ww_node w (wd_node_name d)")
  case (Inl e)
  then have "wake_via_relays hash w d cfg = (Inl e, [])" by (simp add: wake_via_relays_def)
  then show ?thesis by (rule nothing)
next
  case node: (Inr target)
  define labels where "labels = (case target of Some n \<Rightarrow> no_labels n | None \<Rightarrow> [])"
  show ?thesis
  proof (cases "ww_nodes w")
    case (Inl e)
    with node have "wake_via_relays hash w d cfg = (Inl e, [])" by (simp add: wake_via_relays_def)
    then show ?thesis by (rule nothing)
  next
    case nodes: (Inr nodes)
    define relays where "relays = pick_relays (wd_node_name d) labels nodes cfg"
    show ?thesis
    proof (cases "relays = []")
      case True
      with node nodes have "wake_via_relays hash w d cfg = (Inl (no_relay_error d cfg labels), [])"
        by (simp add: wake_via_relays_def relays_def labels_def)
      then show ?thesis by (rule nothing)
    next
      case some: False
      show ?thesis
      proof (cases "ww_relay_pods w")
        case (Inl e)
        with node nodes some have "wake_via_relays hash w d cfg = (Inl e, [])"
          by (simp add: wake_via_relays_def relays_def labels_def)
        then show ?thesis by (rule nothing)
      next
        case old: (Inr old)
        obtain k where log: "snd (delete_pods w old) = map W_DeletePod (take k old)"
          and all: "fst (delete_pods w old) = Inr () \<Longrightarrow> length old \<le> k"
          using delete_pods_log [of w old] by blast
        show ?thesis
        proof (cases "fst (delete_pods w old)")
          case (Inl e)
          then have "delete_pods w old = (Inl e, map W_DeletePod (take k old))" using log by (simp add: prod_eq_iff)
          with node nodes old some have "wake_via_relays hash w d cfg = (Inl e, map W_DeletePod (take k old))"
            by (simp add: wake_via_relays_def relays_def labels_def)
          then show ?thesis using old by (rule stuck)
        next
          case (Inr u)
          then have "delete_pods w old = (Inr u, map W_DeletePod old)" using log all by (simp add: prod_eq_iff)
          with node nodes old some start_relays_spec [of hash w d relays] show ?thesis
            by (intro started [OF node nodes old some])
              (simp_all add: wake_via_relays_def relays_def labels_def Let_def split_beta)
        qed
      qed
    qed
  qed
qed

text \<open>Relaying succeeds exactly when a relay pod was created, and relay pods are created for picked
  Nodes only, after those of an earlier wake were deleted.\<close>

definition relay_started :: "wol_world \<Rightarrow> wol_effect list \<Rightarrow> bool" where
  "relay_started w log = list_ex (\<lambda>e. case e of W_CreateRelay p \<Rightarrow> ww_create w p = Inr () | _ \<Rightarrow> False) log"

lemma relay_started_simps [simp]:
  "relay_started w (a @ b) \<longleftrightarrow> relay_started w a \<or> relay_started w b"
  "\<not> relay_started w (map W_DeletePod ps)" "\<not> relay_started w (map W_Api calls)"
  "\<not> relay_started w (map W_Packet packets)" "\<not> relay_started w []"
  "relay_started w (W_Api c # log) \<longleftrightarrow> relay_started w log"
  by (auto simp: relay_started_def list_ex_iff)

lemma wake_via_relays_iff:
  "(\<exists>started. fst (wake_via_relays hash w d cfg) = Inr started)
   \<longleftrightarrow> relay_started w (snd (wake_via_relays hash w d cfg))"
proof (cases rule: wake_via_relays_shape [of hash w d cfg])
  case (started target nodes old relays)
  have "relay_started w (map (\<lambda>r. W_CreateRelay (relay_pod_for hash d r)) relays)
      \<longleftrightarrow> filter (\<lambda>r. ww_create w (relay_pod_for hash d r) = Inr ()) relays \<noteq> []"
    by (auto simp: relay_started_def list_ex_iff filter_empty_conv)
  then show ?thesis by (auto simp: started(6) Let_def)
qed auto

lemma wake_by_relays_iff:
  "fst (snd (wake_by_relays hash w d)) \<longleftrightarrow> relay_started w (snd (snd (wake_by_relays hash w d)))"
proof (cases "wc_relay (wd_config d)")
  case None
  then show ?thesis by (simp add: wake_by_relays_def)
next
  case (Some cfg)
  then show ?thesis using wake_via_relays_iff [of hash w d cfg]
    by (auto simp: wake_by_relays_def split_beta split: sum.splits prod.splits)
qed

text \<open>Whether the socket took a packet sent from the operator's own node: it could be opened for
  broadcasts, and in one of the three rounds one of the addresses to send to was accepted.\<close>

definition operator_sent :: "wol_world \<Rightarrow> wol_driver \<Rightarrow> bool" where
  "operator_sent w d =
     (wc_send_from_operator (wd_config d)
      \<and> sk_bind (ww_socket w) = Inr () \<and> sk_set_broadcast (ww_socket w) = Inr ()
      \<and> (case targets_of (ww_interfaces w) (wc_broadcast_address (wd_config d)) (wc_port (wd_config d)) of
           Inl _ \<Rightarrow> False
         | Inr targets \<Rightarrow>
             list_ex (\<lambda>round. list_ex (\<lambda>t. sk_send_to (ww_socket w) round t = Inr ()) targets) [0, 1, 2]))"

lemma send_magic_accepted:
  "(\<exists>n. fst (send_magic sock mac targets 3) = Inr n) \<longleftrightarrow>
     sk_bind sock = Inr () \<and> sk_set_broadcast sock = Inr ()
     \<and> list_ex (\<lambda>round. list_ex (\<lambda>t. sk_send_to sock round t = Inr ()) targets) [0, 1, 2]"
proof (cases "sk_bind sock = Inr () \<and> sk_set_broadcast sock = Inr ()")
  case True
  have "list_ex (\<lambda>t. sk_send_to sock round t = Inr ()) targets = (0 < accepted sock targets round)" for round
    by (auto simp: accepted_def list_ex_iff filter_empty_conv)
  moreover have "[0..<max 3 1] = [0, 1, 2 :: nat]" by (simp add: upt_rec)
  ultimately show ?thesis
    using True send_magic_outcome [of sock mac targets 3] by (auto split: sum.splits)
next
  case False
  then show ?thesis by (auto simp: send_magic_def split: sum.splits)
qed

lemma operator_sent_iff:
  "operator_sent w d \<longleftrightarrow> wc_send_from_operator (wd_config d)
     \<and> (case wake_from_operator w d of Inr (Inr n, _) \<Rightarrow> True | _ \<Rightarrow> False)"
proof (cases "targets_of (ww_interfaces w) (wc_broadcast_address (wd_config d)) (wc_port (wd_config d))")
  case (Inr targets)
  obtain r packets where m: "send_magic (ww_socket w) (wd_mac d) targets 3 = (r, packets)" by fastforce
  show ?thesis
    using send_magic_accepted [of "ww_socket w" "wd_mac d" targets]
    by (auto simp: operator_sent_def wake_from_operator_def Inr m split: sum.splits)
qed (simp add: operator_sent_def wake_from_operator_def)

lemma build_wol_broadcast:
  "build_wol config node_name i1 i2 = Inr d \<Longrightarrow>
     is_none_or (wc_broadcast_address (wd_config d)) (\<lambda>b. parse_ipv4 b \<noteq> None)
     \<and> wd_node_name d = node_name \<and> wd_config d = config \<and> parse_mac (wc_mac_address config) = Some (wd_mac d)
     \<and> (wc_send_from_operator config \<or> wc_relay config \<noteq> None)"
  by (cases "wc_broadcast_address config") (auto simp: build_wol_def split: option.splits if_splits)

lemma wake_from_operator_total:
  "build_wol config node_name i1 i2 = Inr d \<Longrightarrow> \<exists>r. wake_from_operator w d = Inr r"
  using targets_of_total [of "wc_broadcast_address (wd_config d)" "ww_interfaces w" "wc_port (wd_config d)"]
    build_wol_broadcast [of config node_name i1 i2 d]
  by (auto simp: wake_from_operator_def)

lemma wol_power_on_built:
  assumes "build_wol config node_name i1 i2 = Inr d" and "cl_delete (ww_cluster w) = Inr ()"
  shows "\<exists>errors packets. wol_power_on hash w d =
    (if operator_sent w d \<or> fst (snd (wake_by_relays hash w d)) then Inr ()
     else Inl (error_interface (join ''; '' errors)),
     W_Api (DeletePod (pod_name node_name)) # map W_Packet packets @ snd (snd (wake_by_relays hash w d)))"
proof -
  have name: "wd_node_name d = node_name" using build_wol_broadcast [OF assms(1)] by simp
  obtain r packets where op: "wake_from_operator w d = Inr (r, packets)"
    using wake_from_operator_total [OF assms(1), of w] by (metis surj_pair)
  obtain errors sent log where rel: "wake_by_relays hash w d = (errors, sent, log)" by (rule prod_cases3)
  show ?thesis
  proof (cases "wc_send_from_operator (wd_config d)")
    case True
    then show ?thesis
      by (cases r) (auto simp: wol_power_on_def cancel_def assms(2) name op rel operator_sent_iff)
  next
    case False
    then show ?thesis
      by (auto simp: wol_power_on_def cancel_def assms(2) name rel operator_sent_iff
          intro: exI [of _ "[]"])
  qed
qed

text \<open>C26: Powering a machine on through Wake-on-LAN first removes a shutdown pod left over from its last
  power-off, and does nothing else when that fails; it succeeds exactly when the operator's socket
  accepted the magic packet for at least one address in one of three rounds, or the API server
  accepted the creation of a relay pod.\<close>

theorem wake_outcome:
  assumes "build_wol config node_name i1 i2 = Inr d"
  shows "hd (snd (wol_power_on hash w d)) = W_Api (DeletePod (pod_name node_name))
    \<and> (fst (wol_power_on hash w d) = Inr () \<longleftrightarrow>
         cl_delete (ww_cluster w) = Inr ()
         \<and> (operator_sent w d \<or> relay_started w (snd (wol_power_on hash w d))))
    \<and> (cl_delete (ww_cluster w) \<noteq> Inr () \<longrightarrow> length (snd (wol_power_on hash w d)) = 1)"
proof (cases "cl_delete (ww_cluster w)")
  case (Inl e)
  have "wd_node_name d = node_name" using build_wol_broadcast [OF assms] by simp
  then show ?thesis by (simp add: wol_power_on_def cancel_def Inl)
next
  case (Inr u)
  then have ok: "cl_delete (ww_cluster w) = Inr ()" by simp
  obtain errors packets where on: "wol_power_on hash w d =
      (if operator_sent w d \<or> fst (snd (wake_by_relays hash w d)) then Inr ()
       else Inl (error_interface (join ''; '' errors)),
       W_Api (DeletePod (pod_name node_name)) # map W_Packet packets @ snd (snd (wake_by_relays hash w d)))"
    using wol_power_on_built [OF assms ok, of hash] by blast
  have "relay_started w (snd (wol_power_on hash w d)) \<longleftrightarrow> fst (snd (wake_by_relays hash w d))"
    unfolding wake_by_relays_iff on by simp
  then show ?thesis by (simp add: on ok)
qed

text \<open>C27: Every relay pod a wake creates runs on a Node that is Ready, is not the machine to wake, was not
  powered off by the operator, and is at the machine's site when the configuration asks for it.\<close>

theorem relay_pods_on_ready_neighbours:
  assumes "W_CreateRelay p \<in> set (snd (wol_power_on hash w d))"
  shows "\<exists>cfg nodes n target. wc_relay (wd_config d) = Some cfg \<and> ww_nodes w = Inr nodes \<and> n \<in> set nodes
    \<and> ww_node w (wd_node_name d) = Inr target
    \<and> ry_node p = no_name n \<and> ry_target p = wd_node_name d
    \<and> wol_node_ready n \<and> no_name n \<noteq> wd_node_name d
    \<and> bt_get (no_annotations n) POWERED_OFF_ANNOTATION = None
    \<and> same_site cfg (case target of Some t \<Rightarrow> no_labels t | None \<Rightarrow> []) n"
proof -
  have "W_CreateRelay p \<in> set (snd (snd (wake_by_relays hash w d)))"
    using assms by (auto simp: wol_power_on_def cancel_def split: sum.splits prod.splits if_splits)
  then obtain cfg where cfg: "wc_relay (wd_config d) = Some cfg"
    and p: "W_CreateRelay p \<in> set (snd (wake_via_relays hash w d cfg))"
    by (auto simp: wake_by_relays_def split: option.splits sum.splits prod.splits)
  show ?thesis
  proof (cases rule: wake_via_relays_shape [of hash w d cfg])
    case (started target nodes old relays)
    with p obtain r where r: "r \<in> set relays" "p = relay_pod_for hash d r" by auto
    with started(5) obtain n where "n \<in> set nodes" "r = no_name n"
      "may_relay (wd_node_name d) (case target of Some t \<Rightarrow> no_labels t | None \<Rightarrow> []) cfg n"
      using relays_sound [of "wd_node_name d" "case target of Some t \<Rightarrow> no_labels t | None \<Rightarrow> []" nodes cfg] by auto
    with r started(1,2) cfg show ?thesis by (auto simp: relay_pod_for_def may_relay_def)
  qed (use p in auto)
qed

section \<open>A concrete cluster\<close>

definition ready_node :: "string \<Rightarrow> string btmap \<Rightarrow> knode" where
  "ready_node name labels = empty_node\<lparr> no_name := name, no_labels := labels,
     no_conditions := Some [\<lparr> nc_type = ''Ready'', nc_status = ''True'', nc_last_transition = None \<rparr>] \<rparr>"

definition sample_wol_config :: wol_config where
  "sample_wol_config = (default_wol_config ''aa:bb:cc:dd:ee:ff'')\<lparr> wc_send_from_operator := False,
     wc_relay := Some (default_relay_config\<lparr> rl_same_topology_as := Some ''zone'' \<rparr>) \<rparr>"

definition sample_wol_cluster :: cluster where
  "sample_wol_cluster = \<lparr> cl_node = Inr None, cl_delete = Inr (), cl_create = Inr (), cl_probe_pod = Inr None,
     cl_unix_seconds = 0 \<rparr>"

definition sample_wol_world :: wol_world where
  "sample_wol_world = \<lparr> ww_node = (\<lambda>_. Inr (Some (empty_node\<lparr> no_name := ''gpu-1'', no_labels := [(''zone'', ''a'')] \<rparr>))),
     ww_nodes = Inr [ready_node ''b'' [(''zone'', ''b'')], ready_node ''a-1'' [(''zone'', ''a'')]],
     ww_relay_pods = Inr [''old''], ww_delete = (\<lambda>_. Inl (Some 404, ''gone'')), ww_create = (\<lambda>_. Inr ()),
     ww_cluster = sample_wol_cluster, ww_interfaces = Inr [], ww_socket = sample_socket \<rparr>"

definition sample_wol :: wol_driver where
  "sample_wol = \<lparr> wd_config = sample_wol_config, wd_mac = [0xaa, 0xbb, 0xcc, 0xdd, 0xee, 0xff],
     wd_node_name = ''gpu-1'', wd_shutdown_image = ''sh'', wd_relay_image = ''kha'' \<rparr>"

lemma sample_wol_built: "build_wol sample_wol_config ''gpu-1'' ''sh'' ''kha'' = Inr sample_wol"
  by (simp add: build_wol_def sample_wol_def sample_wol_config_def default_wol_config_def parse_mac_def
      mac_separator_def mac_part_def from_str_radix_def to_digit_def)

lemma sample_wol_on:
  "wol_power_on hash sample_wol_world sample_wol
   = (Inr (), [W_Api (DeletePod (pod_name ''gpu-1'')), W_DeletePod ''old'',
       W_CreateRelay (relay_pod_for hash sample_wol ''a-1'')])"
  by (simp add: wol_power_on_def cancel_def wake_by_relays_def wake_via_relays_def sample_wol_def
      sample_wol_config_def default_wol_config_def sample_wol_world_def sample_wol_cluster_def pick_relays_def
      relay_candidate_def ready_node_def wol_node_ready_def default_relay_config_def empty_node_def
      delete_pod_def Let_def POWERED_OFF_ANNOTATION_def)

lemma wake_outcome_witness:
  "relay_started sample_wol_world (snd (wol_power_on (\<lambda>_. 7) sample_wol_world sample_wol))"
proof -
  have "\<not> operator_sent sample_wol_world sample_wol"
    by (simp add: operator_sent_def sample_wol_def sample_wol_config_def default_wol_config_def)
  with wake_outcome [OF sample_wol_built, of "\<lambda>_. 7" sample_wol_world] show ?thesis
    unfolding sample_wol_on by simp
qed

lemma relay_pods_on_ready_neighbours_witness:
  "ry_node (relay_pod_for (\<lambda>_. 7) sample_wol ''a-1'') = ''a-1''
   \<and> (\<exists>n. no_name n = ''a-1'' \<and> wol_node_ready n)"
proof -
  have "W_CreateRelay (relay_pod_for (\<lambda>_. 7) sample_wol ''a-1'')
      \<in> set (snd (wol_power_on (\<lambda>_. 7) sample_wol_world sample_wol))"
    by (simp add: sample_wol_on)
  from relay_pods_on_ready_neighbours [OF this] show ?thesis by (auto simp: relay_pod_for_def)
qed

end
