(* ===== verification/Ping.thy ===== *)
theory Ping
  imports Chain Net
begin

unbundle bit_operations_syntax

text \<open>
  \<^verbatim>\<open>drivers/ping.rs\<close>: the reachability probe.  Name resolution, the API server, TCP connections
  and the ICMP socket are parameters (\<^verbatim>\<open>ping_world\<close>, \<^verbatim>\<open>icmp_world\<close>).  The loop that waits for
  an echo reply runs over the packets the socket delivers; it has no result, \<^verbatim>\<open>None\<close>, while
  the given packets do not end it.
\<close>

section \<open>Configuration\<close>

datatype ping_method = Tcp | Icmp

record ping_config =
  pg_address :: "string option"
  pg_method :: ping_method
  pg_port :: nat
  pg_timeout_ms :: nat
  pg_attempts :: nat

definition default_ping_config :: ping_config where
  "default_ping_config = \<lparr> pg_address = None, pg_method = Tcp, pg_port = 22, pg_timeout_ms = 1000,
     pg_attempts = 3 \<rparr>"

record ping_driver =
  pn_config :: ping_config
  pn_node_name :: string
  pn_client :: bool

definition build_ping :: "ping_config \<Rightarrow> string \<Rightarrow> string + ping_driver" where
  "build_ping config node_name =
     (if pg_address config = Some '''' then
        Inl (error_config ''ping address must not be empty (omit it to use the Node's IP)'')
      else if pg_attempts config = 0 \<or> pg_timeout_ms config = 0 then
        Inl (error_config ''ping attempts and timeoutMs must be positive'')
      else Inr \<lparr> pn_config = config, pn_node_name = node_name, pn_client = True \<rparr>)"

section \<open>The address to probe\<close>

definition ips_of :: "(string \<times> string) list \<Rightarrow> string \<Rightarrow> ip_addr list" where
  "ips_of addrs kind = filter_map (\<lambda>a. parse_ip (snd a)) (filter (\<lambda>a. fst a = kind) addrs)"

definition node_address :: "knode \<Rightarrow> ip_addr option" where
  "node_address node =
     (case no_addresses node of
        None \<Rightarrow> None
      | Some addrs \<Rightarrow>
          (let candidates = ips_of addrs ''InternalIP'' @ ips_of addrs ''ExternalIP'' in
           opt_or (find is_ipv4 candidates) (case candidates of [] \<Rightarrow> None | ip # _ \<Rightarrow> Some ip)))"

datatype io_error_kind =
    ConnectionRefused | TimedOut | HostUnreachable | NetworkUnreachable | WouldBlock | OtherKind

fun tcp_verdict :: "io_error_kind + unit \<Rightarrow> bool option" where
  "tcp_verdict (Inr _) = Some True"
| "tcp_verdict (Inl kind) =
     (if kind = ConnectionRefused then Some True
      else if kind \<in> {TimedOut, HostUnreachable, NetworkUnreachable} then Some False
      else None)"

section \<open>ICMP echo\<close>

definition be16 :: "byte \<Rightarrow> byte \<Rightarrow> 32 word" where
  "be16 hi lo = of_nat (unat hi * 256 + unat lo)"

definition to_be_bytes :: "16 word \<Rightarrow> byte list" where
  "to_be_bytes w = [of_nat (unat w div 256), of_nat (unat w mod 256)]"

definition from_be_bytes :: "byte \<Rightarrow> byte \<Rightarrow> 16 word" where
  "from_be_bytes hi lo = of_nat (unat hi * 256 + unat lo)"

fun chunk_sum :: "byte list \<Rightarrow> 32 word" where
  "chunk_sum [] = 0"
| "chunk_sum [c] = be16 c 0"
| "chunk_sum (c # d # cs) = be16 c d + chunk_sum cs"

function fold_carries :: "32 word \<Rightarrow> 32 word" where
  "fold_carries s =
     (if drop_bit 16 s = 0 then s else fold_carries (take_bit 16 s + drop_bit 16 s))"
  by pat_completeness auto

lemma unat_halves:
  fixes s :: "32 word"
  shows "unat (take_bit 16 s) = unat s mod 65536" and "unat (drop_bit 16 s) = unat s div 65536"
  by (simp_all add: take_bit_eq_mod drop_bit_eq_div unat_div unat_mod)

lemma fold_step:
  fixes s :: "32 word"
  shows "unat (take_bit 16 s + drop_bit 16 s) = unat s mod 65536 + unat s div 65536"
proof -
  have "unat s < 2 ^ 32" using unsigned_less [of s, where ?'a = nat] by simp
  then have "unat s mod 65536 + unat s div 65536 < 2 ^ 32" by simp
  then show ?thesis by (simp add: unat_word_ariths unat_halves)
qed

lemma drop_bit_0_iff: "drop_bit 16 (s :: 32 word) = 0 \<longleftrightarrow> unat s < 65536"
proof -
  have "drop_bit 16 s = 0 \<longleftrightarrow> unat (drop_bit 16 s) = 0" by (simp only: unat_eq_0)
  then show ?thesis by (simp only: unat_halves div_eq_0_iff) simp
qed

lemma less_after_fold: "65536 \<le> (n :: nat) \<Longrightarrow> n mod 65536 + n div 65536 < n"
proof -
  assume "65536 \<le> n"
  then have "0 < n div 65536" by (simp add: div_greater_zero_iff)
  moreover have "n = 65536 * (n div 65536) + n mod 65536" by simp
  ultimately show ?thesis by linarith
qed

termination fold_carries
proof (relation "measure unat")
  fix s :: "32 word"
  assume "drop_bit 16 s \<noteq> 0"
  then have "65536 \<le> unat s" by (simp add: drop_bit_0_iff not_less)
  then have "unat s mod 65536 + unat s div 65536 < unat s"
    by (rule less_after_fold)
  then show "(take_bit 16 s + drop_bit 16 s, s) \<in> measure unat" by (simp add: fold_step)
qed simp

declare fold_carries.simps [simp del]

definition checksum :: "byte list \<Rightarrow> 16 word" where
  "checksum data = NOT (ucast (fold_carries (chunk_sum data)) :: 16 word)"

definition ECHO_PAYLOAD :: "byte list" where
  "ECHO_PAYLOAD = map (\<lambda>c. of_nat (of_char c)) ''kube-hardware-autoscaler''"

definition echo_request :: "16 word \<Rightarrow> 16 word \<Rightarrow> byte list" where
  "echo_request ident seqno =
     (let p = [8, 0, 0, 0] @ to_be_bytes ident @ to_be_bytes seqno @ ECHO_PAYLOAD;
          c = to_be_bytes (checksum p)
      in p[2 := c ! 0, 3 := c ! 1])"

definition is_reply :: "byte list \<Rightarrow> 16 word \<Rightarrow> bool" where
  "is_reply icmp seqno =
     (8 \<le> length icmp \<and> icmp ! 0 = 0 \<and> from_be_bytes (icmp ! 6) (icmp ! 7) = seqno)"

text \<open>One round of the waiting loop: the milliseconds left before the deadline, whether the read
  timeout could be set, and what was received.\<close>

datatype received = Received "byte list" "ipv4_addr option" | Receive_failed io_error_kind string

record wait_event =
  we_remaining :: nat
  we_set_timeout :: "string + unit"
  we_received :: received

definition icmp_payload :: "bool \<Rightarrow> byte list \<Rightarrow> byte list" where
  "icmp_payload raw data =
     (if raw then drop (unat (take_bit 4 (case data of [] \<Rightarrow> 0 | b # _ \<Rightarrow> b)) * 4) data else data)"

fun await_reply :: "bool \<Rightarrow> ipv4_addr \<Rightarrow> 16 word \<Rightarrow> wait_event list \<Rightarrow> (string + bool) option" where
  "await_reply raw target seqno [] = None"
| "await_reply raw target seqno (e # es) =
     (if we_remaining e = 0 then Some (Inr False)
      else
        (case we_set_timeout e of
           Inl err \<Rightarrow> Some (Inl err)
         | Inr _ \<Rightarrow>
             (case we_received e of
                Received data from \<Rightarrow>
                  if from = Some target \<and> is_reply (icmp_payload raw data) seqno then Some (Inr True)
                  else await_reply raw target seqno es
              | Receive_failed kind text \<Rightarrow>
                  if kind = WouldBlock \<or> kind = TimedOut then Some (Inr False) else Some (Inl text))))"

record icmp_world =
  iw_worker :: "string + unit"
  iw_dgram :: bool
  iw_raw :: "string + unit"
  iw_send :: "byte list \<Rightarrow> string + unit"
  iw_pid :: nat
  iw_events :: "wait_event list"

definition icmp_echo :: "icmp_world \<Rightarrow> ipv4_addr \<Rightarrow> 16 word \<Rightarrow> (string + bool) option" where
  "icmp_echo iw target seqno =
     (case (if iw_dgram iw then Inr False else map_sum (\<lambda>e. e) (\<lambda>_. True) (iw_raw iw)) of
        Inl e \<Rightarrow> Some (Inl e)
      | Inr raw \<Rightarrow>
          (case iw_send iw (echo_request (of_nat (iw_pid iw)) seqno) of
             Inl e \<Rightarrow> Some (Inl e)
           | Inr _ \<Rightarrow> await_reply raw target seqno (iw_events iw)))"

section \<open>The driver\<close>

record ping_world =
  pw_lookup_host :: "string \<Rightarrow> nat \<Rightarrow> string + socket_addr list"
  pw_node :: "string + knode option"
  pw_connect :: "nat \<Rightarrow> socket_addr \<Rightarrow> nat \<times> (io_error_kind + unit)"
  pw_icmp :: "nat \<Rightarrow> icmp_world"

definition resolve_target :: "ping_world \<Rightarrow> ping_driver \<Rightarrow> string + socket_addr" where
  "resolve_target w d =
     (case pg_address (pn_config d) of
        Some address \<Rightarrow>
          (case pw_lookup_host w address (pg_port (pn_config d)) of
             Inl e \<Rightarrow> Inl (error_io e)
           | Inr [] \<Rightarrow> Inl (error_interface (''cannot resolve '' @ address))
           | Inr (addr # _) \<Rightarrow> Inr addr)
      | None \<Rightarrow>
          if \<not> pn_client d then Inl (error_config ''no address configured and no Kubernetes client'')
          else
            (case pw_node w of
               Inl e \<Rightarrow> Inl e
             | Inr None \<Rightarrow> Inl (error_interface (''Node '' @ pn_node_name d @ '' not found; set config.address''))
             | Inr (Some node) \<Rightarrow>
                 (case node_address node of
                    None \<Rightarrow> Inl (error_interface (''Node '' @ pn_node_name d
                              @ '' reports no InternalIP; set config.address''))
                  | Some ip \<Rightarrow> Inr (ip, pg_port (pn_config d)))))"

definition tcp_probe :: "ping_world \<Rightarrow> ping_driver \<Rightarrow> socket_addr \<Rightarrow> nat \<Rightarrow> bool option" where
  "tcp_probe w d target turn =
     (case pw_connect w turn target of
        (millis, r) \<Rightarrow> tcp_verdict (if millis \<le> pg_timeout_ms (pn_config d) then r else Inl TimedOut))"

definition icmp_probe :: "ping_world \<Rightarrow> ipv4_addr \<Rightarrow> nat \<Rightarrow> (string + bool) option" where
  "icmp_probe w target turn =
     (case iw_worker (pw_icmp w turn) of
        Inl e \<Rightarrow> Some (Inl (error_interface (''icmp worker failed: '' @ e)))
      | Inr _ \<Rightarrow>
          map_option (map_sum (\<lambda>e. error_interface (''icmp socket unavailable ('' @ e
              @ ''); allow unprivileged ping (net.ipv4.ping_group_range) or use method: tcp'')) (\<lambda>b. b))
            (icmp_echo (pw_icmp w turn) target (of_nat turn)))"

definition probe_once :: "ping_world \<Rightarrow> ping_driver \<Rightarrow> socket_addr \<Rightarrow> nat \<Rightarrow> (string + bool option) option" where
  "probe_once w d target turn =
     (case pg_method (pn_config d) of
        Tcp \<Rightarrow> Some (Inr (tcp_probe w d target turn))
      | Icmp \<Rightarrow>
          (case fst target of
             V4 v4 \<Rightarrow> map_option (map_sum (\<lambda>e. e) Some) (icmp_probe w v4 turn)
           | V6 _ \<Rightarrow> Some (Inl (error_config ''icmp probing supports IPv4 only; use method: tcp''))))"

fun probe_attempts ::
    "ping_world \<Rightarrow> ping_driver \<Rightarrow> socket_addr \<Rightarrow> nat list \<Rightarrow> nat \<Rightarrow> (string + power_state) option" where
  "probe_attempts w d target [] inconclusive =
     Some (Inr (if inconclusive = pg_attempts (pn_config d) then PS_Unknown else PS_Off))"
| "probe_attempts w d target (turn # turns) inconclusive =
     (case probe_once w d target turn of
        None \<Rightarrow> None
      | Some (Inl e) \<Rightarrow> Some (Inl e)
      | Some (Inr (Some True)) \<Rightarrow> Some (Inr PS_On)
      | Some (Inr (Some False)) \<Rightarrow> probe_attempts w d target turns inconclusive
      | Some (Inr None) \<Rightarrow> probe_attempts w d target turns (inconclusive + 1))"

definition ping_power_state :: "ping_world \<Rightarrow> ping_driver \<Rightarrow> (string + power_state) option" where
  "ping_power_state w d =
     (case resolve_target w d of
        Inl e \<Rightarrow> Some (Inl e)
      | Inr target \<Rightarrow> probe_attempts w d target [0..<pg_attempts (pn_config d)] 0)"

definition status_only :: string where
  "status_only = error_interface ''the ping driver only reports power state''"

definition ping_as_driver :: "nat \<Rightarrow> string + power_state \<Rightarrow> driver" where
  "ping_as_driver millis reading =
     \<lparr> dv_supports = (\<lambda>action. action = IA_Status),
       dv_power_state = \<lparr> an_millis = millis, an_result = reading \<rparr>,
       dv_power_on = \<lparr> an_millis = 0, an_result = Inl status_only \<rparr>,
       dv_power_off = (\<lambda>_. \<lparr> an_millis = 0, an_result = Inl status_only \<rparr>),
       dv_system_id = \<lparr> an_millis = 0, an_result = Inr None \<rparr> \<rparr>"

section \<open>The checksum\<close>

fun chunk_total :: "byte list \<Rightarrow> nat" where
  "chunk_total [] = 0"
| "chunk_total [c] = unat c * 256"
| "chunk_total (c # d # cs) = unat c * 256 + unat d + chunk_total cs"

lemma chunk_total_bound: "chunk_total cs \<le> 65535 * ((length cs + 1) div 2)"
proof (induction cs rule: chunk_total.induct)
  case (2 c)
  have "unat c * 256 \<le> 65535" using unat_byte_le [of c] by linarith
  then show ?case by simp
next
  case (3 c d cs)
  have "unat c * 256 + unat d \<le> 65535" using unat_byte_le [of c] unat_byte_le [of d] by linarith
  moreover have "(length (c # d # cs) + 1) div 2 = Suc ((length cs + 1) div 2)" by simp
  ultimately show ?case using 3 by simp
qed simp

lemma unat_be16: "unat (be16 c d) = unat c * 256 + unat d"
proof -
  have "unat c * 256 + unat d < 4294967296" using unat_byte_le [of c] unat_byte_le [of d] by linarith
  moreover have "unat (be16 c d) = (unat c * 256 + unat d) mod 4294967296"
    unfolding be16_def unat_of_nat by simp
  ultimately show ?thesis by simp
qed

lemma unat_chunk_sum: "length cs \<le> 100000 \<Longrightarrow> unat (chunk_sum cs) = chunk_total cs"
proof (induction cs rule: chunk_total.induct)
  case (3 c d cs)
  have "(length cs + 1) div 2 \<le> 50000" using 3(2) by simp
  then have "chunk_total cs \<le> 65535 * 50000" using chunk_total_bound [of cs] by linarith
  then have "unat c * 256 + unat d + chunk_total cs < 4294967296"
    using unat_byte_le [of c] unat_byte_le [of d] by linarith
  then show ?case using 3 by (simp add: unat_word_ariths unat_be16)
qed (simp_all add: unat_be16)

lemma fold_carries_spec:
  "unat (fold_carries s) < 65536 \<and> unat (fold_carries s) mod 65535 = unat s mod 65535
   \<and> (unat (fold_carries s) = 0 \<longleftrightarrow> unat s = 0)"
proof (induction s rule: fold_carries.induct)
  case (1 s)
  show ?case
  proof (cases "drop_bit 16 s = 0")
    case True
    then show ?thesis by (simp add: fold_carries.simps [of s] drop_bit_0_iff)
  next
    case False
    define t where "t = take_bit 16 s + drop_bit 16 s"
    have t: "unat t = unat s mod 65536 + unat s div 65536" by (simp add: t_def fold_step)
    have "unat s = 65536 * (unat s div 65536) + unat s mod 65536" by simp
    then have "unat s = 65535 * (unat s div 65536) + unat t" unfolding t by linarith
    then have m: "unat t mod 65535 = unat s mod 65535" by (metis mod_mult_self4)
    have "65536 \<le> unat s" using False by (simp add: drop_bit_0_iff not_less)
    then have "0 < unat s div 65536" by (simp add: div_greater_zero_iff)
    then have "unat t \<noteq> 0" "unat s \<noteq> 0" using t by auto
    with 1 [OF False, folded t_def] m show ?thesis
      by (simp add: fold_carries.simps [of s] False t_def [symmetric])
  qed
qed

lemma unat_not16: "unat (NOT (w :: 16 word)) = 65535 - unat w"
proof -
  have "NOT w = - 1 - w" by (simp add: not_eq_complement)
  moreover have "w \<le> - 1" by simp
  ultimately have "unat (NOT w) = unat (- 1 :: 16 word) - unat w" by (simp only: unat_sub)
  moreover have "unat (- 1 :: 16 word) = 65535" by (simp add: unsigned_minus_1_eq_mask mask_eq_exp_minus_1)
  ultimately show ?thesis by simp
qed

lemma unat_checksum:
  assumes "length cs \<le> 100000"
  obtains f where "unat (checksum cs) = 65535 - f" and "f \<le> 65535"
    and "f mod 65535 = chunk_total cs mod 65535" and "f = 0 \<longleftrightarrow> chunk_total cs = 0"
proof -
  define f where "f = unat (fold_carries (chunk_sum cs))"
  have f: "f < 65536" "f mod 65535 = chunk_total cs mod 65535" "f = 0 \<longleftrightarrow> chunk_total cs = 0"
    using fold_carries_spec [of "chunk_sum cs"] unat_chunk_sum [OF assms] by (simp_all add: f_def)
  have "unat (ucast (fold_carries (chunk_sum cs)) :: 16 word) = f"
    using f(1) by (simp add: f_def unsigned_ucast_eq take_bit_nat_eq_self)
  then have "unat (checksum cs) = 65535 - f" by (simp only: checksum_def unat_not16)
  moreover have "f \<le> 65535" using f(1) by simp
  ultimately show ?thesis using f(2,3) by (rule that)
qed

lemma chunk_total_to_be_bytes:
  "chunk_total (a # b # to_be_bytes c @ rest) = chunk_total (a # b # 0 # 0 # rest) + unat c"
proof -
  have "unat c < 65536" using unsigned_less [of c, where ?'a = nat] by simp
  then have "unat (of_nat (unat c div 256) :: byte) = unat c div 256"
    "unat (of_nat (unat c mod 256) :: byte) = unat c mod 256"
    by (simp_all add: unat_of_nat less_mult_imp_div_less)
  then show ?thesis by (simp add: to_be_bytes_def)
qed

lemma mod_add_right_cancel: "((m :: nat) + n) mod k = n mod k \<Longrightarrow> m mod k = 0"
  by (metis add_diff_cancel_right' dvd_imp_mod_0 le_add2 mod_eq_dvd_iff_nat)

lemma checksum_verifies:
  assumes "length rest \<le> 90000"
  shows "checksum (a # b # to_be_bytes (checksum (a # b # 0 # 0 # rest)) @ rest) = 0"
proof -
  let ?p = "a # b # 0 # 0 # rest" and ?c = "checksum (a # b # 0 # 0 # rest)"
  let ?q = "a # b # to_be_bytes ?c @ rest"
  have len: "length ?p \<le> 100000" "length ?q \<le> 100000" using assms by (simp_all add: to_be_bytes_def)
  obtain f where f: "unat ?c = 65535 - f" "f \<le> 65535" "f mod 65535 = chunk_total ?p mod 65535"
    "f = 0 \<longleftrightarrow> chunk_total ?p = 0"
    by (rule unat_checksum [OF len(1)])
  obtain g where g: "unat (checksum ?q) = 65535 - g" "g \<le> 65535" "g mod 65535 = chunk_total ?q mod 65535"
    "g = 0 \<longleftrightarrow> chunk_total ?q = 0"
    by (rule unat_checksum [OF len(2)])
  have q: "chunk_total ?q + f = chunk_total ?p + 65535"
    using f(1,2) by (simp only: chunk_total_to_be_bytes)
  have "(chunk_total ?q + f) mod 65535 = f mod 65535" using f(3) unfolding q by simp
  then have "chunk_total ?q mod 65535 = 0" by (rule mod_add_right_cancel)
  then have "g mod 65535 = 0" using g(3) by simp
  moreover have "g \<noteq> 0" using f(1,2,4) g(4) q by auto
  ultimately have "g = 65535" using g(2) by (cases "g = 65535") auto
  then have "unat (checksum ?q) = 0" using g(1) by simp
  then show ?thesis by (simp only: unat_eq_0)
qed

lemma update_2_3: "(a # b # c # d # rest)[2 := x, 3 := y] = a # b # x # y # rest"
  by (simp add: numeral_2_eq_2 numeral_3_eq_3)

lemma echo_request_shape:
  "echo_request ident seqno =
     8 # 0 # to_be_bytes (checksum (8 # 0 # 0 # 0 # to_be_bytes ident @ to_be_bytes seqno @ ECHO_PAYLOAD))
       @ to_be_bytes ident @ to_be_bytes seqno @ ECHO_PAYLOAD"
  unfolding echo_request_def Let_def append_Cons append_Nil update_2_3 by (simp add: to_be_bytes_def)

lemma be_bytes_roundtrip: "from_be_bytes (to_be_bytes w ! 0) (to_be_bytes w ! 1) = w"
proof -
  have "unat w < 65536" using unsigned_less [of w, where ?'a = nat] by simp
  then have "unat (of_nat (unat w div 256) :: byte) = unat w div 256"
    "unat (of_nat (unat w mod 256) :: byte) = unat w mod 256"
    by (simp_all add: unat_of_nat less_mult_imp_div_less)
  then have "unat (to_be_bytes w ! 0) * 256 + unat (to_be_bytes w ! 1) = unat w"
    by (simp add: to_be_bytes_def)
  then show ?thesis by (simp only: from_be_bytes_def) simp
qed

text \<open>C29: Every echo request carries a checksum that verifies, is 32 bytes long, and the packet that
  answers it (the same one with type 0) is recognised for exactly its own sequence number; the
  request itself is never taken for a reply.\<close>

theorem echo_request_answered:
  "checksum (echo_request ident seqno) = 0
   \<and> length (echo_request ident seqno) = 32
   \<and> (is_reply ((echo_request ident seqno)[0 := 0]) seqno' \<longleftrightarrow> seqno' = seqno)
   \<and> \<not> is_reply (echo_request ident seqno) seqno'"
proof -
  have len: "length (to_be_bytes ident @ to_be_bytes seqno @ ECHO_PAYLOAD) \<le> 90000"
    by (simp add: to_be_bytes_def ECHO_PAYLOAD_def)
  have "is_reply ((echo_request ident seqno)[0 := 0]) seqno' \<longleftrightarrow>
      from_be_bytes (to_be_bytes seqno ! 0) (to_be_bytes seqno ! 1) = seqno'"
    by (simp add: echo_request_shape is_reply_def ECHO_PAYLOAD_def to_be_bytes_def)
  moreover have "\<not> is_reply (echo_request ident seqno) seqno'"
    by (simp add: echo_request_shape is_reply_def)
  moreover have "length (echo_request ident seqno) = 32"
    by (simp add: echo_request_shape ECHO_PAYLOAD_def to_be_bytes_def)
  moreover have "checksum (echo_request ident seqno) = 0"
    unfolding echo_request_shape by (rule checksum_verifies [OF len])
  ultimately show ?thesis unfolding be_bytes_roundtrip by auto
qed

section \<open>What a probe reports\<close>

definition probes :: "ping_world \<Rightarrow> ping_driver \<Rightarrow> socket_addr \<Rightarrow> bool option list" where
  "probes w d target = map (tcp_probe w d target) [0..<pg_attempts (pn_config d)]"

lemma probe_attempts_tcp:
  assumes "pg_method (pn_config d) = Tcp"
  shows "probe_attempts w d target turns k =
    Some (Inr (if Some True \<in> set (map (tcp_probe w d target) turns) then PS_On
               else if k + length (filter (\<lambda>t. tcp_probe w d target t = None) turns) = pg_attempts (pn_config d)
               then PS_Unknown else PS_Off))"
proof (induction turns arbitrary: k)
  case (Cons t turns)
  consider "tcp_probe w d target t = None" | "tcp_probe w d target t = Some True"
    | "tcp_probe w d target t = Some False"
    by (cases "tcp_probe w d target t") auto
  then show ?case
    by cases (simp_all add: Cons probe_once_def assms)
qed simp

lemma length_filter_eq_length: "length (filter p xs) = length xs \<longleftrightarrow> (\<forall>x \<in> set xs. p x)"
  by (metis filter_id_conv length_filter_less less_irrefl)

text \<open>A TCP probe reports On exactly when some attempt was answered, Unknown exactly when every
  attempt was inconclusive, and Off otherwise, so Off needs a definite failure and no answer.\<close>

theorem ping_reading:
  assumes "resolve_target w d = Inr target" and "pg_method (pn_config d) = Tcp"
  shows "ping_power_state w d = Some (Inr
    (if Some True \<in> set (probes w d target) then PS_On
     else if set (probes w d target) \<subseteq> {None} then PS_Unknown else PS_Off))"
proof -
  let ?turns = "[0..<pg_attempts (pn_config d)]"
  have "length (filter (\<lambda>t. tcp_probe w d target t = None) ?turns) = length ?turns
      \<longleftrightarrow> set (probes w d target) \<subseteq> {None}"
    unfolding length_filter_eq_length by (auto simp: probes_def)
  then show ?thesis
    unfolding ping_power_state_def assms(1) by (simp add: probe_attempts_tcp [OF assms(2)] probes_def)
qed

definition sample_ping :: "nat \<Rightarrow> ping_driver" where
  "sample_ping attempts = \<lparr> pn_config = default_ping_config\<lparr> pg_address := Some ''h'', pg_attempts := attempts \<rparr>,
     pn_node_name = ''n'', pn_client = True \<rparr>"

text \<open>A host that refuses the connection in the given turn and is silent in the others.\<close>

definition sample_ping_world :: "nat \<Rightarrow> ping_world" where
  "sample_ping_world refused = \<lparr> pw_lookup_host = (\<lambda>_ port. Inr [(V4 (Ipv4 10 0 0 1), port)]), pw_node = Inr None,
     pw_connect = (\<lambda>turn _. if turn = refused then (5, Inl ConnectionRefused) else (5000, Inr ())),
     pw_icmp = (\<lambda>_. \<lparr> iw_worker = Inr (), iw_dgram = True, iw_raw = Inr (), iw_send = (\<lambda>_. Inr ()),
       iw_pid = 1, iw_events = [\<lparr> we_remaining = 0, we_set_timeout = Inr (),
         we_received = Receive_failed WouldBlock '''' \<rparr>] \<rparr>) \<rparr>"

lemma ping_reading_witness:
  "ping_power_state (sample_ping_world 1) (sample_ping 2) = Some (Inr PS_On)
   \<and> ping_power_state (sample_ping_world 7) (sample_ping 2) = Some (Inr PS_Off)"
proof -
  have r: "resolve_target (sample_ping_world k) (sample_ping 2) = Inr (V4 (Ipv4 10 0 0 1), 22)" for k
    by (simp add: resolve_target_def sample_ping_def sample_ping_world_def default_ping_config_def)
  have t: "pg_method (pn_config (sample_ping 2)) = Tcp"
    by (simp add: sample_ping_def default_ping_config_def)
  have p: "probes (sample_ping_world k) (sample_ping 2) (V4 (Ipv4 10 0 0 1), 22)
      = [Some (k = 0), Some (k = 1)]" for k
    by (simp add: probes_def tcp_probe_def sample_ping_def sample_ping_world_def default_ping_config_def
        numeral_2_eq_2)
  show ?thesis
    using ping_reading [OF r [of 1] t] ping_reading [OF r [of 7] t] by (simp add: p)
qed

section \<open>The probe ends\<close>

lemma await_reply_ends:
  "\<exists>e \<in> set es. we_remaining e = 0 \<Longrightarrow> \<exists>r. await_reply raw target seqno es = Some r"
  by (induction es) (auto split: sum.splits received.splits)

text \<open>A status query ends: when in every attempt the deadline is seen to pass after some packet, the
  wait for a reply stops, whatever else arrives, and the driver has an answer.\<close>

theorem ping_ends:
  assumes deadline: "\<And>turn. \<exists>e \<in> set (iw_events (pw_icmp w turn)). we_remaining e = 0"
  shows "\<exists>r. ping_power_state w d = Some r"
proof -
  have "\<exists>r. icmp_echo (pw_icmp w turn) v4 seqno = Some r" for turn v4 seqno
    using await_reply_ends [OF deadline] by (auto simp: icmp_echo_def split: sum.splits)
  then have once: "\<exists>r. probe_once w d target turn = Some r" for target turn
    by (auto simp: probe_once_def icmp_probe_def split: ping_method.splits ip_addr.splits sum.splits)
  have "\<exists>r. probe_attempts w d target turns k = Some r" for target turns k
  proof (induction turns arbitrary: k)
    case (Cons t turns)
    from once [of target t] obtain r where "probe_once w d target t = Some r" by blast
    then show ?case using Cons by (auto split: sum.splits option.splits bool.splits)
  qed simp
  then show ?thesis by (simp add: ping_power_state_def split: sum.split)
qed

lemma ping_ends_witness:
  "\<exists>r. ping_power_state (sample_ping_world 0) (sample_ping 3\<lparr> pn_config :=
     default_ping_config\<lparr> pg_address := Some ''h'', pg_method := Icmp \<rparr> \<rparr>) = Some r"
  by (rule ping_ends) (simp add: sample_ping_world_def)

text \<open>An IPv4 address of the outside is preferred to an IPv6 address of the inside.\<close>

lemma node_address_outside_first:
  "node_address (empty_node\<lparr> no_addresses := Some [(''InternalIP'', ''fd00::7''), (''ExternalIP'', ''192.168.10.7'')] \<rparr>)
   = Some (V4 (Ipv4 192 168 10 7))"
  by (simp add: node_address_def ips_of_def parse_ip_example_v4 parse_ip_example_v6 is_ipv4_def)

text \<open>The power chain never sends a power action to the probe.\<close>

lemma ping_never_acts:
  "lk_driver l = ping_as_driver millis reading \<Longrightarrow> action \<noteq> IA_Status \<Longrightarrow> \<not> usable action l"
  by (simp add: usable_def ping_as_driver_def)

end
