(* ===== verification/Webhook.thy ===== *)
theory Webhook
  imports PoolController Net
begin

text \<open>
  \<^verbatim>\<open>webhook.rs\<close>: the admission webhook for pools: its certificate and the Secret that keeps it,
  the review of a pool, and the registration.  Issuing certificates, RFC 3339 times and base64 come
  from other crates and are parameters; so are the answers of the API server.  Serving HTTPS is not
  modelled.
\<close>

section \<open>Settings\<close>

record webhook_settings =
  ws_namespace :: string
  ws_service :: string
  ws_service_port :: int
  ws_secret :: string
  ws_config_name :: string
  ws_owner_cluster_role :: "string option"

definition WEBHOOK_PATH :: string where
  "WEBHOOK_PATH = ''/validate-nodescalingpool''"

definition NOT_AFTER_ANNOTATION :: string where
  "NOT_AFTER_ANNOTATION = ''hardware-autoscaler.safewords.com/not-after''"

definition DNS_NAMES_ANNOTATION :: string where
  "DNS_NAMES_ANNOTATION = ''hardware-autoscaler.safewords.com/dns-names''"

definition dns_names :: "webhook_settings \<Rightarrow> string list" where
  "dns_names s =
     (let base = ws_service s @ ''.'' @ ws_namespace s @ ''.svc'' in [base, base @ ''.cluster.local''])"

section \<open>The certificate\<close>

record tls =
  tl_ca_pem :: string
  tl_cert_pem :: string
  tl_key_pem :: string

text \<open>The Secret of the webhook; the value of a data entry is \<^verbatim>\<open>None\<close> when it is not UTF-8.\<close>

record tls_secret =
  ts_annotations :: "string btmap option"
  ts_data :: "string option btmap option"
  ts_resource_version :: "string option"

text \<open>What \<^verbatim>\<open>chrono\<close> provides.\<close>

record time_format =
  tf_parse :: "string \<Rightarrow> instant option"
  tf_show :: "instant \<Rightarrow> string"

definition days :: "int \<Rightarrow> duration" where
  "days n = secs (86400 * n)"

definition tls_from_secret :: "time_format \<Rightarrow> instant \<Rightarrow> tls_secret \<Rightarrow> string \<Rightarrow> tls option" where
  "tls_from_secret tf now secret names =
     (case ts_annotations secret of
        None \<Rightarrow> None
      | Some annotations \<Rightarrow>
          if bt_get annotations DNS_NAMES_ANNOTATION \<noteq> Some names then None
          else
            (case Option.bind (bt_get annotations NOT_AFTER_ANNOTATION) (tf_parse tf) of
               None \<Rightarrow> None
             | Some not_after \<Rightarrow>
                 if not_after < now + days 30 then None
                 else
                   (case ts_data secret of
                      None \<Rightarrow> None
                    | Some data \<Rightarrow>
                        (let text = (\<lambda>k. Option.bind (bt_get data k) (\<lambda>v. v)) in
                         case (text ''ca.crt'', text ''tls.crt'', text ''tls.key'') of
                           (Some ca, Some crt, Some key) \<Rightarrow>
                             Some \<lparr> tl_ca_pem = ca, tl_cert_pem = crt, tl_key_pem = key \<rparr>
                         | _ \<Rightarrow> None))))"

definition secret_for :: "time_format \<Rightarrow> tls \<Rightarrow> instant \<Rightarrow> string \<Rightarrow> string option \<Rightarrow> tls_secret" where
  "secret_for tf tls not_after names version =
     \<lparr> ts_annotations = Some (bt_collect [(NOT_AFTER_ANNOTATION, tf_show tf not_after), (DNS_NAMES_ANNOTATION, names)]),
       ts_data = Some (bt_collect [(''ca.crt'', Some (tl_ca_pem tls)), (''tls.crt'', Some (tl_cert_pem tls)),
         (''tls.key'', Some (tl_key_pem tls))]),
       ts_resource_version = version \<rparr>"

text \<open>What the API server and the certificate library answer in each round.\<close>

type_synonym store_error = "nat option \<times> string"

datatype secret_write = CreateSecret tls_secret | ReplaceSecret tls_secret

record tls_world =
  tw_now :: "nat \<Rightarrow> instant"
  tw_get :: "nat \<Rightarrow> string + tls_secret option"
  tw_issue :: "nat \<Rightarrow> string list \<Rightarrow> string + tls \<times> instant"
  tw_write :: "nat \<Rightarrow> secret_write \<Rightarrow> store_error + unit"

definition write_for :: "time_format \<Rightarrow> tls_secret option \<Rightarrow> tls \<Rightarrow> instant \<Rightarrow> string \<Rightarrow> secret_write" where
  "write_for tf existing tls not_after names =
     (case existing of
        Some old \<Rightarrow> ReplaceSecret (secret_for tf tls not_after names (ts_resource_version old))
      | None \<Rightarrow> CreateSecret (secret_for tf tls not_after names None))"

fun ensure_rounds ::
    "time_format \<Rightarrow> tls_world \<Rightarrow> webhook_settings \<Rightarrow> nat list \<Rightarrow> (string + tls) \<times> (nat \<times> secret_write) list" where
  "ensure_rounds tf w s [] =
     (Inl (''could not store the webhook certificate in Secret '' @ ws_secret s), [])"
| "ensure_rounds tf w s (k # ks) =
     (let names = join '','' (dns_names s) in
      case tw_get w k of
        Inl e \<Rightarrow> (Inl e, [])
      | Inr existing \<Rightarrow>
          (case Option.bind existing (\<lambda>sec. tls_from_secret tf (tw_now w k) sec names) of
             Some tls \<Rightarrow> (Inr tls, [])
           | None \<Rightarrow>
               (case tw_issue w k (dns_names s) of
                  Inl e \<Rightarrow> (Inl e, [])
                | Inr (tls, not_after) \<Rightarrow>
                    (let sw = write_for tf existing tls not_after names in
                     case tw_write w k sw of
                       Inr _ \<Rightarrow> (Inr tls, [(k, sw)])
                     | Inl (code, text) \<Rightarrow>
                         if code = Some 409 then
                           (case ensure_rounds tf w s ks of (r, log) \<Rightarrow> (r, (k, sw) # log))
                         else (Inl text, [(k, sw)])))))"

definition ensure_tls :: "time_format \<Rightarrow> tls_world \<Rightarrow> webhook_settings \<Rightarrow> (string + tls) \<times> (nat \<times> secret_write) list" where
  "ensure_tls tf w s = ensure_rounds tf w s [0..<3]"

section \<open>Reviewing a pool\<close>

definition quoted_names :: "string list \<Rightarrow> string" where
  "quoted_names names = join '', '' (map debug_str names)"

definition was_listed :: "pool_spec option \<Rightarrow> string \<Rightarrow> bool" where
  "was_listed old n = is_some_and old
     (\<lambda>o'. list_ex (\<lambda>p. pn_name p = n) (su_preferred_nodes (ps_scale_up o')))"

definition review_pool ::
    "pool_spec \<Rightarrow> pool_spec option \<Rightarrow> (string \<Rightarrow> string btmap option) \<Rightarrow> string + string list" where
  "review_pool new old labels_of =
     (let (missing, outside) = preferred_node_problems (ps_node_selector new) labels_of
            (su_preferred_nodes (ps_scale_up new));
          (kept, refused) = partition (was_listed old) missing
      in if refused \<noteq> [] then
           Inl (''spec.scaleUp.preferredNodes: no Node named '' @ quoted_names refused
                @ '' (entries are Node names, as in `kubectl get nodes`)'')
         else
           Inr ((if kept = [] then []
                 else [''spec.scaleUp.preferredNodes: Node '' @ quoted_names kept
                       @ '' no longer exists; the entry is ignored''])
             @ (if outside = [] then []
                else [''spec.scaleUp.preferredNodes: Node '' @ quoted_names outside
                      @ '' is not selected by spec.nodeSelector; the entry has no effect''])
             @ (case deprecation_warning (ps_scale_down new) of Some t \<Rightarrow> [t] | None \<Rightarrow> [])))"

datatype operation = Op_Create | Op_Update | Op_Delete | Op_Connect

text \<open>An admission request for a pool; the review may carry none.\<close>

record admission_request =
  aq_operation :: operation
  aq_object :: "pool_spec option"
  aq_old_object :: "pool_spec option"

record admission_response =
  as_allowed :: bool
  as_reason :: "string option"
  as_warnings :: "string list option"

definition admitted :: admission_response where
  "admitted = \<lparr> as_allowed = True, as_reason = None, as_warnings = None \<rparr>"

definition denied :: "string \<Rightarrow> admission_response" where
  "denied reason = \<lparr> as_allowed = False, as_reason = Some reason, as_warnings = None \<rparr>"

definition labels_in :: "knode list \<Rightarrow> string \<Rightarrow> string btmap option" where
  "labels_in found n = map_option no_labels (find (\<lambda>node. no_name node = n) found)"

definition validate_review :: "(string \<Rightarrow> knode option) \<Rightarrow> string + admission_request \<Rightarrow> admission_response" where
  "validate_review nodes review =
     (case review of
        Inl e \<Rightarrow> denied e
      | Inr req \<Rightarrow>
          if aq_operation req \<notin> {Op_Create, Op_Update} then admitted
          else
            (case aq_object req of
               None \<Rightarrow> admitted
             | Some pool \<Rightarrow>
                 (let found = filter_map (\<lambda>p. nodes (pn_name p)) (su_preferred_nodes (ps_scale_up pool)) in
                  case review_pool pool (aq_old_object req) (labels_in found) of
                    Inr warnings \<Rightarrow>
                      if warnings = [] then admitted else admitted\<lparr> as_warnings := Some warnings \<rparr>
                  | Inl reason \<Rightarrow> denied reason)))"

section \<open>Registration\<close>

text \<open>The parts of the \<^verbatim>\<open>ValidatingWebhookConfiguration\<close> that depend on the settings; an owner is
  the name and the uid of a ClusterRole.\<close>

record webhook_config =
  vc_name :: string
  vc_owners :: "(string \<times> string) list"
  vc_service :: "string \<times> string \<times> int \<times> string"
  vc_ca_bundle :: string

record register_world =
  rw_cluster_role :: "string \<Rightarrow> string + string option option"
  rw_apply :: "webhook_config \<Rightarrow> string + unit"
  rw_delete :: "string \<Rightarrow> store_error + unit"

definition owners_of :: "register_world \<Rightarrow> webhook_settings \<Rightarrow> (string \<times> string) list" where
  "owners_of w s =
     (case ws_owner_cluster_role s of
        None \<Rightarrow> []
      | Some role \<Rightarrow>
          (case rw_cluster_role w role of
             Inr (Some uid) \<Rightarrow> [(role, unwrap_or uid '''')]
           | Inr None \<Rightarrow> []
           | Inl _ \<Rightarrow> []))"

definition register :: "(string \<Rightarrow> string) \<Rightarrow> register_world \<Rightarrow> webhook_settings \<Rightarrow> tls \<Rightarrow> (string + unit) \<times> webhook_config" where
  "register base64 w s tls =
     (let config = \<lparr> vc_name = ws_config_name s, vc_owners = owners_of w s,
            vc_service = (ws_namespace s, ws_service s, ws_service_port s, WEBHOOK_PATH),
            vc_ca_bundle = base64 (tl_ca_pem tls) \<rparr>
      in case rw_apply w config of
           Inr _ \<Rightarrow> (Inr (), config)
         | Inl e \<Rightarrow> (Inl (''applying ValidatingWebhookConfiguration '' @ ws_config_name s), config))"

text \<open>Unregistering never fails; the result is the warning it logs.\<close>

definition unregister :: "register_world \<Rightarrow> webhook_settings \<Rightarrow> string option" where
  "unregister w s =
     (case rw_delete w (ws_config_name s) of
        Inr _ \<Rightarrow> None
      | Inl (code, text) \<Rightarrow> if code = Some 404 then None else Some text)"

section \<open>What is refused\<close>

lemma preferred_node_problems_eq:
  "preferred_node_problems sel labels_of ps =
     (map pn_name (filter (\<lambda>p. labels_of (pn_name p) = None) ps),
      map pn_name (filter (\<lambda>p. is_some_and (labels_of (pn_name p)) (\<lambda>l. \<not> selector_matches sel l)) ps))"
  by (induction ps) (auto split: option.splits)

lemma review_refuses_iff:
  "isl (review_pool new old labels_of) \<longleftrightarrow>
     (\<exists>p \<in> set (su_preferred_nodes (ps_scale_up new)).
        labels_of (pn_name p) = None \<and> \<not> was_listed old (pn_name p))"
  by (auto simp: review_pool_def preferred_node_problems_eq Let_def filter_empty_conv)

lemma labels_in_found:
  assumes names: "\<forall>n node. nodes n = Some node \<longrightarrow> no_name node = n" and "p \<in> set ps"
  shows "labels_in (filter_map (\<lambda>p. nodes (pn_name p)) ps) (pn_name p) = map_option no_labels (nodes (pn_name p))"
proof (cases "nodes (pn_name p)")
  case None
  then have "find (\<lambda>node. no_name node = pn_name p) (filter_map (\<lambda>p. nodes (pn_name p)) ps) = None"
    unfolding find_None_iff using None names by fastforce
  with None show ?thesis by (simp add: labels_in_def)
next
  case (Some node)
  have "find (\<lambda>node. no_name node = pn_name p) (filter_map (\<lambda>p. nodes (pn_name p)) ps) \<noteq> None"
    unfolding find_None_iff using Some assms by force
  then obtain node' where f: "find (\<lambda>node. no_name node = pn_name p) (filter_map (\<lambda>p. nodes (pn_name p)) ps) = Some node'"
    by blast
  then have "no_name node' = pn_name p" and "node' \<in> set (filter_map (\<lambda>p. nodes (pn_name p)) ps)"
    unfolding find_Some_iff by (metis, metis nth_mem)
  then obtain q where "q \<in> set ps" and "nodes (pn_name q) = Some node'" by auto
  with names have "nodes (pn_name p) = Some node'" using \<open>no_name node' = pn_name p\<close> by metis
  with f Some show ?thesis by (simp add: labels_in_def)
qed

text \<open>C24: The webhook refuses a created or updated pool exactly when one of its preferred nodes names a
  Node that does not exist and that the old pool did not list already; everything else is admitted.\<close>

theorem webhook_refuses_unknown_nodes:
  assumes "\<forall>n node. nodes n = Some node \<longrightarrow> no_name node = n"
  shows "as_allowed (validate_review nodes (Inr req)) \<longleftrightarrow>
    \<not> (aq_operation req \<in> {Op_Create, Op_Update}
      \<and> (\<exists>pool. aq_object req = Some pool
           \<and> (\<exists>p \<in> set (su_preferred_nodes (ps_scale_up pool)).
                nodes (pn_name p) = None \<and> \<not> was_listed (aq_old_object req) (pn_name p))))"
proof (cases "aq_object req")
  case None
  then show ?thesis by (simp add: validate_review_def admitted_def)
next
  case (Some pool)
  let ?ps = "su_preferred_nodes (ps_scale_up pool)"
  let ?review = "review_pool pool (aq_old_object req) (labels_in (filter_map (\<lambda>p. nodes (pn_name p)) ?ps))"
  have "isl ?review \<longleftrightarrow> (\<exists>p \<in> set ?ps. nodes (pn_name p) = None \<and> \<not> was_listed (aq_old_object req) (pn_name p))"
    unfolding review_refuses_iff using labels_in_found [OF assms] by fastforce
  with Some show ?thesis
    by (cases ?review) (auto simp: validate_review_def admitted_def denied_def Let_def)
qed

text \<open>An update that lists no new node is always admitted, even when Nodes are gone.\<close>

lemma same_nodes_admitted:
  assumes "set (map pn_name (su_preferred_nodes (ps_scale_up new))) \<subseteq> set (map pn_name (su_preferred_nodes (ps_scale_up old)))"
  shows "\<not> isl (review_pool new (Some old) labels_of)"
  unfolding review_refuses_iff using assms by (fastforce simp: was_listed_def list_ex_iff)

section \<open>One certificate\<close>

text \<open>A Secret holds a certificate: its three PEM texts, when it expires and for which names it is.\<close>

definition holds_tls :: "time_format \<Rightarrow> tls \<Rightarrow> instant \<Rightarrow> string \<Rightarrow> tls_secret \<Rightarrow> bool" where
  "holds_tls tf tls not_after names sec =
     (case (ts_annotations sec, ts_data sec) of
        (Some notes, Some data) \<Rightarrow>
          bt_get notes NOT_AFTER_ANNOTATION = Some (tf_show tf not_after)
          \<and> bt_get notes DNS_NAMES_ANNOTATION = Some names
          \<and> bt_get data ''ca.crt'' = Some (Some (tl_ca_pem tls))
          \<and> bt_get data ''tls.crt'' = Some (Some (tl_cert_pem tls))
          \<and> bt_get data ''tls.key'' = Some (Some (tl_key_pem tls))
      | _ \<Rightarrow> False)"

text \<open>A write against what was read: a Secret that was there is replaced with its resource version,
  so that the API server refuses when it has changed since; one that was not there is created.\<close>

fun writes_over :: "tls_secret option \<Rightarrow> (tls_secret \<Rightarrow> bool) \<Rightarrow> secret_write \<Rightarrow> bool" where
  "writes_over (Some old) P (ReplaceSecret sec) = (P sec \<and> ts_resource_version sec = ts_resource_version old)"
| "writes_over None P (CreateSecret sec) = (P sec \<and> ts_resource_version sec = None)"
| "writes_over _ P _ = False"

text \<open>What a round that writes has seen: no usable Secret, so it writes the certificate it issued over
  the very version it read.\<close>

definition justified_write :: "time_format \<Rightarrow> tls_world \<Rightarrow> webhook_settings \<Rightarrow> nat \<times> secret_write \<Rightarrow> bool" where
  "justified_write tf w s kw =
     (let names = join '','' (dns_names s) in
      case tw_get w (fst kw) of
        Inl _ \<Rightarrow> False
      | Inr existing \<Rightarrow>
          Option.bind existing (\<lambda>sec. tls_from_secret tf (tw_now w (fst kw)) sec names) = None
          \<and> (case tw_issue w (fst kw) (dns_names s) of
               Inl _ \<Rightarrow> False
             | Inr (tls, not_after) \<Rightarrow> writes_over existing (holds_tls tf tls not_after names) (snd kw)))"

lemma secret_for_holds: "holds_tls tf tls not_after names (secret_for tf tls not_after names version)"
  by (simp add: holds_tls_def secret_for_def bt_get_collect NOT_AFTER_ANNOTATION_def DNS_NAMES_ANNOTATION_def)

lemma write_for_writes_over: "writes_over existing (holds_tls tf tls not_after names) (write_for tf existing tls not_after names)"
  by (cases existing) (simp_all add: write_for_def secret_for_holds, simp_all add: secret_for_def)

lemma justified_writeI:
  "tw_get w k = Inr existing \<Longrightarrow>
   Option.bind existing (\<lambda>sec. tls_from_secret tf (tw_now w k) sec (join '','' (dns_names s))) = None \<Longrightarrow>
   tw_issue w k (dns_names s) = Inr (tls, not_after) \<Longrightarrow>
   justified_write tf w s (k, write_for tf existing tls not_after (join '','' (dns_names s)))"
  by (simp add: justified_write_def write_for_writes_over Let_def)

lemma ensure_rounds_writes:
  "list_all (justified_write tf w s) (snd (ensure_rounds tf w s ks))"
  by (induction ks) (auto simp: Let_def justified_writeI split: sum.splits prod.splits option.splits)

text \<open>Where a certificate comes from: the Secret as read in some round, or a write of that round that
  was accepted.\<close>

definition tls_source :: "time_format \<Rightarrow> tls_world \<Rightarrow> webhook_settings \<Rightarrow> (nat \<times> secret_write) list \<Rightarrow> nat \<Rightarrow> tls \<Rightarrow> bool" where
  "tls_source tf w s log k tls =
     ((\<exists>sec. tw_get w k = Inr (Some sec)
          \<and> tls_from_secret tf (tw_now w k) sec (join '','' (dns_names s)) = Some tls)
      \<or> (\<exists>not_after sw. tw_issue w k (dns_names s) = Inr (tls, not_after) \<and> (k, sw) \<in> set log
          \<and> tw_write w k sw = Inr ()))"

lemma tls_source_Cons: "tls_source tf w s log k tls \<Longrightarrow> tls_source tf w s (e # log) k tls"
  by (auto simp: tls_source_def)

lemma ensure_rounds_source:
  "fst (ensure_rounds tf w s ks) = Inr tls \<Longrightarrow>
     \<exists>k \<in> set ks. tls_source tf w s (snd (ensure_rounds tf w s ks)) k tls"
proof (induction ks)
  case (Cons k ks)
  show ?case
  proof (cases "tw_get w k")
    case (Inl e)
    with Cons(2) show ?thesis by simp
  next
    case get: (Inr existing)
    let ?names = "join '','' (dns_names s)"
    show ?thesis
    proof (cases "Option.bind existing (\<lambda>sec. tls_from_secret tf (tw_now w k) sec ?names)")
      case (Some t)
      then show ?thesis using get Cons(2) by (auto simp: tls_source_def bind_eq_Some_conv Let_def)
    next
      case none: None
      show ?thesis
      proof (cases "tw_issue w k (dns_names s)")
        case (Inl e)
        with get none Cons(2) show ?thesis by (simp add: Let_def)
      next
        case (Inr r)
        obtain t not_after where r: "r = (t, not_after)" by (cases r)
        let ?sw = "write_for tf existing t not_after ?names"
        show ?thesis
        proof (cases "tw_write w k ?sw")
          case ok: (Inr u)
          then have "t = tls" using get none Inr r Cons(2) by (simp add: Let_def)
          with get none Inr r ok show ?thesis
            by (auto simp: tls_source_def Let_def)
        next
          case err: (Inl e)
          obtain code msg where e: "e = (code, msg)" by (cases e)
          have "code = Some 409" using get none Inr r err e Cons(2) by (simp add: Let_def split: if_splits)
          then have "ensure_rounds tf w s (k # ks) =
              (fst (ensure_rounds tf w s ks), (k, ?sw) # snd (ensure_rounds tf w s ks))"
            using get none Inr r err e by (simp add: Let_def split_beta)
          with Cons show ?thesis by (auto intro: tls_source_Cons)
        qed
      qed
    qed
  qed
qed simp


text \<open>What is stored is read back: a certificate written with its expiry and names is found valid
  again by every start up to thirty days before it expires.\<close>

theorem stored_tls_read_back:
  assumes "tf_parse tf (tf_show tf not_after) = Some not_after" and "now + days 30 \<le> not_after"
  shows "tls_from_secret tf now (secret_for tf tls not_after names version) names = Some tls"
  using assms
  by (simp add: tls_from_secret_def secret_for_def bt_get_collect NOT_AFTER_ANNOTATION_def DNS_NAMES_ANNOTATION_def)

section \<open>Concrete runs\<close>

definition sample_settings :: webhook_settings where
  "sample_settings = \<lparr> ws_namespace = ''ns'', ws_service = ''svc'', ws_service_port = 443, ws_secret = ''tls'',
     ws_config_name = ''kha'', ws_owner_cluster_role = None \<rparr>"

definition sample_tls :: tls where
  "sample_tls = \<lparr> tl_ca_pem = ''ca'', tl_cert_pem = ''crt'', tl_key_pem = ''key'' \<rparr>"

text \<open>A time format for whole days after the epoch, written in tally marks.\<close>

definition sample_format :: time_format where
  "sample_format = \<lparr> tf_parse = (\<lambda>s. Some (days (int (length s)))),
     tf_show = (\<lambda>t. replicate (nat (t div days 1)) (CHR ''I'')) \<rparr>"

text \<open>Another replica writes first: the first write conflicts, and its Secret is read in the second round.\<close>

definition sample_tls_world :: tls_world where
  "sample_tls_world = \<lparr> tw_now = (\<lambda>_. 0),
     tw_get = (\<lambda>k. if k = 0 then Inr None
       else Inr (Some (secret_for sample_format sample_tls (days 40) (join '','' (dns_names sample_settings)) (Some ''1'')))),
     tw_issue = (\<lambda>_ _. Inr (\<lparr> tl_ca_pem = ''x'', tl_cert_pem = ''x'', tl_key_pem = ''x'' \<rparr>, days 50)),
     tw_write = (\<lambda>_ _. Inl (Some 409, ''exists'')) \<rparr>"

lemma sample_format_roundtrip: "tf_parse sample_format (tf_show sample_format (days 40)) = Some (days 40)"
  by (simp add: sample_format_def days_def secs_def)

lemma stored_tls_read_back_witness:
  "tls_from_secret sample_format (days 3) (secret_for sample_format sample_tls (days 40) ''a,b'' None) ''a,b''
   = Some sample_tls"
  by (rule stored_tls_read_back [OF sample_format_roundtrip]) (simp add: days_def secs_def)

lemma sample_read:
  "tls_from_secret sample_format 0
     (secret_for sample_format sample_tls (days 40) names (Some ''1'')) names = Some sample_tls"
proof -
  have "\<not> days 40 < 0 + days 30" by (simp add: days_def secs_def)
  then show ?thesis
    by (simp add: tls_from_secret_def secret_for_def bt_get_collect NOT_AFTER_ANNOTATION_def
        DNS_NAMES_ANNOTATION_def sample_format_roundtrip)
qed

lemma sample_ensure: "fst (ensure_tls sample_format sample_tls_world sample_settings) = Inr sample_tls"
proof -
  have "[0..<3] = [0, 1, 2 :: nat]" by (simp add: upt_rec)
  then show ?thesis by (simp add: ensure_tls_def sample_tls_world_def sample_read Let_def)
qed


definition pool_preferring :: "string list \<Rightarrow> pool_spec" where
  "pool_preferring names = sample_pool_spec\<lparr> ps_scale_up :=
     default_scale_up_spec\<lparr> su_preferred_nodes := map (\<lambda>n. \<lparr> pn_name = n, pn_weight = 1 \<rparr>) names \<rparr> \<rparr>"

definition only_node_a :: "string \<Rightarrow> knode option" where
  "only_node_a n = (if n = ''a'' then Some (empty_node\<lparr> no_name := ''a'' \<rparr>) else None)"

lemma webhook_refuses_unknown_nodes_witness:
  "\<not> as_allowed (validate_review only_node_a (Inr \<lparr> aq_operation = Op_Update,
       aq_object = Some (pool_preferring [''a'', ''typo'']), aq_old_object = Some (pool_preferring [''a'']) \<rparr>))
   \<and> as_allowed (validate_review only_node_a (Inr \<lparr> aq_operation = Op_Update,
       aq_object = Some (pool_preferring [''a'', ''gone'']), aq_old_object = Some (pool_preferring [''gone'']) \<rparr>))"
proof -
  have names: "\<forall>n node. only_node_a n = Some node \<longrightarrow> no_name node = n"
    by (auto simp: only_node_a_def split: if_splits)
  show ?thesis
    unfolding webhook_refuses_unknown_nodes [OF names]
    by (simp add: pool_preferring_def only_node_a_def was_listed_def)
qed

end
