(* ===== verification/Http.thy ===== *)
theory Http
  imports Chain Net
begin

text \<open>
  What the drivers that speak HTTP share: \<^verbatim>\<open>serde_json::Value\<close> accessors, responses as the HTTP
  client reports them, and the pieces of \<^verbatim>\<open>drivers/mod.rs\<close> they are built with.  Sending a request
  is a parameter of each driver; the requests sent are returned in order.
\<close>

section \<open>JSON accessors\<close>

text \<open>Indexing a value that is not an object, or a missing key, gives \<^verbatim>\<open>Null\<close>.\<close>

definition json_at :: "json \<Rightarrow> string \<Rightarrow> json" where
  "json_at v k = unwrap_or (json_get v k) JNull"

fun json_as_bool :: "json \<Rightarrow> bool option" where
  "json_as_bool (JBool b) = Some b"
| "json_as_bool _ = None"

fun json_as_array :: "json \<Rightarrow> json list option" where
  "json_as_array (JArr xs) = Some xs"
| "json_as_array _ = None"

text \<open>\<^verbatim>\<open>as_i64\<close>.\<close>

fun json_as_i64 :: "json \<Rightarrow> int option" where
  "json_as_i64 (JNum n) = (if in_i64 n then Some n else None)"
| "json_as_i64 _ = None"

section \<open>Requests and responses\<close>

record http_response =
  hr_status :: nat
  hr_reason :: string
  hr_text :: string
  hr_json :: "string + json"
  hr_set_cookie :: "string list"

definition is_success :: "http_response \<Rightarrow> bool" where
  "is_success r = (200 \<le> hr_status r \<and> hr_status r < 300)"

text \<open>How a status is printed.\<close>

definition show_status :: "http_response \<Rightarrow> string" where
  "show_status r = show_nat (hr_status r) @ '' '' @ hr_reason r"

text \<open>\<^verbatim>\<open>resp.json().await.unwrap_or(Value::Null)\<close>.\<close>

definition body_or_null :: "http_response \<Rightarrow> json" where
  "body_or_null r = (case hr_json r of Inr v \<Rightarrow> v | Inl _ \<Rightarrow> JNull)"

datatype http_method = GET | POST

text \<open>How a request identifies its sender: not at all, by basic authentication, or by the two headers
  of a PiKVM.\<close>

datatype http_auth = Anonymous | Basic_auth string string | Kvmd_headers string string

record http_request =
  hq_method :: http_method
  hq_url :: string
  hq_json :: "json option"
  hq_token :: "string option"
  hq_auth :: http_auth

definition request :: "http_method \<Rightarrow> string \<Rightarrow> json option \<Rightarrow> http_request" where
  "request method url body =
     \<lparr> hq_method = method, hq_url = url, hq_json = body, hq_token = None, hq_auth = Anonymous \<rparr>"

text \<open>The device: its answer to each request of an operation, which may depend on the requests before
  it, and how JSON is printed.\<close>

record http_world =
  hw_send :: "http_request list \<Rightarrow> http_request \<Rightarrow> string + http_response"
  hw_show :: "json \<Rightarrow> string"

definition send :: "http_world \<Rightarrow> http_request list \<Rightarrow> http_request \<Rightarrow> (string + http_response) \<times> http_request list" where
  "send w log q =
     ((case hw_send w log q of Inl e \<Rightarrow> Inl (error_http e) | Inr r \<Rightarrow> Inr r), log @ [q])"

lemma send_log [simp]: "snd (send w log q) = log @ [q]"
  by (simp add: send_def)

section \<open>Building\<close>

definition init_credentials :: "credentials option \<Rightarrow> string + credentials" where
  "init_credentials c =
     (case c of Some c \<Rightarrow> Inr c | None \<Rightarrow> Inl (error_config ''credentialsSecretRef is required for this driver''))"

text \<open>Requests that turn a machine on or off, or press its power button.\<close>

definition posts :: "http_request list \<Rightarrow> http_request list" where
  "posts log = filter (\<lambda>q. hq_method q = POST) log"

lemma posts_append [simp]: "posts (a @ b) = posts a @ posts b"
  by (simp add: posts_def)

lemma posts_Nil [simp]: "posts [] = []"
  by (simp add: posts_def)

end
