(* ===== verification/Redfish.thy ===== *)
theory Redfish
  imports Http
begin

text \<open>
  \<^verbatim>\<open>drivers/redfish.rs\<close>: power control through a BMC's Redfish service.  The cell that remembers the
  path of the system is the field \<^verbatim>\<open>rd_system_path\<close>; every operation returns its result, the
  driver with that cell possibly filled, and the requests sent.
\<close>

record redfish_config =
  rx_endpoint :: string
  rx_system_id :: "string option"
  rx_insecure_skip_verify :: bool

record redfish =
  rd_base :: string
  rd_system_id :: "string option"
  rd_creds :: credentials
  rd_system_path :: "string option"

definition build_redfish :: "(bool \<Rightarrow> string + unit) \<Rightarrow> redfish_config \<Rightarrow> credentials option \<Rightarrow> string + redfish" where
  "build_redfish http_client config creds =
     (case base_url (rx_endpoint config) of
        Inl e \<Rightarrow> Inl e
      | Inr base \<Rightarrow>
          (case init_credentials creds of
             Inl e \<Rightarrow> Inl e
           | Inr c \<Rightarrow>
               (case http_client (rx_insecure_skip_verify config) of
                  Inl e \<Rightarrow> Inl (error_http e)
                | Inr _ \<Rightarrow> Inr \<lparr> rd_base = base, rd_system_id = rx_system_id config, rd_creds = c,
                             rd_system_path = None \<rparr>)))"

text \<open>Every request carries the credentials.\<close>

definition redfish_request :: "redfish \<Rightarrow> http_method \<Rightarrow> string \<Rightarrow> json option \<Rightarrow> http_request" where
  "redfish_request d method path body = (request method (rd_base d @ path) body)
     \<lparr> hq_auth := Basic_auth (cd_username (rd_creds d)) (cd_password (rd_creds d)) \<rparr>"

definition redfish_get :: "http_world \<Rightarrow> redfish \<Rightarrow> string \<Rightarrow> http_request list \<Rightarrow> (string + json) \<times> http_request list" where
  "redfish_get w d path log =
     (case send w log (redfish_request d GET path None) of
        (Inl e, log) \<Rightarrow> (Inl e, log)
      | (Inr resp, log) \<Rightarrow>
          if \<not> is_success resp then
            (Inl (error_interface (''GET '' @ path @ '' returned '' @ show_status resp @ '': '' @ hr_text resp)), log)
          else ((case hr_json resp of Inl e \<Rightarrow> Inl (error_http e) | Inr v \<Rightarrow> Inr v), log))"

definition first_member :: "json \<Rightarrow> string option" where
  "first_member collection =
     (case json_as_array (json_at collection ''Members'') of
        Some (x # _) \<Rightarrow> json_as_str (json_at x ''@odata.id'')
      | _ \<Rightarrow> None)"

definition reset_target :: "json \<Rightarrow> string option" where
  "reset_target system = json_as_str (json_at (json_at (json_at system ''Actions'') ''#ComputerSystem.Reset'') ''target'')"

definition redfish_system_path ::
    "http_world \<Rightarrow> redfish \<Rightarrow> (string + string) \<times> redfish \<times> http_request list" where
  "redfish_system_path w d =
     (case rd_system_path d of
        Some path \<Rightarrow> (Inr path, d, [])
      | None \<Rightarrow>
          (case rd_system_id d of
             Some ident \<Rightarrow>
               (let path = ''/redfish/v1/Systems/'' @ ident in
                (Inr path, d\<lparr> rd_system_path := Some path \<rparr>, []))
           | None \<Rightarrow>
               (case redfish_get w d ''/redfish/v1/Systems'' [] of
                  (Inl e, log) \<Rightarrow> (Inl e, d, log)
                | (Inr systems, log) \<Rightarrow>
                    (case first_member systems of
                       None \<Rightarrow> (Inl (error_interface ''no ComputerSystem found at /redfish/v1/Systems''), d, log)
                     | Some path \<Rightarrow> (Inr path, d\<lparr> rd_system_path := Some path \<rparr>, log)))))"

text \<open>Reading the system, as every operation does first.\<close>

definition redfish_system ::
    "http_world \<Rightarrow> redfish \<Rightarrow> (string + string \<times> json) \<times> redfish \<times> http_request list" where
  "redfish_system w d =
     (case redfish_system_path w d of
        (Inl e, d, log) \<Rightarrow> (Inl e, d, log)
      | (Inr system, d, log) \<Rightarrow>
          (case redfish_get w d system log of
             (Inl e, log) \<Rightarrow> (Inl e, d, log)
           | (Inr sys, log) \<Rightarrow> (Inr (system, sys), d, log)))"

definition redfish_reset ::
    "http_world \<Rightarrow> redfish \<Rightarrow> string \<Rightarrow> (string + unit) \<times> redfish \<times> http_request list" where
  "redfish_reset w d reset_type =
     (case redfish_system w d of
        (Inl e, d, log) \<Rightarrow> (Inl e, d, log)
      | (Inr (system, sys), d, log) \<Rightarrow>
          (let target = unwrap_or (reset_target sys) (system @ ''/Actions/ComputerSystem.Reset'') in
           case send w log (redfish_request d POST target (Some (JObj [(''ResetType'', JStr reset_type)]))) of
             (Inl e, log) \<Rightarrow> (Inl e, d, log)
           | (Inr resp, log) \<Rightarrow>
               if \<not> is_success resp then
                 (Inl (error_interface (''reset '' @ reset_type @ '' returned '' @ show_status resp @ '': ''
                    @ hr_text resp)), d, log)
               else (Inr (), d, log)))"

definition redfish_parse_power_state :: "json \<Rightarrow> power_state" where
  "redfish_parse_power_state system =
     (case json_as_str (json_at system ''PowerState'') of
        Some s \<Rightarrow>
          if s \<in> {''On'', ''PoweringOn'', ''PoweringOff''} then PS_On
          else if s = ''Off'' then PS_Off
          else PS_Unknown
      | None \<Rightarrow> PS_Unknown)"

definition redfish_power_state :: "http_world \<Rightarrow> redfish \<Rightarrow> (string + power_state) \<times> redfish \<times> http_request list" where
  "redfish_power_state w d =
     (case redfish_system w d of
        (Inl e, d, log) \<Rightarrow> (Inl e, d, log)
      | (Inr (system, sys), d, log) \<Rightarrow>
          ((case redfish_parse_power_state sys of
              PS_Unknown \<Rightarrow> Inl (error_interface (''unexpected PowerState: '' @ hw_show w (json_at sys ''PowerState'')))
            | s \<Rightarrow> Inr s), d, log))"

definition redfish_system_id ::
    "http_world \<Rightarrow> redfish \<Rightarrow> (string + system_id option) \<times> redfish \<times> http_request list" where
  "redfish_system_id w d =
     (case redfish_system w d of
        (Inl e, d, log) \<Rightarrow> (Inl e, d, log)
      | (Inr (system, sys), d, log) \<Rightarrow> (Inr (map_option Uuid (json_as_str (json_at sys ''UUID''))), d, log))"

definition redfish_power_on :: "http_world \<Rightarrow> redfish \<Rightarrow> (string + unit) \<times> redfish \<times> http_request list" where
  "redfish_power_on w d = redfish_reset w d ''On''"

definition redfish_power_off :: "http_world \<Rightarrow> redfish \<Rightarrow> bool \<Rightarrow> (string + unit) \<times> redfish \<times> http_request list" where
  "redfish_power_off w d force = redfish_reset w d (if force then ''ForceOff'' else ''GracefulShutdown'')"

section \<open>What is sent\<close>

lemma redfish_request_path [simp]: "redfish_request (d\<lparr> rd_system_path := p \<rparr>) = redfish_request d"
  by (simp add: redfish_request_def fun_eq_iff)

lemma redfish_get_log: "redfish_get w d path log = (r, log') \<Longrightarrow> log' = log @ [redfish_request d GET path None]"
  by (auto simp: redfish_get_def send_def split: sum.splits if_splits)

lemma redfish_system_path_log:
  "redfish_system_path w d = (r, d', log) \<Longrightarrow>
     posts log = [] \<and> rd_base d' = rd_base d \<and> rd_creds d' = rd_creds d \<and> rd_system_id d' = rd_system_id d
     \<and> (case r of Inr path \<Rightarrow> rd_system_path d' = Some path | Inl _ \<Rightarrow> d' = d)"
  by (auto simp: redfish_system_path_def posts_def redfish_request_def request_def Let_def
      split: option.splits sum.splits prod.splits dest!: redfish_get_log)

lemma redfish_system_log:
  assumes "redfish_system w d = (r, d', log)"
  shows "posts log = [] \<and> rd_base d' = rd_base d \<and> rd_creds d' = rd_creds d
    \<and> (case r of Inr (path, sys) \<Rightarrow> rd_system_path d' = Some path | Inl _ \<Rightarrow> True)"
proof -
  obtain p d1 log1 where path: "redfish_system_path w d = (p, d1, log1)" by (rule prod_cases3)
  show ?thesis
    using assms redfish_system_path_log [OF path]
    by (cases p) (auto simp: redfish_system_def path posts_def redfish_request_def request_def split: sum.splits prod.splits
        dest!: redfish_get_log)
qed

text \<open>C30: A reset of a Redfish machine posts at most once, after its system was read, to the reset action
  that the system names (or to the standard one), with the requested reset type and the driver's
  credentials; the path of the
  system is then remembered, and the operation succeeds exactly when the BMC accepted the post.\<close>

theorem redfish_resets_the_system_read:
  assumes "redfish_reset w d reset_type = (r, d', log)"
  shows "posts log = [] \<and> isl r \<and> isl (fst (redfish_system w d))
    \<or> (\<exists>path sys q. fst (redfish_system w d) = Inr (path, sys) \<and> rd_system_path d' = Some path
         \<and> q = redfish_request d POST (unwrap_or (reset_target sys) (path @ ''/Actions/ComputerSystem.Reset''))
                 (Some (JObj [(''ResetType'', JStr reset_type)]))
         \<and> posts log = [q]
         \<and> (r = Inr () \<longleftrightarrow> (\<exists>resp. hw_send w (snd (snd (redfish_system w d))) q = Inr resp \<and> is_success resp)))"
proof -
  obtain s d1 log1 where sys: "redfish_system w d = (s, d1, log1)" by (rule prod_cases3)
  note log1 = redfish_system_log [OF sys]
  show ?thesis
  proof (cases s)
    case (Inl e)
    then show ?thesis using assms log1 by (auto simp: redfish_reset_def sys)
  next
    case (Inr ps)
    obtain path v where ps: "ps = (path, v)" by (cases ps)
    show ?thesis
      using assms log1
      by (auto simp: redfish_reset_def sys Inr ps send_def posts_def redfish_request_def request_def Let_def
          split: sum.splits if_splits)
  qed
qed

text \<open>A configured system id is never looked up: only that system is read.\<close>

lemma redfish_configured_system:
  assumes "rd_system_id d = Some ident" and "rd_system_path d = None"
  shows "snd (snd (redfish_system w d)) = [redfish_request d GET (''/redfish/v1/Systems/'' @ ident) None]"
  using assms by (auto simp: redfish_system_def redfish_system_path_def Let_def split: prod.splits sum.splits
      dest!: redfish_get_log)

definition sample_redfish :: redfish where
  "sample_redfish = \<lparr> rd_base = ''https://bmc'', rd_system_id = None,
     rd_creds = \<lparr> cd_username = ''u'', cd_password = ''p'', cd_extra = [] \<rparr>, rd_system_path = None \<rparr>"

text \<open>A BMC with one system that names its reset action.\<close>

definition sample_bmc :: http_world where
  "sample_bmc = \<lparr> hw_send = (\<lambda>log q. Inr \<lparr> hr_status = 200, hr_reason = ''OK'', hr_text = '''',
       hr_json = Inr (if log = []
         then JObj [(''Members'', JArr [JObj [(''@odata.id'', JStr ''/s/1'')]])]
         else JObj [(''Actions'', JObj [(''#ComputerSystem.Reset'', JObj [(''target'', JStr ''/reset'')])]),
                    (''PowerState'', JStr ''On'')]),
       hr_set_cookie = [] \<rparr>), hw_show = (\<lambda>_. ''json'') \<rparr>"

lemma sample_reset:
  "redfish_reset sample_bmc sample_redfish ''ForceOff'' =
     (Inr (), sample_redfish\<lparr> rd_system_path := Some ''/s/1'' \<rparr>,
      [redfish_request sample_redfish GET ''/redfish/v1/Systems'' None, redfish_request sample_redfish GET ''/s/1'' None,
       redfish_request sample_redfish POST ''/reset'' (Some (JObj [(''ResetType'', JStr ''ForceOff'')]))])"
  by (simp add: redfish_reset_def redfish_system_def redfish_system_path_def redfish_get_def send_def
      sample_bmc_def sample_redfish_def is_success_def first_member_def reset_target_def json_at_def redfish_request_def)

lemma redfish_resets_the_system_read_witness:
  "posts [redfish_request sample_redfish GET ''/redfish/v1/Systems'' None, redfish_request sample_redfish GET ''/s/1'' None,
     redfish_request sample_redfish POST ''/reset'' (Some (JObj [(''ResetType'', JStr ''ForceOff'')]))]
   = [redfish_request sample_redfish POST ''/reset'' (Some (JObj [(''ResetType'', JStr ''ForceOff'')]))]
   \<and> (\<exists>path sys. fst (redfish_system sample_bmc sample_redfish) = Inr (path, sys))"
  using redfish_resets_the_system_read [OF sample_reset] by (auto simp: posts_def redfish_request_def request_def)

end
