(* ===== verification/Pikvm.thy ===== *)
theory Pikvm
  imports Http
begin

text \<open>
  \<^verbatim>\<open>drivers/pikvm.rs\<close>: the ATX power control of a PiKVM.  It has no state of its own.
\<close>

record pikvm_config =
  px_endpoint :: string
  px_insecure_skip_verify :: bool

record pikvm =
  pk_base :: string
  pk_creds :: credentials

definition build_pikvm :: "(bool \<Rightarrow> string + unit) \<Rightarrow> pikvm_config \<Rightarrow> credentials option \<Rightarrow> string + pikvm" where
  "build_pikvm http_client config creds =
     (case base_url (px_endpoint config) of
        Inl e \<Rightarrow> Inl e
      | Inr base \<Rightarrow>
          (case init_credentials creds of
             Inl e \<Rightarrow> Inl e
           | Inr c \<Rightarrow>
               (case http_client (px_insecure_skip_verify config) of
                  Inl e \<Rightarrow> Inl (error_http e)
                | Inr _ \<Rightarrow> Inr \<lparr> pk_base = base, pk_creds = c \<rparr>)))"

definition pikvm_request :: "pikvm \<Rightarrow> http_method \<Rightarrow> string \<Rightarrow> http_request" where
  "pikvm_request d method path = (request method (pk_base d @ path) None)
     \<lparr> hq_auth := Kvmd_headers (cd_username (pk_creds d)) (cd_password (pk_creds d)) \<rparr>"

definition pikvm_send :: "http_world \<Rightarrow> http_request \<Rightarrow> string \<Rightarrow> (string + json) \<times> http_request list" where
  "pikvm_send w q what =
     (case send w [] q of
        (Inl e, log) \<Rightarrow> (Inl e, log)
      | (Inr resp, log) \<Rightarrow>
          (let body = body_or_null resp in
           (if \<not> is_success resp \<or> json_at body ''ok'' \<noteq> JBool True then
              Inl (error_interface (what @ '' returned '' @ show_status resp @ '': '' @ hw_show w body))
            else Inr body, log)))"

definition pikvm_action :: "http_world \<Rightarrow> pikvm \<Rightarrow> string \<Rightarrow> (string + unit) \<times> http_request list" where
  "pikvm_action w d action =
     (case pikvm_send w (pikvm_request d POST (''/api/atx/power?action='' @ action))
             (''atx power '' @ action) of
        (Inl e, log) \<Rightarrow> (Inl e, log)
      | (Inr _, log) \<Rightarrow> (Inr (), log))"

definition parse_atx :: "json \<Rightarrow> power_state" where
  "parse_atx body =
     (case json_as_bool (json_at (json_at (json_at body ''result'') ''leds'') ''power'') of
        Some True \<Rightarrow> PS_On
      | Some False \<Rightarrow> PS_Off
      | None \<Rightarrow> PS_Unknown)"

definition pikvm_power_state :: "http_world \<Rightarrow> pikvm \<Rightarrow> (string + power_state) \<times> http_request list" where
  "pikvm_power_state w d =
     (case pikvm_send w (pikvm_request d GET ''/api/atx'') ''atx state'' of
        (Inl e, log) \<Rightarrow> (Inl e, log)
      | (Inr body, log) \<Rightarrow>
          ((case parse_atx body of
              PS_Unknown \<Rightarrow> Inl (error_interface (''unexpected atx state: '' @ hw_show w body))
            | s \<Rightarrow> Inr s), log))"

definition pikvm_power_on :: "http_world \<Rightarrow> pikvm \<Rightarrow> (string + unit) \<times> http_request list" where
  "pikvm_power_on w d = pikvm_action w d ''on''"

definition pikvm_power_off :: "http_world \<Rightarrow> pikvm \<Rightarrow> bool \<Rightarrow> (string + unit) \<times> http_request list" where
  "pikvm_power_off w d force = pikvm_action w d (if force then ''off_hard'' else ''off'')"

text \<open>An operation is one request, with the credentials of the driver.\<close>

lemma pikvm_requests:
  "snd (pikvm_power_state w d) = [pikvm_request d GET ''/api/atx'']"
  "snd (pikvm_power_on w d) = [pikvm_request d POST ''/api/atx/power?action=on'']"
  "snd (pikvm_power_off w d force)
     = [pikvm_request d POST (''/api/atx/power?action='' @ (if force then ''off_hard'' else ''off''))]"
proof -
  have s: "snd (pikvm_send w q what) = [q]" for q what
    by (simp add: pikvm_send_def send_def Let_def split: sum.split)
  have a: "snd (pikvm_action w d action) = [pikvm_request d POST (''/api/atx/power?action='' @ action)]" for action
    using s by (simp add: pikvm_action_def split: prod.split sum.split) (metis snd_conv)
  show "snd (pikvm_power_state w d) = [pikvm_request d GET ''/api/atx'']"
    using s by (simp add: pikvm_power_state_def split: prod.split sum.split) (metis snd_conv)
  show "snd (pikvm_power_on w d) = [pikvm_request d POST ''/api/atx/power?action=on'']"
    using a [of "''on''"] by (simp add: pikvm_power_on_def)
  show "snd (pikvm_power_off w d force)
     = [pikvm_request d POST (''/api/atx/power?action='' @ (if force then ''off_hard'' else ''off''))]"
    by (simp add: pikvm_power_off_def a)
qed

end
