(* ===== verification/Power_Button.thy ===== *)
theory Power_Button
  imports Prelude
begin

text \<open>
  The contract of the drivers that work a toggling power button: pressing it on a machine already in
  the wanted state would undo what was asked for.  \<^verbatim>\<open>reads_on\<close> is the state the driver read during
  the operation, \<^verbatim>\<open>None\<close> when it could not; \<^verbatim>\<open>presses\<close> is what it sent to the button when the
  machine was wanted on (\<^verbatim>\<open>True\<close>) or off (\<^verbatim>\<open>False\<close>).
\<close>

locale power_button =
  fixes reads_on :: "'w \<Rightarrow> 'd \<Rightarrow> bool option"
    and presses :: "'w \<Rightarrow> 'd \<Rightarrow> bool \<Rightarrow> 'p list"
  assumes press_only_to_change: "presses w d wanted \<noteq> [] \<Longrightarrow> reads_on w d = Some (\<not> wanted)"
begin

lemma no_press_when_there: "reads_on w d = Some wanted \<Longrightarrow> presses w d wanted = []"
  using press_only_to_change [of w d wanted] by auto

lemma no_press_when_unknown: "reads_on w d = None \<Longrightarrow> presses w d wanted = []"
  using press_only_to_change [of w d wanted] by auto

text \<open>In the same situation at most one of the two operations touches the button.\<close>

lemma one_direction: "presses w d True = [] \<or> presses w d False = []"
  by (metis press_only_to_change option.inject)

end

end
