(* ===== verification/Nanokvm.thy ===== *)
theory Nanokvm
  imports Http Power_Button
begin

text \<open>
  \<^verbatim>\<open>drivers/nanokvm.rs\<close>: the web API of a Sipeed NanoKVM.  MD5, AES and base64 come from other
  crates and are the record \<^verbatim>\<open>ciphers\<close>; a digest is a 128-bit word, so it has 16 bytes.  The
  cached session token is a field of the driver, which every operation returns updated.
\<close>

section \<open>The password\<close>

record ciphers =
  ck_md5 :: "byte list \<Rightarrow> 128 word"
  ck_aes256_cbc :: "byte list \<Rightarrow> byte list \<Rightarrow> byte list \<Rightarrow> byte list"
  ck_base64 :: "byte list \<Rightarrow> string"

definition digest_bytes :: "128 word \<Rightarrow> byte list" where
  "digest_bytes w = map (\<lambda>i. of_nat (unat w div 256 ^ i mod 256)) (rev [0..<16])"

lemma length_digest_bytes [simp]: "length (digest_bytes w) = 16"
  by (simp add: digest_bytes_def)

definition bytes_of :: "string \<Rightarrow> byte list" where
  "bytes_of s = map (\<lambda>c. of_nat (of_char c)) s"

definition NANOKVM_PASSPHRASE :: "byte list" where
  "NANOKVM_PASSPHRASE = bytes_of ''nanokvm-sipeed-2024''"

definition TOKEN_COOKIE :: string where
  "TOKEN_COOKIE = ''nano-kvm-token''"

function derive_material ::
    "(byte list \<Rightarrow> 128 word) \<Rightarrow> byte list \<Rightarrow> byte list \<Rightarrow> byte list \<Rightarrow> byte list \<Rightarrow> byte list" where
  "derive_material md5 passphrase salt prev material =
     (if length material < 48 then
        (let prev = digest_bytes (md5 (prev @ passphrase @ salt)) in
         derive_material md5 passphrase salt prev (material @ prev))
      else material)"
  by pat_completeness auto
termination
  by (relation "measure (\<lambda>(md5, passphrase, salt, prev, material). 48 - length material)") auto

declare derive_material.simps [simp del]

definition derive_key_iv :: "(byte list \<Rightarrow> 128 word) \<Rightarrow> byte list \<Rightarrow> byte list \<Rightarrow> byte list \<times> byte list" where
  "derive_key_iv md5 passphrase salt =
     (let material = derive_material md5 passphrase salt [] [] in
      (take 32 material, take 16 (drop 32 material)))"

definition encrypt_raw :: "ciphers \<Rightarrow> byte list \<Rightarrow> byte list \<Rightarrow> byte list" where
  "encrypt_raw ck plain salt =
     (case derive_key_iv (ck_md5 ck) NANOKVM_PASSPHRASE salt of
        (key, iv) \<Rightarrow> ck_aes256_cbc ck key iv plain)"

definition unreserved :: "char \<Rightarrow> bool" where
  "unreserved c = (let n = of_char c :: nat in
     65 \<le> n \<and> n \<le> 90 \<or> 97 \<le> n \<and> n \<le> 122 \<or> 48 \<le> n \<and> n \<le> 57
     \<or> c \<in> {CHR ''-'', CHR ''_'', CHR ''.'', CHR ''~''})"

definition hex_upper_digit :: "nat \<Rightarrow> char" where
  "hex_upper_digit n = (if n < 10 then char_of (48 + n) else char_of (55 + n))"

definition url_encode :: "string \<Rightarrow> string" where
  "url_encode s = concat (map (\<lambda>c.
     if unreserved c then [c]
     else [CHR ''%'', hex_upper_digit (of_char c div 16), hex_upper_digit (of_char c mod 16)]) s)"

definition encrypt_password :: "ciphers \<Rightarrow> string \<Rightarrow> byte list \<Rightarrow> string" where
  "encrypt_password ck password salt =
     url_encode (ck_base64 ck (bytes_of ''Salted__'' @ salt @ encrypt_raw ck (bytes_of password) salt))"

section \<open>Sessions\<close>

record nanokvm_config =
  nx_endpoint :: string
  nx_insecure_skip_verify :: bool
  nx_short_press_ms :: nat
  nx_long_press_ms :: nat

definition default_nanokvm_config :: "string \<Rightarrow> nanokvm_config" where
  "default_nanokvm_config endpoint = \<lparr> nx_endpoint = endpoint, nx_insecure_skip_verify = False,
     nx_short_press_ms = 800, nx_long_press_ms = 6000 \<rparr>"

record nanokvm =
  nk_base :: string
  nk_config :: nanokvm_config
  nk_creds :: credentials
  nk_token :: "string option"

definition build_nanokvm :: "(bool \<Rightarrow> string + unit) \<Rightarrow> nanokvm_config \<Rightarrow> credentials option \<Rightarrow> string + nanokvm" where
  "build_nanokvm http_client config creds =
     (case base_url (nx_endpoint config) of
        Inl e \<Rightarrow> Inl e
      | Inr base \<Rightarrow>
          (case http_client (nx_insecure_skip_verify config) of
             Inl e \<Rightarrow> Inl (error_http e)
           | Inr _ \<Rightarrow>
               (case init_credentials creds of
                  Inl e \<Rightarrow> Inl e
                | Inr c \<Rightarrow> Inr \<lparr> nk_base = base, nk_config = config, nk_creds = c, nk_token = None \<rparr>)))"

definition cookie_token :: "string \<Rightarrow> string option" where
  "cookie_token c =
     (case split_once (CHR ''='') (trim (hd (split_char (CHR '';'') c))) of
        Some (name, v) \<Rightarrow> if name = TOKEN_COOKIE \<and> v \<noteq> [] then Some v else None
      | None \<Rightarrow> None)"

definition token_from_set_cookie :: "string list \<Rightarrow> string option" where
  "token_from_set_cookie cookies =
     (case filter_map cookie_token cookies of [] \<Rightarrow> None | t # _ \<Rightarrow> Some t)"

definition envelope :: "(json \<Rightarrow> string) \<Rightarrow> json \<Rightarrow> string \<Rightarrow> string + json" where
  "envelope show_json body what =
     (case json_as_i64 (json_at body ''code'') of
        Some code \<Rightarrow>
          if code = 0 then Inr (json_at body ''data'')
          else Inl (error_interface (what @ '': NanoKVM returned code '' @ show_int code @ '': ''
                 @ unwrap_or (json_as_str (json_at body ''msg'')) ''''))
      | None \<Rightarrow> Inl (error_interface (what @ '': unexpected response '' @ show_json body)))"

text \<open>The device, the ciphers and the random salts, which may differ from login to login.\<close>

record nano_world =
  nw_http :: http_world
  nw_ciphers :: ciphers
  nw_salt :: "http_request list \<Rightarrow> string + byte list"

type_synonym 'a nano_result = "(string + 'a) \<times> nanokvm \<times> http_request list"

definition nano_login :: "nano_world \<Rightarrow> nanokvm \<Rightarrow> http_request list \<Rightarrow> (string + string option) \<times> http_request list" where
  "nano_login w d log =
     (case nw_salt w log of
        Inl e \<Rightarrow> (Inl (error_interface (''random salt: '' @ e)), log)
      | Inr salt \<Rightarrow>
          (case send (nw_http w) log (request POST (nk_base d @ ''/api/auth/login'')
                  (Some (JObj [(''password'', JStr (encrypt_password (nw_ciphers w) (cd_password (nk_creds d)) salt)),
                               (''username'', JStr (cd_username (nk_creds d)))]))) of
             (Inl e, log) \<Rightarrow> (Inl e, log)
           | (Inr resp, log) \<Rightarrow>
               ((case envelope (hw_show (nw_http w)) (body_or_null resp) ''login'' of
                   Inl e \<Rightarrow> Inl e
                 | Inr _ \<Rightarrow> Inr (token_from_set_cookie (hr_set_cookie resp))), log)))"

definition nano_token :: "nano_world \<Rightarrow> nanokvm \<Rightarrow> bool \<Rightarrow> http_request list \<Rightarrow> string option nano_result" where
  "nano_token w d refresh log =
     (if refresh \<or> nk_token d = None then
        (case nano_login w d log of
           (Inl e, log) \<Rightarrow> (Inl e, d, log)
         | (Inr token, log) \<Rightarrow> (Inr token, d\<lparr> nk_token := token \<rparr>, log))
      else (Inr (nk_token d), d, log))"

fun nano_attempts ::
    "nano_world \<Rightarrow> http_method \<Rightarrow> string \<Rightarrow> json option \<Rightarrow> nat list \<Rightarrow> nanokvm \<Rightarrow> http_request list \<Rightarrow> json nano_result" where
  "nano_attempts w method path body [] d log =
     (Inl (error_interface (path @ '': NanoKVM rejected the session after re-login'')), d, log)"
| "nano_attempts w method path body (k # ks) d log =
     (case nano_token w d (0 < k) log of
        (Inl e, d, log) \<Rightarrow> (Inl e, d, log)
      | (Inr token, d, log) \<Rightarrow>
          (case send (nw_http w) log ((request method (nk_base d @ path) body)\<lparr> hq_token := token \<rparr>) of
             (Inl e, log) \<Rightarrow> (Inl e, d, log)
           | (Inr resp, log) \<Rightarrow>
               if hr_status resp = 401 \<and> k = 0 then nano_attempts w method path body ks d log
               else if \<not> is_success resp then
                 (Inl (error_interface (path @ '' returned '' @ show_status resp @ '': ''
                    @ hw_show (nw_http w) (body_or_null resp))), d, log)
               else (envelope (hw_show (nw_http w)) (body_or_null resp) path, d, log)))"

definition nano_call :: "nano_world \<Rightarrow> http_method \<Rightarrow> string \<Rightarrow> json option \<Rightarrow> nanokvm \<Rightarrow> http_request list \<Rightarrow> json nano_result" where
  "nano_call w method path body d log = nano_attempts w method path body [0, 1] d log"

section \<open>Operations\<close>

definition nano_is_on :: "nano_world \<Rightarrow> nanokvm \<Rightarrow> bool nano_result" where
  "nano_is_on w d =
     (case nano_call w GET ''/api/vm/gpio'' None d [] of
        (Inl e, d, log) \<Rightarrow> (Inl e, d, log)
      | (Inr v, d, log) \<Rightarrow>
          ((case json_as_bool (json_at v ''pwr'') of
              Some b \<Rightarrow> Inr b
            | None \<Rightarrow> Inl (error_interface (''unexpected gpio state: '' @ hw_show (nw_http w) v))), d, log))"

definition nano_press :: "nano_world \<Rightarrow> nanokvm \<Rightarrow> nat \<Rightarrow> http_request list \<Rightarrow> unit nano_result" where
  "nano_press w d duration_ms log =
     (case nano_call w POST ''/api/vm/gpio''
             (Some (JObj [(''duration'', JNum (int duration_ms)), (''type'', JStr ''power'')])) d log of
        (Inl e, d, log) \<Rightarrow> (Inl e, d, log)
      | (Inr _, d, log) \<Rightarrow> (Inr (), d, log))"

definition nano_power_state :: "nano_world \<Rightarrow> nanokvm \<Rightarrow> power_state nano_result" where
  "nano_power_state w d =
     (case nano_is_on w d of
        (Inl e, d, log) \<Rightarrow> (Inl e, d, log)
      | (Inr b, d, log) \<Rightarrow> (Inr (if b then PS_On else PS_Off), d, log))"

definition nano_power_on :: "nano_world \<Rightarrow> nanokvm \<Rightarrow> unit nano_result" where
  "nano_power_on w d =
     (case nano_is_on w d of
        (Inl e, d, log) \<Rightarrow> (Inl e, d, log)
      | (Inr b, d, log) \<Rightarrow> if b then (Inr (), d, log) else nano_press w d (nx_short_press_ms (nk_config d)) log)"

definition nano_power_off :: "nano_world \<Rightarrow> nanokvm \<Rightarrow> bool \<Rightarrow> unit nano_result" where
  "nano_power_off w d force =
     (case nano_is_on w d of
        (Inl e, d, log) \<Rightarrow> (Inl e, d, log)
      | (Inr b, d, log) \<Rightarrow>
          if \<not> b then (Inr (), d, log)
          else nano_press w d
                 (if force then nx_long_press_ms (nk_config d) else nx_short_press_ms (nk_config d)) log)"

section \<open>The button is pressed only when needed\<close>

definition is_press :: "nanokvm \<Rightarrow> http_request \<Rightarrow> bool" where
  "is_press d q = (hq_method q = POST \<and> hq_url q = nk_base d @ ''/api/vm/gpio'')"

text \<open>A request is a login or a repetition of the call's own request.\<close>

definition login_or :: "nanokvm \<Rightarrow> http_method \<Rightarrow> string \<Rightarrow> json option \<Rightarrow> http_request \<Rightarrow> bool" where
  "login_or d method path body q =
     (hq_url q = nk_base d @ ''/api/auth/login''
      \<or> hq_method q = method \<and> hq_url q = nk_base d @ path \<and> hq_json q = body)"

text \<open>What no operation changes: everything but the token.\<close>

definition same_device :: "nanokvm \<Rightarrow> nanokvm \<Rightarrow> bool" where
  "same_device d d' = (nk_base d' = nk_base d \<and> nk_config d' = nk_config d \<and> nk_creds d' = nk_creds d)"

lemma nano_token_log:
  assumes "nano_token w d refresh log = (r, d', log')"
  shows "same_device d d' \<and> (\<exists>extra. log' = log @ extra \<and> length extra \<le> 1
    \<and> list_all (\<lambda>q. hq_url q = nk_base d @ ''/api/auth/login'') extra)"
  using assms
  by (auto simp: nano_token_def nano_login_def send_def request_def same_device_def
      split: if_splits sum.splits)

lemma nano_attempts_log:
  "nano_attempts w method path body ks d log = (r, d', log') \<Longrightarrow>
     same_device d d' \<and> (\<exists>extra. log' = log @ extra \<and> list_all (login_or d method path body) extra
       \<and> length (filter (\<lambda>q. hq_url q \<noteq> nk_base d @ ''/api/auth/login'') extra) \<le> length ks)"
proof (induction ks arbitrary: d log)
  case Nil
  then show ?case by (simp add: same_device_def)
next
  case (Cons k ks)
  obtain t d1 log1 where tok: "nano_token w d (0 < k) log = (t, d1, log1)" by (rule prod_cases3)
  from nano_token_log [OF tok] obtain e1 where d1: "same_device d d1" and log1: "log1 = log @ e1"
    and e1: "list_all (\<lambda>q. hq_url q = nk_base d @ ''/api/auth/login'') e1" by blast
  have e1': "list_all (login_or d method path body) e1"
    and no: "filter (\<lambda>q. hq_url q \<noteq> nk_base d @ ''/api/auth/login'') e1 = []"
    using e1 by (auto simp: list_all_iff login_or_def filter_empty_conv)
  show ?case
  proof (cases t)
    case (Inl err)
    then show ?thesis using Cons.prems tok d1 log1 e1' no by auto
  next
    case (Inr token)
    define q where "q = (request method (nk_base d1 @ path) body)\<lparr> hq_token := token \<rparr>"
    have q: "login_or d method path body q" using d1 by (simp add: q_def request_def login_or_def same_device_def)
    obtain resp where s: "send (nw_http w) log1 q = (resp, log1 @ [q])" by (simp add: send_def)
    show ?thesis
    proof (cases "\<exists>r. resp = Inr r \<and> hr_status r = 401 \<and> k = 0")
      case True
      then have "nano_attempts w method path body ks d1 (log1 @ [q]) = (r, d', log')"
        using Cons.prems tok Inr s by (auto simp: q_def)
      from Cons.IH [OF this] obtain e2 where "same_device d1 d'" and "log' = log1 @ [q] @ e2"
        and "list_all (login_or d1 method path body) e2"
        and "length (filter (\<lambda>q. hq_url q \<noteq> nk_base d1 @ ''/api/auth/login'') e2) \<le> length ks" by auto
      moreover have "nk_base d1 = nk_base d" using d1 by (simp add: same_device_def)
      moreover from this have "login_or d1 method path body = login_or d method path body"
        by (simp add: login_or_def fun_eq_iff)
      ultimately show ?thesis
        using d1 e1' no q log1 by (intro conjI exI [of _ "e1 @ [q] @ e2"]) (auto simp: same_device_def)
    next
      case False
      then have "d' = d1" and "log' = log1 @ [q]"
        using Cons.prems tok Inr s by (auto simp: q_def split: sum.splits if_splits)
      then show ?thesis using d1 e1' no q log1 by (intro conjI exI [of _ "e1 @ [q]"]) auto
    qed
  qed
qed

lemma login_not_press: "login_or d GET path body q \<Longrightarrow> \<not> is_press d q"
  by (auto simp: login_or_def is_press_def)

lemma nano_is_on_log:
  assumes "nano_is_on w d = (r, d', log)"
  shows "same_device d d' \<and> filter (is_press d) log = []"
proof -
  obtain v d1 log1 where call: "nano_call w GET ''/api/vm/gpio'' None d [] = (v, d1, log1)" by (rule prod_cases3)
  then have "d' = d1" "log = log1" using assms by (auto simp: nano_is_on_def split: sum.splits)
  with nano_attempts_log [OF call [unfolded nano_call_def]] show ?thesis
    by (auto simp: filter_empty_conv list_all_iff dest: login_not_press)
qed

definition press_body :: "nat \<Rightarrow> json" where
  "press_body ms = JObj [(''duration'', JNum (int ms)), (''type'', JStr ''power'')]"

lemma nano_press_log:
  assumes "same_device d d1" and "filter (is_press d) log = []"
  shows "\<exists>presses. filter (is_press d) (snd (snd (nano_press w d1 ms log))) = presses
    \<and> length presses \<le> 2 \<and> list_all (\<lambda>q. hq_json q = Some (press_body ms)) presses"
proof -
  obtain v d2 log2 where call: "nano_call w POST ''/api/vm/gpio'' (Some (press_body ms)) d1 log = (v, d2, log2)"
    by (rule prod_cases3)
  then have log2: "snd (snd (nano_press w d1 ms log)) = log2"
    by (simp add: nano_press_def press_body_def split: sum.split)
  from nano_attempts_log [OF call [unfolded nano_call_def]] obtain extra where e: "log2 = log @ extra"
    "list_all (login_or d1 POST ''/api/vm/gpio'' (Some (press_body ms))) extra"
    "length (filter (\<lambda>q. hq_url q \<noteq> nk_base d1 @ ''/api/auth/login'') extra) \<le> 2"
    by (auto simp: numeral_2_eq_2)
  have base: "nk_base d1 = nk_base d" using assms(1) by (simp add: same_device_def)
  let ?rest = "filter (\<lambda>q. hq_url q \<noteq> nk_base d1 @ ''/api/auth/login'') extra"
  have eq: "filter (is_press d) ?rest = filter (is_press d) extra"
    unfolding filter_filter by (rule filter_cong) (auto simp: is_press_def base)
  have "length (filter (is_press d) extra) \<le> length ?rest" unfolding eq [symmetric] by (rule length_filter_le)
  with e(3) have "length (filter (is_press d) extra) \<le> 2" by (rule order_trans [rotated])
  moreover have "list_all (\<lambda>q. hq_json q = Some (press_body ms)) (filter (is_press d) extra)"
    using e(2) by (auto simp: list_all_iff login_or_def is_press_def base)
  ultimately show ?thesis by (simp add: log2 e(1) assms(2))
qed

text \<open>The power LED as an operation reads it.\<close>

definition nano_reads_on :: "nano_world \<Rightarrow> nanokvm \<Rightarrow> bool option" where
  "nano_reads_on w d = (case fst (nano_is_on w d) of Inr b \<Rightarrow> Some b | Inl _ \<Rightarrow> None)"

definition nano_presses :: "bool \<Rightarrow> nano_world \<Rightarrow> nanokvm \<Rightarrow> bool \<Rightarrow> http_request list" where
  "nano_presses force w d wanted =
     filter (is_press d) (snd (snd (if wanted then nano_power_on w d else nano_power_off w d force)))"

interpretation nano: power_button nano_reads_on "nano_presses force" for force
proof
  fix w d wanted
  assume presses: "nano_presses force w d wanted \<noteq> []"
  obtain r d1 log where on: "nano_is_on w d = (r, d1, log)" by (rule prod_cases3)
  with nano_is_on_log [OF on] presses show "nano_reads_on w d = Some (\<not> wanted)"
    by (cases r) (auto simp: nano_presses_def nano_reads_on_def nano_power_on_def nano_power_off_def split: if_splits)
qed

text \<open>C23: The toggling power button of a NanoKVM is pressed only after the power LED was read and shows
  the other state; for a forced power-off it is held for the long time, otherwise for the short
  one; and it is pressed at most twice, the second time after the session was renewed.\<close>

theorem nanokvm_presses_only_on_need:
  "(nano_reads_on w d = Some (\<not> wanted) \<or> nano_presses force w d wanted = [])
   \<and> length (nano_presses force w d wanted) \<le> 2
   \<and> list_all (\<lambda>q. hq_json q = Some (press_body (if \<not> wanted \<and> force then nx_long_press_ms (nk_config d)
          else nx_short_press_ms (nk_config d)))) (nano_presses force w d wanted)"
proof -
  obtain r d1 log where on: "nano_is_on w d = (r, d1, log)" by (rule prod_cases3)
  from nano_is_on_log [OF on] have d1: "same_device d d1" and log: "filter (is_press d) log = []" by simp_all
  have cfg: "nk_config d1 = nk_config d" using d1 by (simp add: same_device_def)
  have "length (nano_presses force w d wanted) \<le> 2
    \<and> list_all (\<lambda>q. hq_json q = Some (press_body (if \<not> wanted \<and> force then nx_long_press_ms (nk_config d)
          else nx_short_press_ms (nk_config d)))) (nano_presses force w d wanted)"
  proof (cases r)
    case (Inl e)
    then show ?thesis by (simp add: nano_presses_def nano_power_on_def nano_power_off_def on log)
  next
    case (Inr b)
    show ?thesis
      using nano_press_log [OF d1 log, of w "if \<not> wanted \<and> force then nx_long_press_ms (nk_config d)
          else nx_short_press_ms (nk_config d)"]
      by (cases b; cases wanted; cases force)
        (auto simp: nano_presses_def nano_power_on_def nano_power_off_def on Inr log cfg)
  qed
  moreover have "nano_reads_on w d = Some (\<not> wanted) \<or> nano_presses force w d wanted = []"
    using nano.press_only_to_change [of force w d wanted] by blast
  ultimately show ?thesis by blast
qed

text \<open>The error for a session rejected twice is never reached: the second attempt always ends the call.\<close>

lemma second_attempt_is_last:
  "nano_attempts w method path body (0 # 1 # ks) d log = nano_call w method path body d log"
  by (simp add: nano_call_def split: prod.splits sum.splits)

section \<open>The password on its way\<close>

text \<open>The key and the initialization vector are those of OpenSSL's \<^verbatim>\<open>EVP_BytesToKey\<close> with one round.\<close>

lemma derive_key_iv_blocks:
  fixes md5 :: "byte list \<Rightarrow> 128 word" and passphrase salt :: "byte list"
  defines "d1 \<equiv> digest_bytes (md5 (passphrase @ salt))"
  defines "d2 \<equiv> digest_bytes (md5 (d1 @ passphrase @ salt))"
  defines "d3 \<equiv> digest_bytes (md5 (d2 @ passphrase @ salt))"
  shows "derive_key_iv md5 passphrase salt = (d1 @ d2, d3)"
proof -
  have "derive_material md5 passphrase salt [] [] = d1 @ d2 @ d3"
    by (subst derive_material.simps, simp, subst derive_material.simps, simp, subst derive_material.simps, simp,
        subst derive_material.simps) (simp add: d1_def d2_def d3_def Let_def)
  then show ?thesis by (simp add: derive_key_iv_def d1_def d2_def d3_def)
qed

text \<open>What a server does with a percent-encoded string.\<close>

fun url_decode :: "string \<Rightarrow> string" where
  "url_decode [] = []"
| "url_decode [c] = [c]"
| "url_decode [c, a] = [c, a]"
| "url_decode (c # a # b # cs) =
     (if c = CHR ''%'' then
        (case (to_digit 16 a, to_digit 16 b) of
           (Some x, Some y) \<Rightarrow> char_of (16 * x + y) # url_decode cs
         | _ \<Rightarrow> c # url_decode (a # b # cs))
      else c # url_decode (a # b # cs))"

lemma url_decode_plain: "c \<noteq> CHR ''%'' \<Longrightarrow> url_decode (c # cs) = c # url_decode cs"
  by (cases cs rule: url_decode.cases) auto

lemma to_digit_hex_upper: "n < 16 \<Longrightarrow> to_digit 16 (hex_upper_digit n) = Some n"
  by (auto simp: to_digit_def hex_upper_digit_def Let_def)

text \<open>Percent-encoding is undone by decoding, so the encrypted password reaches the NanoKVM as it
  was computed.\<close>

theorem url_encode_decodes: "url_decode (url_encode s) = s"
proof (induction s)
  case (Cons c s)
  have n: "(of_char c :: nat) div 16 < 16" "(of_char c :: nat) mod 16 < 16"
    by (simp_all add: less_mult_imp_div_less)
  have "url_encode (c # s) = (if unreserved c then [c]
      else [CHR ''%'', hex_upper_digit (of_char c div 16), hex_upper_digit (of_char c mod 16)]) @ url_encode s"
    by (simp add: url_encode_def)
  moreover have "unreserved c \<Longrightarrow> c \<noteq> CHR ''%''" by (auto simp: unreserved_def)
  moreover have "16 * (of_char c div 16) + of_char c mod 16 = (of_char c :: nat)" by simp
  ultimately show ?case
    using Cons by (auto simp: url_decode_plain to_digit_hex_upper [OF n(1)] to_digit_hex_upper [OF n(2)])
qed (simp add: url_encode_def)

end
