(* ===== verification/Jetkvm.thy ===== *)
theory Jetkvm
  imports Chain Net Power_Button
begin

text \<open>
  \<^verbatim>\<open>drivers/jetkvm.rs\<close>: a JetKVM's power extensions over MQTT.  The broker's answers are the
  record \<^verbatim>\<open>mqtt_world\<close>: what the event loop delivers, in order, including that a deadline
  passed.  Waiting has no result, \<^verbatim>\<open>None\<close>, while the given events do not end it.  The payload of
  a message is its JSON value, if it is one, and its text.
\<close>

section \<open>Configuration\<close>

datatype jetkvm_extension = Atx | Dc

record jetkvm_config =
  jx_broker :: string
  jx_base_topic :: string
  jx_extension :: jetkvm_extension
  jx_state_timeout_ms :: nat

definition default_jetkvm_config :: "string \<Rightarrow> string \<Rightarrow> jetkvm_config" where
  "default_jetkvm_config broker base_topic = \<lparr> jx_broker = broker, jx_base_topic = base_topic,
     jx_extension = Atx, jx_state_timeout_ms = 5000 \<rparr>"

record jetkvm =
  jk_config :: jetkvm_config
  jk_host :: string
  jk_port :: nat
  jk_tls :: bool
  jk_creds :: "credentials option"

definition trim_end_slashes :: "string \<Rightarrow> string" where
  "trim_end_slashes s = rev (dropWhile (\<lambda>c. c = CHR ''/'') (rev s))"

definition rsplit_once :: "char \<Rightarrow> string \<Rightarrow> (string \<times> string) option" where
  "rsplit_once c s = map_option (\<lambda>(a, b). (rev b, rev a)) (split_once c (rev s))"

text \<open>The scheme, the rest of the URL and the port when none is given.\<close>

definition broker_scheme :: "string \<Rightarrow> (bool \<times> string \<times> nat) option" where
  "broker_scheme url =
     (case opt_or (strip_prefix url ''mqtts://'') (strip_prefix url ''ssl://'') of
        Some r \<Rightarrow> Some (True, r, 8883)
      | None \<Rightarrow>
          (case opt_or (strip_prefix url ''mqtt://'') (strip_prefix url ''tcp://'') of
             Some r \<Rightarrow> Some (False, r, 1883)
           | None \<Rightarrow> None))"

definition broker_host_port :: "string \<Rightarrow> nat \<Rightarrow> (string \<times> nat) option" where
  "broker_host_port rest default_port =
     (case strip_prefix rest ''['' of
        Some bracketed \<Rightarrow>
          (case split_once (CHR '']'') bracketed of
             None \<Rightarrow> None
           | Some (h, after) \<Rightarrow>
               (case strip_prefix after '':'' of
                  Some p \<Rightarrow> map_option (Pair h) (parse_u16 p)
                | None \<Rightarrow> if after = '''' then Some (h, default_port) else None))
      | None \<Rightarrow>
          (case rsplit_once (CHR '':'') rest of
             Some (h, p) \<Rightarrow> map_option (Pair h) (parse_u16 p)
           | None \<Rightarrow> Some (rest, default_port)))"

definition parse_broker :: "string \<Rightarrow> string + string \<times> nat \<times> bool" where
  "parse_broker url =
     (case broker_scheme url of
        None \<Rightarrow> Inl (error_config (''broker must be an mqtt:// or mqtts:// URL: '' @ url))
      | Some (tls, rest, default_port) \<Rightarrow>
          (case broker_host_port (trim_end_slashes rest) default_port of
             None \<Rightarrow> Inl (error_config (''invalid broker port in '' @ url))
           | Some (host, port) \<Rightarrow>
               if host = '''' then Inl (error_config (''broker URL has no host: '' @ url))
               else Inr (host, port, tls)))"

definition build_jetkvm :: "jetkvm_config \<Rightarrow> credentials option \<Rightarrow> string + jetkvm" where
  "build_jetkvm config creds =
     (case parse_broker (jx_broker config) of
        Inl e \<Rightarrow> Inl e
      | Inr (host, port, tls) \<Rightarrow>
          (let base = trim_end_slashes (jx_base_topic config) in
           if base = '''' \<or> CHR ''#'' \<in> set base \<or> CHR ''+'' \<in> set base then
             Inl (error_config (''invalid baseTopic '' @ debug_str (jx_base_topic config)))
           else Inr \<lparr> jk_config = config\<lparr> jx_base_topic := base \<rparr>, jk_host = host, jk_port = port, jk_tls = tls,
                      jk_creds = creds \<rparr>))"

section \<open>Commands\<close>

record payload =
  pl_json :: "json option"
  pl_text :: string

definition bool_at :: "json \<Rightarrow> string \<Rightarrow> bool option" where
  "bool_at v k = (case json_get v k of Some (JBool b) \<Rightarrow> Some b | _ \<Rightarrow> None)"

definition parse_state :: "jetkvm_extension \<Rightarrow> payload \<Rightarrow> bool option" where
  "parse_state extension p =
     Option.bind (pl_json p) (\<lambda>v. case extension of Atx \<Rightarrow> bool_at v ''power'' | Dc \<Rightarrow> bool_at v ''isOn'')"

datatype jet_op = Op_On | Op_Off bool

fun command_for :: "jetkvm_extension \<Rightarrow> jet_op \<Rightarrow> bool \<Rightarrow> string + (string \<times> string) option" where
  "command_for _ Op_On True = Inr None"
| "command_for _ (Op_Off _) False = Inr None"
| "command_for Atx Op_On False = Inr (Some (''atx_power_short/set'', ''PRESS''))"
| "command_for Atx (Op_Off False) True = Inr (Some (''atx_power_short/set'', ''PRESS''))"
| "command_for Atx (Op_Off True) True = Inr (Some (''atx_power_long/set'', ''PRESS''))"
| "command_for Dc Op_On False = Inr (Some (''dc_power/set'', ''ON''))"
| "command_for Dc (Op_Off True) True = Inr (Some (''dc_power/set'', ''OFF''))"
| "command_for Dc (Op_Off False) True = Inl (error_interface
     ''JetKVM DC extension cannot shut down gracefully; use another interface for graceful power off'')"

section \<open>The exchange\<close>

datatype mqtt_event =
    Deadline_passed
  | Connection_failed string
  | Publish string payload
  | PubAck
  | Other_event

record mqtt_world =
  mw_subscribe_state :: "string + unit"
  mw_subscribe_status :: "string + unit"
  mw_publish :: "string + unit"
  mw_events :: "mqtt_event list"

definition state_topic :: "jetkvm \<Rightarrow> string" where
  "state_topic d = jx_base_topic (jk_config d)
     @ (case jx_extension (jk_config d) of Atx \<Rightarrow> ''/atx/state'' | Dc \<Rightarrow> ''/dc/state'')"

definition status_topic :: "jetkvm \<Rightarrow> string" where
  "status_topic d = jx_base_topic (jk_config d) @ ''/status''"

definition reports_offline :: "jetkvm \<Rightarrow> string \<Rightarrow> payload \<Rightarrow> bool" where
  "reports_offline d topic p =
     (topic = status_topic d \<and> Option.bind (pl_json p) (\<lambda>v. bool_at v ''online'') = Some False)"

fun await_state :: "jetkvm \<Rightarrow> mqtt_event list \<Rightarrow> ((string + bool) \<times> mqtt_event list) option" where
  "await_state d [] = None"
| "await_state d (e # es) =
     (case e of
        Deadline_passed \<Rightarrow>
          Some (Inl (error_interface (''no retained state on '' @ state_topic d @ '' within ''
            @ debug_millis (jx_state_timeout_ms (jk_config d))
            @ '' (is MQTT enabled on the JetKVM and the extension active?)'')), es)
      | Connection_failed err \<Rightarrow> Some (Inl (error_interface (''mqtt connection: '' @ err)), es)
      | Publish topic p \<Rightarrow>
          if reports_offline d topic p then Some (Inl (error_interface ''JetKVM reports itself offline''), es)
          else if topic = state_topic d then
            (case parse_state (jx_extension (jk_config d)) p of
               Some b \<Rightarrow> Some (Inr b, es)
             | None \<Rightarrow> Some (Inl (error_interface (''unexpected payload on '' @ state_topic d @ '': '' @ pl_text p)), es))
          else await_state d es
      | _ \<Rightarrow> await_state d es)"

fun await_ack :: "string \<Rightarrow> mqtt_event list \<Rightarrow> (string + unit) option" where
  "await_ack topic [] = None"
| "await_ack topic (e # es) =
     (case e of
        Deadline_passed \<Rightarrow> Some (Inl (error_interface (''broker did not acknowledge publish to '' @ topic)))
      | Connection_failed err \<Rightarrow> Some (Inl (error_interface (''mqtt connection: '' @ err)))
      | PubAck \<Rightarrow> Some (Inr ())
      | _ \<Rightarrow> await_ack topic es)"

text \<open>The messages published, each a topic and a payload.\<close>

definition send_command ::
    "mqtt_world \<Rightarrow> jetkvm \<Rightarrow> jet_op \<Rightarrow> bool \<Rightarrow> mqtt_event list \<Rightarrow> (string + bool) option \<times> (string \<times> string) list" where
  "send_command w d op is_on events =
     (case command_for (jx_extension (jk_config d)) op is_on of
        Inl e \<Rightarrow> (Some (Inl e), [])
      | Inr None \<Rightarrow> (Some (Inr is_on), [])
      | Inr (Some (suffix, text)) \<Rightarrow>
          (let topic = jx_base_topic (jk_config d) @ ''/'' @ suffix in
           case mw_publish w of
             Inl e \<Rightarrow> (Some (Inl (error_interface (''mqtt: '' @ e))), [])
           | Inr _ \<Rightarrow> (map_option (map_sum (\<lambda>e. e) (\<lambda>_. is_on)) (await_ack topic events), [(topic, text)])))"

definition jet_exchange :: "mqtt_world \<Rightarrow> jetkvm \<Rightarrow> jet_op option \<Rightarrow> (string + bool) option \<times> (string \<times> string) list" where
  "jet_exchange w d op =
     (case mw_subscribe_state w of
        Inl e \<Rightarrow> (Some (Inl (error_interface (''mqtt: '' @ e))), [])
      | Inr _ \<Rightarrow>
          (case mw_subscribe_status w of
             Inl e \<Rightarrow> (Some (Inl (error_interface (''mqtt: '' @ e))), [])
           | Inr _ \<Rightarrow>
               (case await_state d (mw_events w) of
                  None \<Rightarrow> (None, [])
                | Some (Inl e, _) \<Rightarrow> (Some (Inl e), [])
                | Some (Inr is_on, events) \<Rightarrow>
                    (case op of
                       None \<Rightarrow> (Some (Inr is_on), [])
                     | Some op \<Rightarrow> send_command w d op is_on events))))"

definition jet_power_state :: "mqtt_world \<Rightarrow> jetkvm \<Rightarrow> (string + power_state) option" where
  "jet_power_state w d =
     map_option (map_sum (\<lambda>e. e) (\<lambda>b. if b then PS_On else PS_Off)) (fst (jet_exchange w d None))"

definition jet_power_on :: "mqtt_world \<Rightarrow> jetkvm \<Rightarrow> (string + unit) option \<times> (string \<times> string) list" where
  "jet_power_on w d = apfst (map_option (map_sum (\<lambda>e. e) (\<lambda>_. ()))) (jet_exchange w d (Some Op_On))"

definition jet_power_off :: "mqtt_world \<Rightarrow> jetkvm \<Rightarrow> bool \<Rightarrow> (string + unit) option \<times> (string \<times> string) list" where
  "jet_power_off w d force = apfst (map_option (map_sum (\<lambda>e. e) (\<lambda>_. ()))) (jet_exchange w d (Some (Op_Off force)))"

section \<open>The button is pressed only when needed\<close>

lemma command_for_needed:
  "command_for ext op is_on = Inr (Some cmd) \<Longrightarrow>
     is_on \<longleftrightarrow> op \<noteq> Op_On"
  "command_for ext op is_on = Inr (Some cmd) \<Longrightarrow> \<not> (ext = Dc \<and> op = Op_Off False)"
  by (cases "(ext, op, is_on)" rule: command_for.cases; simp)+

lemma jet_exchange_commands:
  assumes "snd (jet_exchange w d (Some op)) \<noteq> []"
  obtains is_on events suffix msg where "await_state d (mw_events w) = Some (Inr is_on, events)"
    and "command_for (jx_extension (jk_config d)) op is_on = Inr (Some (suffix, msg))"
    and "snd (jet_exchange w d (Some op)) = [(jx_base_topic (jk_config d) @ ''/'' @ suffix, msg)]"
proof -
  obtain is_on events where ev: "await_state d (mw_events w) = Some (Inr is_on, events)"
    and sent: "jet_exchange w d (Some op) = send_command w d op is_on events"
    using assms by (auto simp: jet_exchange_def split: sum.splits option.splits prod.splits)
  then obtain suffix msg where "command_for (jx_extension (jk_config d)) op is_on = Inr (Some (suffix, msg))"
    and "snd (send_command w d op is_on events) = [(jx_base_topic (jk_config d) @ ''/'' @ suffix, msg)]"
    using assms by (auto simp: send_command_def Let_def split: sum.splits option.splits)
  with ev sent show ?thesis by (intro that) auto
qed

text \<open>The state the exchange reads, and what it publishes for a wanted state.\<close>

definition jet_reads_on :: "mqtt_world \<Rightarrow> jetkvm \<Rightarrow> bool option" where
  "jet_reads_on w d = (case await_state d (mw_events w) of Some (Inr b, _) \<Rightarrow> Some b | _ \<Rightarrow> None)"

definition jet_op_for :: "bool \<Rightarrow> bool \<Rightarrow> jet_op" where
  "jet_op_for force wanted = (if wanted then Op_On else Op_Off force)"

interpretation jet: power_button jet_reads_on "\<lambda>w d wanted. snd (jet_exchange w d (Some (jet_op_for force wanted)))"
  for force
proof
  fix w d wanted
  assume "snd (jet_exchange w d (Some (jet_op_for force wanted))) \<noteq> []"
  then show "jet_reads_on w d = Some (\<not> wanted)"
    by (rule jet_exchange_commands)
      (auto simp: jet_reads_on_def jet_op_for_def dest!: command_for_needed(1) split: if_splits)
qed

text \<open>C22: A JetKVM is sent a command only after its state was read and is not the wanted one, so its
  toggling power button is never pressed on a machine already in the wanted state; it is one
  command, and a DC extension is never sent one for a graceful power-off.\<close>

theorem jetkvm_acts_only_on_need:
  assumes "snd (jet_exchange w d (Some (jet_op_for force wanted))) \<noteq> []"
  shows "jet_reads_on w d = Some (\<not> wanted)
    \<and> (\<exists>suffix msg. command_for (jx_extension (jk_config d)) (jet_op_for force wanted) (\<not> wanted) = Inr (Some (suffix, msg))
         \<and> snd (jet_exchange w d (Some (jet_op_for force wanted))) = [(jx_base_topic (jk_config d) @ ''/'' @ suffix, msg)])
    \<and> \<not> (jx_extension (jk_config d) = Dc \<and> \<not> wanted \<and> \<not> force)"
proof -
  have reads: "jet_reads_on w d = Some (\<not> wanted)" using assms by (rule jet.press_only_to_change)
  from assms show ?thesis
  proof (rule jet_exchange_commands)
    fix is_on events suffix msg
    assume a: "await_state d (mw_events w) = Some (Inr is_on, events)"
      "command_for (jx_extension (jk_config d)) (jet_op_for force wanted) is_on = Inr (Some (suffix, msg))"
      "snd (jet_exchange w d (Some (jet_op_for force wanted))) = [(jx_base_topic (jk_config d) @ ''/'' @ suffix, msg)]"
    from a(1) reads have "is_on = (\<not> wanted)" by (simp add: jet_reads_on_def)
    with a reads command_for_needed(2) [OF a(2)] show ?thesis by (auto simp: jet_op_for_def)
  qed
qed

definition sample_jetkvm :: jetkvm where
  "sample_jetkvm = \<lparr> jk_config = default_jetkvm_config ''mqtt://b'' ''j'', jk_host = ''b'', jk_port = 1883,
     jk_tls = False, jk_creds = None \<rparr>"

definition power_reading :: "bool \<Rightarrow> payload" where
  "power_reading b = \<lparr> pl_json = Some (JObj [(''hdd'', JBool False), (''power'', JBool b)]), pl_text = ''state'' \<rparr>"

definition offline_report :: payload where
  "offline_report = \<lparr> pl_json = Some (JObj [(''online'', JBool False)]), pl_text = ''status'' \<rparr>"

definition sample_broker :: "mqtt_event list \<Rightarrow> mqtt_world" where
  "sample_broker events = \<lparr> mw_subscribe_state = Inr (), mw_subscribe_status = Inr (), mw_publish = Inr (),
     mw_events = events \<rparr>"

lemma sample_exchange:
  "jet_exchange (sample_broker (Publish ''j/atx/state'' (power_reading b) # rest)) sample_jetkvm (Some Op_On)
   = send_command (sample_broker (Publish ''j/atx/state'' (power_reading b) # rest)) sample_jetkvm Op_On b rest"
  by (simp add: jet_exchange_def sample_broker_def sample_jetkvm_def default_jetkvm_config_def power_reading_def
      reports_offline_def status_topic_def state_topic_def parse_state_def bool_at_def)

lemma jetkvm_acts_only_on_need_witness:
  "jet_reads_on (sample_broker [Publish ''j/atx/state'' (power_reading False), PubAck]) sample_jetkvm = Some False
   \<and> snd (jet_exchange (sample_broker [Publish ''j/atx/state'' (power_reading False), PubAck]) sample_jetkvm (Some Op_On))
     = [(''j/atx_power_short/set'', ''PRESS'')]"
proof -
  let ?w = "sample_broker [Publish ''j/atx/state'' (power_reading False), PubAck]"
  have dev: "jx_extension (jk_config sample_jetkvm) = Atx" "jx_base_topic (jk_config sample_jetkvm) = ''j''"
    by (simp_all add: sample_jetkvm_def default_jetkvm_config_def)
  have on: "jet_op_for False True = Op_On" by (simp add: jet_op_for_def)
  have "snd (jet_exchange ?w sample_jetkvm (Some (jet_op_for False True))) \<noteq> []"
    unfolding on sample_exchange by (simp add: send_command_def sample_broker_def dev)
  from jetkvm_acts_only_on_need [OF this] show ?thesis by (auto simp: dev on)
qed

text \<open>The status of the JetKVM itself only counts when it arrives before the state, although the state
  is subscribed to first: an offline device with a state left on the broker is sent the command.\<close>

lemma offline_status_too_late:
  "jet_exchange (sample_broker [Publish ''j/atx/state'' (power_reading False), Publish ''j/status'' offline_report, PubAck])
     sample_jetkvm (Some Op_On)
   = (Some (Inr False), [(''j/atx_power_short/set'', ''PRESS'')])"
  unfolding sample_exchange
  by (simp add: send_command_def sample_broker_def sample_jetkvm_def default_jetkvm_config_def)

section \<open>The exchange ends\<close>

lemma await_state_ends: "Deadline_passed \<in> set es \<Longrightarrow> \<exists>r. await_state d es = Some r"
  by (induction es) (auto split: mqtt_event.splits option.splits)

lemma await_ack_ends: "Deadline_passed \<in> set es \<Longrightarrow> \<exists>r. await_ack topic es = Some r"
  by (induction es) (auto split: mqtt_event.splits)

text \<open>Without a command to send, the exchange ends at the deadline at the latest.\<close>

lemma jet_reading_ends:
  assumes "Deadline_passed \<in> set (mw_events w)"
  shows "\<exists>r. jet_power_state w d = Some r"
  using await_state_ends [OF assms, of d]
  by (auto simp: jet_power_state_def jet_exchange_def split: sum.splits option.splits prod.splits)

end
