(* ===== verification/Ipmi.thy ===== *)
theory Ipmi
  imports Chain Net
begin

text \<open>
  \<^verbatim>\<open>drivers/ipmi.rs\<close>: IPMI sessions.  The protocol is the \<^verbatim>\<open>ipmi\<close> crate's; what its client
  answers, how long the exchange takes and how names resolve is the record \<^verbatim>\<open>ipmi_world\<close>.
\<close>

datatype ipmi_privilege = Operator | Administrator

record ipmi_config =
  ix_address :: string
  ix_port :: nat
  ix_privilege_level :: ipmi_privilege
  ix_request_timeout_ms :: nat
  ix_attempts :: nat

definition default_ipmi_config :: "string \<Rightarrow> ipmi_config" where
  "default_ipmi_config address = \<lparr> ix_address = address, ix_port = 623, ix_privilege_level = Administrator,
     ix_request_timeout_ms = 2000, ix_attempts = 3 \<rparr>"

record ipmi_driver =
  id_config :: ipmi_config
  id_creds :: credentials
  id_op_timeout :: nat

definition build_ipmi :: "ipmi_config \<Rightarrow> credentials option \<Rightarrow> nat \<Rightarrow> string + ipmi_driver" where
  "build_ipmi config creds op_timeout =
     (if ix_address config = '''' then Inl (error_config ''ipmi address must not be empty'')
      else
        (case creds of
           None \<Rightarrow> Inl (error_config ''credentialsSecretRef is required for this driver'')
         | Some c \<Rightarrow> Inr \<lparr> id_config = config, id_creds = c, id_op_timeout = op_timeout \<rparr>))"

definition ipmi_err :: "string \<Rightarrow> string" where
  "ipmi_err e = error_interface (''ipmi: '' @ e)"

text \<open>How the session is opened, and the commands sent in it.\<close>

record session_options =
  so_target :: socket_addr
  so_username :: string
  so_password :: string
  so_privilege :: ipmi_privilege
  so_timeout_ms :: nat
  so_retries :: nat
  so_bmc_key :: "string option"

datatype chassis_control = PowerUp | PowerDown | AcpiSoft

datatype ipmi_event =
    Session_open session_options
  | Get_system_guid
  | Get_chassis_status
  | Chassis_control chassis_control
  | Session_close

record ipmi_world =
  ip_lookup_host :: "string \<Rightarrow> nat \<Rightarrow> string + socket_addr list"
  ip_millis :: nat
  ip_worker :: "string + unit"
  ip_open :: "session_options \<Rightarrow> string + unit"
  ip_guid :: "string + byte list"
  ip_power_on :: "string + bool"
  ip_control :: "chassis_control \<Rightarrow> string + unit"

definition ipmi_resolve :: "ipmi_world \<Rightarrow> ipmi_driver \<Rightarrow> string + socket_addr" where
  "ipmi_resolve w d =
     (case ip_lookup_host w (ix_address (id_config d)) (ix_port (id_config d)) of
        Inl e \<Rightarrow> Inl (error_io e)
      | Inr [] \<Rightarrow> Inl (error_interface (''cannot resolve '' @ ix_address (id_config d)))
      | Inr (addr # _) \<Rightarrow> Inr addr)"

definition session_options_for :: "ipmi_driver \<Rightarrow> socket_addr \<Rightarrow> session_options" where
  "session_options_for d target =
     \<lparr> so_target = target, so_username = cd_username (id_creds d), so_password = cd_password (id_creds d),
       so_privilege = ix_privilege_level (id_config d), so_timeout_ms = ix_request_timeout_ms (id_config d),
       so_retries = max (ix_attempts (id_config d)) 1, so_bmc_key = bt_get (cd_extra (id_creds d)) ''kgKey'' \<rparr>"

text \<open>The worker opens the session, runs the command and closes the session whatever the command
  answered; it runs to its end even when the operation has timed out meanwhile.\<close>

definition ipmi_session :: "ipmi_world \<Rightarrow> ipmi_driver \<Rightarrow> ipmi_event \<Rightarrow> string + 'a \<Rightarrow> (string + 'a) \<times> ipmi_event list" where
  "ipmi_session w d command answer =
     (case ipmi_resolve w d of
        Inl e \<Rightarrow> (Inl e, [])
      | Inr target \<Rightarrow>
          (let options = session_options_for d target;
               (result, log) = (case ip_open w options of
                    Inl e \<Rightarrow> (Inl e, [])
                  | Inr _ \<Rightarrow> (answer, [Session_open options, command, Session_close]))
           in ((if 1000 * id_op_timeout d < ip_millis w then Inl (error_timeout (id_op_timeout d))
                else
                  (case ip_worker w of
                     Inl e \<Rightarrow> Inl (error_interface (''ipmi worker failed: '' @ e))
                   | Inr _ \<Rightarrow> (case result of Inl e \<Rightarrow> Inl (ipmi_err e) | Inr v \<Rightarrow> Inr v))), log)))"

definition ipmi_control :: "ipmi_world \<Rightarrow> ipmi_driver \<Rightarrow> chassis_control \<Rightarrow> (string + unit) \<times> ipmi_event list" where
  "ipmi_control w d action = ipmi_session w d (Chassis_control action) (ip_control w action)"

definition ipmi_system_id :: "ipmi_world \<Rightarrow> ipmi_driver \<Rightarrow> (string + system_id option) \<times> ipmi_event list" where
  "ipmi_system_id w d =
     (case ipmi_session w d Get_system_guid (ip_guid w) of
        (Inl e, log) \<Rightarrow> (Inl e, log)
      | (Inr guid, log) \<Rightarrow> (Inr (Some (RawGuid guid)), log))"

definition ipmi_power_state :: "ipmi_world \<Rightarrow> ipmi_driver \<Rightarrow> (string + power_state) \<times> ipmi_event list" where
  "ipmi_power_state w d =
     (case ipmi_session w d Get_chassis_status (ip_power_on w) of
        (Inl e, log) \<Rightarrow> (Inl e, log)
      | (Inr b, log) \<Rightarrow> (Inr (if b then PS_On else PS_Off), log))"

definition ipmi_power_on :: "ipmi_world \<Rightarrow> ipmi_driver \<Rightarrow> (string + unit) \<times> ipmi_event list" where
  "ipmi_power_on w d = ipmi_control w d PowerUp"

definition ipmi_power_off :: "ipmi_world \<Rightarrow> ipmi_driver \<Rightarrow> bool \<Rightarrow> (string + unit) \<times> ipmi_event list" where
  "ipmi_power_off w d force = ipmi_control w d (if force then PowerDown else AcpiSoft)"

section \<open>Sessions are closed\<close>

text \<open>The BMC key is the only extra entry of the Secret that is used, and at least one attempt is made.\<close>

lemma ipmi_session_log:
  "snd (ipmi_session w d command answer) = []
   \<or> (\<exists>target. ipmi_resolve w d = Inr target
        \<and> snd (ipmi_session w d command answer) = [Session_open (session_options_for d target), command, Session_close])"
  by (auto simp: ipmi_session_def Let_def split: sum.splits)

text \<open>Every IPMI operation holds at most one session, which it closes after its one command; a
  forced power-off cuts the power, an unforced one asks the operating system, and nothing is sent
  to a chassis when only its state or identity is asked.\<close>

theorem ipmi_one_closed_session:
  "(\<exists>options. snd (ipmi_power_off w d force)
      \<in> {[], [Session_open options, Chassis_control (if force then PowerDown else AcpiSoft), Session_close]})
   \<and> (\<exists>options. snd (ipmi_power_on w d) \<in> {[], [Session_open options, Chassis_control PowerUp, Session_close]})
   \<and> (\<exists>options. snd (ipmi_power_state w d) \<in> {[], [Session_open options, Get_chassis_status, Session_close]})
   \<and> (\<exists>options. snd (ipmi_system_id w d) \<in> {[], [Session_open options, Get_system_guid, Session_close]})"
proof -
  have state: "snd (ipmi_power_state w d) = snd (ipmi_session w d Get_chassis_status (ip_power_on w))"
    by (simp add: ipmi_power_state_def split: prod.split sum.split)
  have ident: "snd (ipmi_system_id w d) = snd (ipmi_session w d Get_system_guid (ip_guid w))"
    by (simp add: ipmi_system_id_def split: prod.split sum.split)
  show ?thesis
    unfolding state ident ipmi_power_off_def ipmi_power_on_def ipmi_control_def
    by (intro conjI) (use ipmi_session_log in blast)+
qed

end
