(* ===== verification/Catalog.thy ===== *)
theory Catalog
  imports Wol Ping Redfish Pikvm Nanokvm Jetkvm Ipmi
begin

text \<open>
  \<^verbatim>\<open>drivers/mod.rs\<close>: the catalog of the seven drivers, each entry made of the driver's own
  constructor and operations, and what the trait \<^verbatim>\<open>PowerDriver\<close> provides for the operations a driver
  does not define.  Decoding a configuration (serde) is a parameter, and so is what answers a built
  driver: its device and how long each call takes.
\<close>

section \<open>Drivers of the trait\<close>

datatype driver_call = Call_state | Call_on | Call_off bool | Call_id

text \<open>Longer than any timeout: timeouts are 64-bit numbers of seconds.\<close>

definition NEVER :: nat where
  "NEVER = 1000 * 2 ^ 64"

fun ended :: "nat \<Rightarrow> (string + 'a) option \<Rightarrow> 'a answer" where
  "ended millis (Some r) = \<lparr> an_millis = millis, an_result = r \<rparr>"
| "ended millis None = \<lparr> an_millis = NEVER, an_result = Inl '''' \<rparr>"

lemma never_answers: "timeout < 2 ^ 64 \<Longrightarrow> bounded timeout (ended millis None) = Inl (error_timeout timeout)"
  by (simp add: bounded_def NEVER_def)

text \<open>The trait's own \<^verbatim>\<open>supports\<close> and \<^verbatim>\<open>system_id\<close>.\<close>

definition default_supports :: "interface_action \<Rightarrow> bool" where
  "default_supports action = True"

definition default_system_id :: "string + system_id option" where
  "default_system_id = Inr None"

definition make_driver ::
    "(driver_call \<Rightarrow> nat) \<Rightarrow> (string + power_state) option \<Rightarrow> (string + unit) option
       \<Rightarrow> (bool \<Rightarrow> (string + unit) option) \<Rightarrow> driver" where
  "make_driver millis state on off =
     \<lparr> dv_supports = default_supports,
       dv_power_state = ended (millis Call_state) state,
       dv_power_on = ended (millis Call_on) on,
       dv_power_off = (\<lambda>force. ended (millis (Call_off force)) (off force)),
       dv_system_id = ended 0 (Some default_system_id) \<rparr>"

section \<open>The devices behind the drivers\<close>

text \<open>For each driver and call: the milliseconds it takes, what the driver remembers from earlier
  calls (Redfish: the system path, NanoKVM: the session token), and the surroundings.\<close>

record devices =
  de_millis :: "string \<Rightarrow> driver_call \<Rightarrow> nat"
  de_ipmi :: "ipmi_driver \<Rightarrow> driver_call \<Rightarrow> ipmi_world"
  de_redfish :: "redfish \<Rightarrow> driver_call \<Rightarrow> string option \<times> http_world"
  de_pikvm :: "pikvm \<Rightarrow> driver_call \<Rightarrow> http_world"
  de_jetkvm :: "jetkvm \<Rightarrow> driver_call \<Rightarrow> mqtt_world"
  de_nanokvm :: "nanokvm \<Rightarrow> driver_call \<Rightarrow> string option \<times> nano_world"
  de_wol :: "wol_driver \<Rightarrow> wol_world"
  de_ping :: "ping_driver \<Rightarrow> ping_world"
  de_hash :: "string list \<Rightarrow> nat"

definition ipmi_as_driver :: "devices \<Rightarrow> ipmi_driver \<Rightarrow> driver" where
  "ipmi_as_driver de d =
     (let w = de_ipmi de d; t = de_millis de ''ipmi'' in
      (make_driver t
         (Some (fst (ipmi_power_state (w Call_state) d)))
         (Some (fst (ipmi_power_on (w Call_on) d)))
         (\<lambda>force. Some (fst (ipmi_power_off (w (Call_off force)) d force))))
        \<lparr> dv_system_id := ended (t Call_id) (Some (fst (ipmi_system_id (w Call_id) d))) \<rparr>)"

definition redfish_at :: "devices \<Rightarrow> redfish \<Rightarrow> driver_call \<Rightarrow> redfish" where
  "redfish_at de d c = d\<lparr> rd_system_path := fst (de_redfish de d c) \<rparr>"

definition redfish_as_driver :: "devices \<Rightarrow> redfish \<Rightarrow> driver" where
  "redfish_as_driver de d =
     (let w = (\<lambda>c. snd (de_redfish de d c)); at = redfish_at de d; t = de_millis de ''redfish'' in
      (make_driver t
         (Some (fst (redfish_power_state (w Call_state) (at Call_state))))
         (Some (fst (redfish_power_on (w Call_on) (at Call_on))))
         (\<lambda>force. Some (fst (redfish_power_off (w (Call_off force)) (at (Call_off force)) force))))
        \<lparr> dv_system_id := ended (t Call_id) (Some (fst (redfish_system_id (w Call_id) (at Call_id)))) \<rparr>)"

definition pikvm_as_driver :: "devices \<Rightarrow> pikvm \<Rightarrow> driver" where
  "pikvm_as_driver de d =
     (let w = de_pikvm de d in
      make_driver (de_millis de ''pikvm'')
        (Some (fst (pikvm_power_state (w Call_state) d)))
        (Some (fst (pikvm_power_on (w Call_on) d)))
        (\<lambda>force. Some (fst (pikvm_power_off (w (Call_off force)) d force))))"

definition jetkvm_as_driver :: "devices \<Rightarrow> jetkvm \<Rightarrow> driver" where
  "jetkvm_as_driver de d =
     (let w = de_jetkvm de d in
      make_driver (de_millis de ''jetkvm'')
        (jet_power_state (w Call_state) d)
        (fst (jet_power_on (w Call_on) d))
        (\<lambda>force. fst (jet_power_off (w (Call_off force)) d force)))"

definition nanokvm_at :: "devices \<Rightarrow> nanokvm \<Rightarrow> driver_call \<Rightarrow> nanokvm" where
  "nanokvm_at de d c = d\<lparr> nk_token := fst (de_nanokvm de d c) \<rparr>"

definition nanokvm_as_driver :: "devices \<Rightarrow> nanokvm \<Rightarrow> driver" where
  "nanokvm_as_driver de d =
     (let w = (\<lambda>c. snd (de_nanokvm de d c)); at = nanokvm_at de d in
      make_driver (de_millis de ''nanokvm'')
        (Some (fst (nano_power_state (w Call_state) (at Call_state))))
        (Some (fst (nano_power_on (w Call_on) (at Call_on))))
        (\<lambda>force. Some (fst (nano_power_off (w (Call_off force)) (at (Call_off force)) force))))"

definition ping_as_entry :: "devices \<Rightarrow> ping_driver \<Rightarrow> driver" where
  "ping_as_entry de d =
     (let t = de_millis de ''ping'' Call_state in
      (ping_as_driver t (Inr PS_Unknown))\<lparr> dv_power_state := ended t (ping_power_state (de_ping de d) d) \<rparr>)"

section \<open>Entries\<close>

text \<open>\<^verbatim>\<open>DriverKind\<close> and the \<^verbatim>\<open>Entry\<close> that makes a factory of it; \<^verbatim>\<open>dk_parse\<close> is the decoding of the
  driver's configuration.\<close>

record ('c, 'd) driver_kind =
  dk_name :: string
  dk_description :: string
  dk_requires_credentials :: bool
  dk_parse :: "json \<Rightarrow> string + 'c"
  dk_build :: "'c \<Rightarrow> credentials option \<Rightarrow> string \<Rightarrow> string + 'd"

definition entry_parse :: "('c, 'd) driver_kind \<Rightarrow> json \<Rightarrow> string + 'c" where
  "entry_parse k config =
     (case dk_parse k config of
        Inl e \<Rightarrow> Inl (error_config (dk_name k @ '' config: '' @ e))
      | Inr c \<Rightarrow> Inr c)"

definition entry_validate :: "('c, 'd) driver_kind \<Rightarrow> json \<Rightarrow> string + unit" where
  "entry_validate k config = (case entry_parse k config of Inl e \<Rightarrow> Inl e | Inr _ \<Rightarrow> Inr ())"

definition entry_build ::
    "('c, 'd) driver_kind \<Rightarrow> ('d \<Rightarrow> driver) \<Rightarrow> json \<Rightarrow> credentials option \<Rightarrow> string \<Rightarrow> string + driver" where
  "entry_build k as_driver config creds node_name =
     (case entry_parse k config of
        Inl e \<Rightarrow> Inl e
      | Inr c \<Rightarrow>
          (case dk_build k c creds node_name of Inl e \<Rightarrow> Inl e | Inr d \<Rightarrow> Inr (as_driver d)))"

definition entry :: "('c, 'd) driver_kind \<Rightarrow> ('d \<Rightarrow> driver) \<Rightarrow> driver_factory" where
  "entry k as_driver =
     \<lparr> fa_name = dk_name k, fa_requires_credentials = dk_requires_credentials k,
       fa_validate = entry_validate k, fa_build = entry_build k as_driver \<rparr>"

text \<open>How configurations are decoded, the HTTP client, and the settings of the operator that
  drivers copy when they are built.\<close>

record driver_settings =
  se_parse_ipmi :: "json \<Rightarrow> string + ipmi_config"
  se_parse_redfish :: "json \<Rightarrow> string + redfish_config"
  se_parse_pikvm :: "json \<Rightarrow> string + pikvm_config"
  se_parse_jetkvm :: "json \<Rightarrow> string + jetkvm_config"
  se_parse_nanokvm :: "json \<Rightarrow> string + nanokvm_config"
  se_parse_wol :: "json \<Rightarrow> string + wol_config"
  se_parse_ping :: "json \<Rightarrow> string + ping_config"
  se_http_client :: "bool \<Rightarrow> string + unit"
  se_op_timeout :: nat
  se_shutdown_image :: string
  se_relay_image :: string

definition ipmi_kind :: "driver_settings \<Rightarrow> (ipmi_config, ipmi_driver) driver_kind" where
  "ipmi_kind se = \<lparr> dk_name = ''ipmi'',
     dk_description = ''IPMI v2.0 over LAN (RMCP+, cipher suite 3), native implementation'',
     dk_requires_credentials = True, dk_parse = se_parse_ipmi se,
     dk_build = (\<lambda>c creds _. build_ipmi c creds (se_op_timeout se)) \<rparr>"

definition redfish_kind :: "driver_settings \<Rightarrow> (redfish_config, redfish) driver_kind" where
  "redfish_kind se = \<lparr> dk_name = ''redfish'',
     dk_description = ''DMTF Redfish BMCs (iDRAC, iLO, XClarity, OpenBMC, ...)'',
     dk_requires_credentials = True, dk_parse = se_parse_redfish se,
     dk_build = (\<lambda>c creds _. build_redfish (se_http_client se) c creds) \<rparr>"

definition pikvm_kind :: "driver_settings \<Rightarrow> (pikvm_config, pikvm) driver_kind" where
  "pikvm_kind se = \<lparr> dk_name = ''pikvm'', dk_description = ''PiKVM (IP-KVM) ATX power control'',
     dk_requires_credentials = True, dk_parse = se_parse_pikvm se,
     dk_build = (\<lambda>c creds _. build_pikvm (se_http_client se) c creds) \<rparr>"

definition jetkvm_kind :: "driver_settings \<Rightarrow> (jetkvm_config, jetkvm) driver_kind" where
  "jetkvm_kind se = \<lparr> dk_name = ''jetkvm'',
     dk_description = ''JetKVM ATX/DC power extension via its MQTT integration'',
     dk_requires_credentials = False, dk_parse = se_parse_jetkvm se,
     dk_build = (\<lambda>c creds _. build_jetkvm c creds) \<rparr>"

definition nanokvm_kind :: "driver_settings \<Rightarrow> (nanokvm_config, nanokvm) driver_kind" where
  "nanokvm_kind se = \<lparr> dk_name = ''nanokvm'', dk_description = ''Sipeed NanoKVM ATX power control (web API)'',
     dk_requires_credentials = True, dk_parse = se_parse_nanokvm se,
     dk_build = (\<lambda>c creds _. build_nanokvm (se_http_client se) c creds) \<rparr>"

definition wol_kind :: "driver_settings \<Rightarrow> (wol_config, wol_driver) driver_kind" where
  "wol_kind se = \<lparr> dk_name = ''wakeOnLan'',
     dk_description = ''Wake-on-LAN magic packet (from the operator and/or neighbour relays) to power on; ''
       @ ''in-band shutdown to power off'',
     dk_requires_credentials = False, dk_parse = se_parse_wol se,
     dk_build = (\<lambda>c _ node_name. build_wol c node_name (se_shutdown_image se) (se_relay_image se)) \<rparr>"

definition ping_kind :: "driver_settings \<Rightarrow> (ping_config, ping_driver) driver_kind" where
  "ping_kind se = \<lparr> dk_name = ''ping'',
     dk_description = ''Reachability probe (TCP connect or ICMP echo) of the Node's IP; status only'',
     dk_requires_credentials = False, dk_parse = se_parse_ping se,
     dk_build = (\<lambda>c _ node_name. build_ping c node_name) \<rparr>"

definition catalog :: "driver_settings \<Rightarrow> devices \<Rightarrow> driver_factory list" where
  "catalog se de =
     [entry (ipmi_kind se) (ipmi_as_driver de),
      entry (redfish_kind se) (redfish_as_driver de),
      entry (pikvm_kind se) (pikvm_as_driver de),
      entry (jetkvm_kind se) (jetkvm_as_driver de),
      entry (nanokvm_kind se) (nanokvm_as_driver de),
      entry (wol_kind se) (\<lambda>d. wol_as_driver (de_hash de) (de_wol de d) (de_millis de ''wakeOnLan'' Call_on) d),
      entry (ping_kind se) (ping_as_entry de)]"

section \<open>Every name of the catalog is one driver\<close>

lemmas kind_defs = ipmi_kind_def redfish_kind_def pikvm_kind_def jetkvm_kind_def nanokvm_kind_def wol_kind_def
  ping_kind_def

lemma catalog_names: "map fa_name (catalog se de) = CATALOG_NAMES"
  by (simp add: catalog_def entry_def kind_defs CATALOG_NAMES_def)

lemma catalog_names_distinct: "distinct CATALOG_NAMES"
  by (simp add: CATALOG_NAMES_def)

lemma lookup_Inr: "lookup fs name = Inr f \<Longrightarrow> f \<in> set fs \<and> fa_name f = name"
  by (auto simp: lookup_def find_Some_iff split: option.splits)

lemma lookup_exactly_catalog: "isl (lookup (catalog se de) name) = (name \<notin> set CATALOG_NAMES)"
proof -
  have "(find (\<lambda>f. fa_name f = name) fs = None) = (name \<notin> set (map fa_name fs))" for fs
    by (auto simp: find_None_iff)
  from this [of "catalog se de"] show ?thesis
    unfolding catalog_names by (auto simp: lookup_def split: option.splits)
qed

text \<open>The configuration is checked before a Secret is read.\<close>

lemma config_checked_first:
  assumes "lookup (cx_catalog ctx) (pi_driver i) = Inr f" "fa_validate f (pi_config i) = Inl e"
  shows "build_driver ctx node_name i = Inl e"
  by (simp add: build_driver_def assms)

section \<open>What a built interface can do\<close>

lemma entry_build_Inr:
  "entry_build k as_driver config creds node_name = Inr d \<Longrightarrow> \<exists>x. d = as_driver x"
  by (auto simp: entry_build_def split: sum.splits)

lemma make_driver_facts [simp]:
  "dv_supports (make_driver t st on off) a" "dv_system_id (make_driver t st on off) = ended 0 (Some (Inr None))"
  by (simp_all add: make_driver_def default_supports_def default_system_id_def)

lemma ended_result [simp]: "an_result (ended t (Some r)) = r"
  by simp

definition WITH_CREDENTIALS :: "string list" where
  "WITH_CREDENTIALS = [''ipmi'', ''redfish'', ''pikvm'', ''nanokvm'']"

definition WITH_IDENTITY :: "string list" where
  "WITH_IDENTITY = [''ipmi'', ''redfish'']"

lemma catalog_factory:
  assumes "f \<in> set (catalog se de)"
  shows "fa_requires_credentials f = (fa_name f \<in> set WITH_CREDENTIALS)"
    and "fa_build f config creds node_name = Inr d \<Longrightarrow>
      (\<forall>a. dv_supports d a = (a = IA_Status \<or> fa_name f \<noteq> ''ping''))
      \<and> (fa_name f \<notin> set WITH_IDENTITY \<longrightarrow> an_result (dv_system_id d) = Inr None)"
  using assms
  by (auto simp: catalog_def entry_def kind_defs WITH_CREDENTIALS_def WITH_IDENTITY_def ipmi_as_driver_def
      redfish_as_driver_def pikvm_as_driver_def jetkvm_as_driver_def nanokvm_as_driver_def wol_as_driver_def
      ping_as_entry_def ping_as_driver_def Let_def dest!: entry_build_Inr)

text \<open>The credentials an interface's Secret holds, if it names one that can be read.\<close>

definition credentials_for :: "driver_context \<Rightarrow> power_interface \<Rightarrow> credentials option" where
  "credentials_for ctx i =
     (case pi_credentials_secret_ref i of
        None \<Rightarrow> None
      | Some r \<Rightarrow> (case load_credentials ctx r of Inl _ \<Rightarrow> None | Inr c \<Rightarrow> Some c))"

text \<open>A driver of a BMC or KVM is the one its own constructor makes of the decoded configuration and
  the given credentials, and it keeps those.\<close>

definition built_with ::
    "driver_settings \<Rightarrow> devices \<Rightarrow> string \<Rightarrow> json \<Rightarrow> credentials option \<Rightarrow> driver \<Rightarrow> bool" where
  "built_with se de name config creds dv =
     (if name = ''ipmi'' then
        (\<exists>c d. se_parse_ipmi se config = Inr c \<and> build_ipmi c creds (se_op_timeout se) = Inr d
           \<and> dv = ipmi_as_driver de d \<and> creds = Some (id_creds d))
      else if name = ''redfish'' then
        (\<exists>c d. se_parse_redfish se config = Inr c \<and> build_redfish (se_http_client se) c creds = Inr d
           \<and> dv = redfish_as_driver de d \<and> creds = Some (rd_creds d))
      else if name = ''pikvm'' then
        (\<exists>c d. se_parse_pikvm se config = Inr c \<and> build_pikvm (se_http_client se) c creds = Inr d
           \<and> dv = pikvm_as_driver de d \<and> creds = Some (pk_creds d))
      else if name = ''nanokvm'' then
        (\<exists>c d. se_parse_nanokvm se config = Inr c \<and> build_nanokvm (se_http_client se) c creds = Inr d
           \<and> dv = nanokvm_as_driver de d \<and> creds = Some (nk_creds d))
      else if name = ''jetkvm'' then
        (\<exists>c d. se_parse_jetkvm se config = Inr c \<and> build_jetkvm c creds = Inr d
           \<and> dv = jetkvm_as_driver de d \<and> creds = jk_creds d)
      else True)"

lemma constructors_keep_credentials:
  "build_ipmi c1 creds t = Inr d1 \<Longrightarrow> creds = Some (id_creds d1)"
  "build_redfish h c2 creds = Inr d2 \<Longrightarrow> creds = Some (rd_creds d2)"
  "build_pikvm h c3 creds = Inr d3 \<Longrightarrow> creds = Some (pk_creds d3)"
  "build_nanokvm h c4 creds = Inr d4 \<Longrightarrow> creds = Some (nk_creds d4)"
  "build_jetkvm c5 creds = Inr d5 \<Longrightarrow> creds = jk_creds d5"
  by (auto simp: build_ipmi_def build_redfish_def build_pikvm_def build_nanokvm_def build_jetkvm_def
      init_credentials_def Let_def split: if_splits option.splits sum.splits)

lemma entry_build_parts:
  "entry_build k as_driver config creds node_name = Inr dv \<Longrightarrow>
     \<exists>c d. dk_parse k config = Inr c \<and> dk_build k c creds node_name = Inr d \<and> dv = as_driver d"
  by (auto simp: entry_build_def entry_parse_def split: sum.splits)

lemma catalog_built:
  assumes "f \<in> set (catalog se de)" and "fa_build f config creds node_name = Inr dv"
  shows "built_with se de (fa_name f) config creds dv"
proof -
  have e: "fa_name (entry k g) = dk_name k" "fa_build (entry k g) = entry_build k g" for k :: "('c, 'd) driver_kind" and g
    by (simp_all add: entry_def)
  have names: "dk_name (ipmi_kind se) = ''ipmi''" "dk_name (redfish_kind se) = ''redfish''" "dk_name (pikvm_kind se) = ''pikvm''"
      "dk_name (jetkvm_kind se) = ''jetkvm''" "dk_name (nanokvm_kind se) = ''nanokvm''" "dk_name (wol_kind se) = ''wakeOnLan''"
      "dk_name (ping_kind se) = ''ping''"
    by (simp_all add: kind_defs)
  consider "f = entry (ipmi_kind se) (ipmi_as_driver de)" | "f = entry (redfish_kind se) (redfish_as_driver de)"
    | "f = entry (pikvm_kind se) (pikvm_as_driver de)" | "f = entry (jetkvm_kind se) (jetkvm_as_driver de)"
    | "f = entry (nanokvm_kind se) (nanokvm_as_driver de)"
    | "fa_name f = ''wakeOnLan'' \<or> fa_name f = ''ping''"
    using assms(1) by (auto simp: catalog_def e names)
  then show ?thesis
  proof cases
    case 1
    from entry_build_parts [OF assms(2) [unfolded 1 e]] show ?thesis
      unfolding 1 e names built_with_def using constructors_keep_credentials(1) by (auto simp: ipmi_kind_def)
  next
    case 2
    from entry_build_parts [OF assms(2) [unfolded 2 e]] show ?thesis
      unfolding 2 e names built_with_def using constructors_keep_credentials(2) by (auto simp: redfish_kind_def)
  next
    case 3
    from entry_build_parts [OF assms(2) [unfolded 3 e]] show ?thesis
      unfolding 3 e names built_with_def using constructors_keep_credentials(3) by (auto simp: pikvm_kind_def)
  next
    case 4
    from entry_build_parts [OF assms(2) [unfolded 4 e]] show ?thesis
      unfolding 4 e names built_with_def using constructors_keep_credentials(5) by (auto simp: jetkvm_kind_def)
  next
    case 5
    from entry_build_parts [OF assms(2) [unfolded 5 e]] show ?thesis
      unfolding 5 e names built_with_def using constructors_keep_credentials(4) by (auto simp: nanokvm_kind_def)
  next
    case 6
    then show ?thesis by (auto simp: built_with_def)
  qed
qed

lemma built_interface:
  assumes "cx_catalog ctx = catalog se de" and "build_driver ctx node_name i = Inr d"
  shows "pi_driver i \<in> set CATALOG_NAMES"
    and "pi_credentials_secret_ref i = Some r \<Longrightarrow> \<exists>c. load_credentials ctx r = Inr c"
    and "built_with se de (pi_driver i) (pi_config i) (credentials_for ctx i) d"
    and "dv_supports d a = (a = IA_Status \<or> pi_driver i \<noteq> ''ping'')"
    and "pi_driver i \<notin> set WITH_IDENTITY \<Longrightarrow> an_result (dv_system_id d) = Inr None"
proof -
  from assms obtain f where f: "lookup (catalog se de) (pi_driver i) = Inr f"
      "fa_build f (pi_config i) (credentials_for ctx i) node_name = Inr d"
      "\<forall>r. pi_credentials_secret_ref i = Some r \<longrightarrow> (\<exists>c. load_credentials ctx r = Inr c)"
    unfolding build_driver_def credentials_for_def by (auto split: sum.splits option.splits if_splits)
  from lookup_Inr [OF f(1)] have m: "f \<in> set (catalog se de)" "fa_name f = pi_driver i" by auto
  from f(1) lookup_exactly_catalog [of se de "pi_driver i"] show "pi_driver i \<in> set CATALOG_NAMES" by auto
  show "pi_credentials_secret_ref i = Some r \<Longrightarrow> \<exists>c. load_credentials ctx r = Inr c" using f(3) by simp
  show "built_with se de (pi_driver i) (pi_config i) (credentials_for ctx i) d"
    using catalog_built [OF m(1) f(2)] m(2) by simp
  show "dv_supports d a = (a = IA_Status \<or> pi_driver i \<noteq> ''ping'')"
    and "pi_driver i \<notin> set WITH_IDENTITY \<Longrightarrow> an_result (dv_system_id d) = Inr None"
    using catalog_factory(2) [OF m(1) f(2)] m(2) by simp_all
qed

lemma chain_link_built:
  assumes "build_chain ctx spec = Inr chain" "l \<in> set (ch_links chain)"
  shows "lk_interface l \<in> set (nm_power_interfaces spec) \<and> lk_label l = interface_label (lk_interface l)
    \<and> build_driver ctx (nm_node_name spec) (lk_interface l) = Inr (lk_driver l)"
  using assms build_links_sound [of l ctx "nm_node_name spec" "nm_power_interfaces spec"
      "\<lparr> ch_links = [], ch_unavailable = [] \<rparr>"]
  by (auto simp: build_chain_def Let_def split: if_splits)


section \<open>A concrete catalog\<close>

definition sample_http :: http_world where
  "sample_http = \<lparr> hw_send = (\<lambda>_ _. Inr \<lparr> hr_status = 200, hr_reason = ''OK'', hr_text = '''',
       hr_json = Inr (JObj [(''ok'', JBool True)]), hr_set_cookie = [] \<rparr>), hw_show = (\<lambda>_. ''json'') \<rparr>"

definition sample_devices :: devices where
  "sample_devices = \<lparr> de_millis = (\<lambda>_ _. 20),
     de_ipmi = (\<lambda>_ _. \<lparr> ip_lookup_host = (\<lambda>_ _. Inl ''down''), ip_millis = 20, ip_worker = Inr (),
       ip_open = (\<lambda>_. Inr ()), ip_guid = Inr [], ip_power_on = Inr True, ip_control = (\<lambda>_. Inr ()) \<rparr>),
     de_redfish = (\<lambda>_ _. (None, sample_bmc)),
     de_pikvm = (\<lambda>_ _. sample_http),
     de_jetkvm = (\<lambda>_ _. sample_broker []),
     de_nanokvm = (\<lambda>_ _. (None, \<lparr> nw_http = sample_http,
       nw_ciphers = \<lparr> ck_md5 = (\<lambda>_. 0), ck_aes256_cbc = (\<lambda>_ _ p. p), ck_base64 = (\<lambda>_. '''') \<rparr>,
       nw_salt = (\<lambda>_. Inr []) \<rparr>)),
     de_wol = (\<lambda>_. sample_wol_world), de_ping = (\<lambda>_. sample_ping_world 0), de_hash = length \<rparr>"

definition sample_driver_settings :: driver_settings where
  "sample_driver_settings = \<lparr> se_parse_ipmi = (\<lambda>_. Inr (default_ipmi_config ''bmc'')),
     se_parse_redfish = (\<lambda>_. Inl ''missing field `endpoint`''),
     se_parse_pikvm = (\<lambda>_. Inr \<lparr> px_endpoint = ''https://kvm/'', px_insecure_skip_verify = False \<rparr>),
     se_parse_jetkvm = (\<lambda>_. Inr (default_jetkvm_config ''mqtt://b'' ''j'')),
     se_parse_nanokvm = (\<lambda>_. Inr (default_nanokvm_config ''https://nano'')),
     se_parse_wol = (\<lambda>_. Inr sample_wol_config), se_parse_ping = (\<lambda>_. Inr default_ping_config),
     se_http_client = (\<lambda>_. Inr ()), se_op_timeout = 60, se_shutdown_image = ''sh'', se_relay_image = ''kha'' \<rparr>"

definition kvm_context :: driver_context where
  "kvm_context = \<lparr> cx_namespace = ''kha'',
     cx_secrets = (\<lambda>_. Inr (Some \<lparr> sc_data = [(''password'', ''p''), (''username'', ''u'')], sc_string_data = [] \<rparr>)),
     cx_catalog = catalog sample_driver_settings sample_devices, cx_op_timeout = 10 \<rparr>"

definition kvm_credentials :: credentials_ref where
  "kvm_credentials = \<lparr> cr_name = ''kvm'', cr_username_key = ''username'', cr_password_key = ''password'' \<rparr>"

definition kvm_spec :: "power_interface list \<Rightarrow> npmc_spec" where
  "kvm_spec interfaces = \<lparr> nm_node_name = ''n1'', nm_power_policy = AlwaysOn,
     nm_power_interfaces = interfaces, nm_lifecycle = default_lifecycle_spec,
     nm_manual_power_on_policy = None, nm_manual_power_off_cooldown_seconds = None \<rparr>"

definition kvm_interfaces :: "power_interface list" where
  "kvm_interfaces = [sample_interface ''ping'', sample_interface ''pikvm'',
     (sample_interface ''pikvm'')\<lparr> pi_name := Some ''kvm'', pi_credentials_secret_ref := Some kvm_credentials \<rparr>]"

definition kvm_chain :: power_chain where
  "kvm_chain = \<lparr> ch_links =
       [make_link kvm_context (kvm_interfaces ! 0)
          (ping_as_entry sample_devices \<lparr> pn_config = default_ping_config, pn_node_name = ''n1'', pn_client = True \<rparr>),
        make_link kvm_context (kvm_interfaces ! 2)
          (pikvm_as_driver sample_devices \<lparr> pk_base = ''https://kvm'',
             pk_creds = \<lparr> cd_username = ''u'', cd_password = ''p'', cd_extra = [] \<rparr> \<rparr>)],
     ch_unavailable = [''pikvm: '' @ error_config ''driver pikvm requires credentialsSecretRef''] \<rparr>"

lemma kvm_chain_built: "build_chain kvm_context (kvm_spec kvm_interfaces) = Inr kvm_chain"
proof -
  have ping: "build_driver kvm_context ''n1'' (kvm_interfaces ! 0) = Inr (ping_as_entry sample_devices
      \<lparr> pn_config = default_ping_config, pn_node_name = ''n1'', pn_client = True \<rparr>)"
    by (simp add: build_driver_def lookup_def kvm_context_def kvm_interfaces_def sample_interface_def catalog_def
        entry_def kind_defs entry_validate_def entry_build_def entry_parse_def sample_driver_settings_def
        build_ping_def default_ping_config_def)
  have bare: "build_driver kvm_context ''n1'' (kvm_interfaces ! 1)
      = Inl (error_config ''driver pikvm requires credentialsSecretRef'')"
    by (simp add: build_driver_def lookup_def kvm_context_def kvm_interfaces_def sample_interface_def catalog_def
        entry_def kind_defs entry_validate_def entry_parse_def sample_driver_settings_def)
  have creds: "load_credentials kvm_context kvm_credentials
      = Inr \<lparr> cd_username = ''u'', cd_password = ''p'', cd_extra = [] \<rparr>"
    by (simp add: load_credentials_def kvm_context_def kvm_credentials_def take_key_def Let_def)
  have kvm: "build_driver kvm_context ''n1'' (kvm_interfaces ! 2) = Inr (pikvm_as_driver sample_devices
      \<lparr> pk_base = ''https://kvm'', pk_creds = \<lparr> cd_username = ''u'', cd_password = ''p'', cd_extra = [] \<rparr> \<rparr>)"
    using creds
    by (simp add: build_driver_def lookup_def kvm_context_def kvm_interfaces_def sample_interface_def catalog_def
        entry_def kind_defs entry_validate_def entry_build_def entry_parse_def sample_driver_settings_def
        build_pikvm_def base_url_def init_credentials_def starts_with_def)
  have three: "kvm_interfaces = [kvm_interfaces ! 0, kvm_interfaces ! 1, kvm_interfaces ! 2]"
    by (simp add: kvm_interfaces_def)
  have label: "interface_label (kvm_interfaces ! 1) = ''pikvm''"
    by (simp add: kvm_interfaces_def sample_interface_def interface_label_def unwrap_or_def)
  have "build_links kvm_context ''n1'' kvm_interfaces \<lparr> ch_links = [], ch_unavailable = [] \<rparr> = kvm_chain"
    by (subst three) (simp add: ping bare [simplified] kvm label [simplified] kvm_chain_def)
  then show ?thesis by (simp add: build_chain_def kvm_spec_def Let_def kvm_interfaces_def kvm_chain_def)
qed

lemma kvm_probe_label:
  "i \<in> set (nm_power_interfaces (kvm_spec kvm_interfaces)) \<Longrightarrow> pi_driver i \<noteq> ''ping'' \<Longrightarrow> interface_label i \<noteq> ''ping''"
  by (auto simp: kvm_spec_def kvm_interfaces_def sample_interface_def interface_label_def unwrap_or_def)


end
