(* ===== verification/Metrics.thy ===== *)
theory Metrics
  imports PoolController NodeController
begin

text \<open>
  \<^verbatim>\<open>metrics.rs\<close>: the Prometheus counters and gauges, the operations that record them and the health
  endpoints; and what the controllers record, including the error policies that the controller
  runtime calls when a reconciliation fails.  The registry and the text format are the
  \<^verbatim>\<open>prometheus\<close> crate's: counters are 64-bit and start at 0 for each combination of labels.
\<close>

section \<open>Counters and gauges\<close>

type_synonym 'k counter = "'k \<Rightarrow> 64 word option"

type_synonym 'k gauge = "'k \<Rightarrow> int option"

record metrics =
  mt_power_actions :: "(string \<times> string \<times> string) counter"
  mt_node_power :: "string gauge"
  mt_pool_nodes :: "(string \<times> string) gauge"
  mt_pool_pending :: "string gauge"
  mt_reconcile_errors :: "string counter"
  mt_ready :: bool

definition new_metrics :: metrics where
  "new_metrics = \<lparr> mt_power_actions = Map.empty, mt_node_power = Map.empty, mt_pool_nodes = Map.empty,
     mt_pool_pending = Map.empty, mt_reconcile_errors = Map.empty, mt_ready = False \<rparr>"

definition inc :: "'k \<Rightarrow> 'k counter \<Rightarrow> 'k counter" where
  "inc k m = m(k \<mapsto> unwrap_or (m k) 0 + 1)"

definition metric_power_action :: "string \<Rightarrow> string \<Rightarrow> bool \<Rightarrow> metrics \<Rightarrow> metrics" where
  "metric_power_action node action ok m =
     m\<lparr> mt_power_actions := inc (node, action, if ok then ''success'' else ''error'') (mt_power_actions m) \<rparr>"

fun power_gauge :: "power_state \<Rightarrow> int" where
  "power_gauge PS_On = 1"
| "power_gauge PS_Off = 0"
| "power_gauge PS_Unknown = -1"

definition metric_node_power :: "string \<Rightarrow> power_state \<Rightarrow> metrics \<Rightarrow> metrics" where
  "metric_node_power node st m = m\<lparr> mt_node_power := (mt_node_power m)(node \<mapsto> power_gauge st) \<rparr>"

definition metric_pool :: "string \<Rightarrow> nat \<Rightarrow> nat \<Rightarrow> nat \<Rightarrow> metrics \<Rightarrow> metrics" where
  "metric_pool pool online nodes pending m =
     m\<lparr> mt_pool_nodes := (mt_pool_nodes m)((pool, ''online'') \<mapsto> int online, (pool, ''total'') \<mapsto> int nodes),
        mt_pool_pending := (mt_pool_pending m)(pool \<mapsto> int pending) \<rparr>"

definition metric_reconcile_error :: "string \<Rightarrow> metrics \<Rightarrow> metrics" where
  "metric_reconcile_error controller m = m\<lparr> mt_reconcile_errors := inc controller (mt_reconcile_errors m) \<rparr>"

definition set_ready :: "metrics \<Rightarrow> metrics" where
  "set_ready m = m\<lparr> mt_ready := True \<rparr>"

section \<open>The endpoints\<close>

definition readyz :: "metrics \<Rightarrow> nat" where
  "readyz m = (if mt_ready m then 200 else 503)"

text \<open>The answer to a GET: its status and body; the text encoder is a parameter, and failing to
  encode yields what was written before, here the empty text.\<close>

definition serve_get :: "(metrics \<Rightarrow> string option) \<Rightarrow> metrics \<Rightarrow> string \<Rightarrow> nat \<times> string" where
  "serve_get encode m path =
     (if path = ''/metrics'' then (200, unwrap_or (encode m) '''')
      else if path = ''/healthz'' then (200, ''ok'')
      else if path = ''/readyz'' then (readyz m, '''')
      else (404, ''''))"

section \<open>What the controllers record\<close>

text \<open>A power action counts in a dry run too.\<close>

definition act_metrics :: "rc_env \<Rightarrow> string \<Rightarrow> rs \<Rightarrow> metrics \<Rightarrow> metrics" where
  "act_metrics env action s = metric_power_action (node_name env) action (is_ok (fst (execute env action s)))"

definition node_error_policy :: "metrics \<Rightarrow> duration \<times> metrics" where
  "node_error_policy m = (NORMAL, metric_reconcile_error ''nodepowermanagementconfig'' m)"

definition pool_error_policy :: "metrics \<Rightarrow> duration \<times> metrics" where
  "pool_error_policy m = (INTERVAL, metric_reconcile_error ''nodescalingpool'' m)"

text \<open>A reconciliation of a pool sets the pool's gauges from the status it is about to store, once its
  decisions are carried out; the runtime asks the error policy when it fails.\<close>

definition pool_pass_metrics :: "pool_env \<Rightarrow> pool \<Rightarrow> metrics \<Rightarrow> metrics" where
  "pool_pass_metrics env pool m =
     (let old = unwrap_or (po_status pool) default_pool_status;
          warned = snd (first_time (pe_warned env) (po_name pool @ ''/deprecated'')
            (deprecation_warning (ps_scale_down (po_spec pool))));
          (st, warned) = check_preferred_nodes env pool warned old;
          p = plan_of (snapshot_of env pool old);
          (recent, new) = record_decisions (pt_recent_decisions st) (pl_decisions p) (pe_now env)
      in case carry_out env (po_name pool) (managed_machines env pool) new [] of
           (Inl _, _) \<Rightarrow> m
         | (Inr _, _) \<Rightarrow>
             (let st' = pool_status_after env pool p recent st in
              metric_pool (po_name pool) (pt_online_nodes st') (pt_total_nodes st') (pt_pending_pods st') m))"

definition pool_tick :: "pool_env \<Rightarrow> pool \<Rightarrow> metrics \<Rightarrow> duration \<times> metrics" where
  "pool_tick env pool m =
     (let m' = pool_pass_metrics env pool m in
      case pl_result (pool_reconcile env pool) of
        Inl _ \<Rightarrow> pool_error_policy m'
      | Inr requeue \<Rightarrow> (requeue, m'))"

text \<open>The gauge of a machine follows the reading of its interfaces; a machine none of whose interfaces
  can be built is left as it was.\<close>

definition machine_pass_metrics :: "node_env \<Rightarrow> npmc \<Rightarrow> metrics \<Rightarrow> metrics" where
  "machine_pass_metrics env mn m =
     (let spec = np_spec mn in
      case build_chain (ne_drivers env) spec of
        Inl _ \<Rightarrow> m
      | Inr chain \<Rightarrow>
          (let (identity, _) = identify (ne_cache env) (ne_cache_now env)
                 (np_name mn, unwrap_or (np_generation mn) 0) chain
                 (Option.bind (ne_nodes env (nm_node_name spec)) no_system_uuid)
           in metric_node_power (nm_node_name spec)
                (case fst (chain_power_state (disable_mismatched chain identity)) of
                   Inl _ \<Rightarrow> PS_Unknown
                 | Inr oc \<Rightarrow> oc_value oc) m))"

section \<open>What they count\<close>

lemma inc_get: "inc k m k' = (if k' = k then Some (unwrap_or (m k) 0 + 1) else m k')"
  by (simp add: inc_def)

text \<open>A counter is the number of times its labels were recorded, modulo 2^64.\<close>

lemma inc_many: "unwrap_or (foldl (\<lambda>m k. inc k m) m ks k) 0 = unwrap_or (m k) 0 + of_nat (count_list ks k)"
  by (induction ks arbitrary: m) (auto simp: inc_get)

definition action_labels :: "string \<times> string \<times> bool \<Rightarrow> string \<times> string \<times> string" where
  "action_labels a = (case a of (node, action, ok) \<Rightarrow> (node, action, if ok then ''success'' else ''error''))"

definition record_actions :: "(string \<times> string \<times> bool) list \<Rightarrow> metrics \<Rightarrow> metrics" where
  "record_actions as m = foldl (\<lambda>m (node, action, ok). metric_power_action node action ok m) m as"

lemma record_actions_counter:
  "mt_power_actions (record_actions as m) = foldl (\<lambda>c k. inc k c) (mt_power_actions m) (map action_labels as)"
  by (induction as arbitrary: m) (auto simp: record_actions_def metric_power_action_def action_labels_def)

lemma actions_counted:
  "unwrap_or (mt_power_actions (record_actions as new_metrics) (node, action, ''success'')) 0
   = of_nat (count_list as (node, action, True))"
proof -
  have labels: "count_list (map action_labels as) (node, action, ''success'') = count_list as (node, action, True)"
    by (induction as) (auto simp: action_labels_def split: if_splits)
  show ?thesis by (simp add: record_actions_counter inc_many labels new_metrics_def)
qed

text \<open>Only \<^verbatim>\<open>set_ready\<close> makes the operator ready, and nothing takes it back.\<close>

lemma ready_kept:
  "mt_ready (metric_power_action n a ok m) = mt_ready m" "mt_ready (metric_node_power n p m) = mt_ready m"
  "mt_ready (metric_pool q on t pend m) = mt_ready m" "mt_ready (metric_reconcile_error c m) = mt_ready m"
  "mt_ready (set_ready m)"
  by (simp_all add: metric_power_action_def metric_node_power_def metric_pool_def metric_reconcile_error_def
      set_ready_def)

text \<open>A dry run counts the actions it does not take as successes.\<close>

lemma dry_run_counts_success:
  assumes "rv_dry_run env"
  shows "act_metrics env action s m = metric_power_action (node_name env) action True m"
  by (simp add: act_metrics_def execute_def assms is_ok_def)

text \<open>The gauge keeps its last value while no interface of the machine can be built, although the
  status then says that the power state is unknown.\<close>

lemma gauge_kept_without_interfaces:
  assumes "build_chain (ne_drivers env) (np_spec mn) = Inl e"
    and "pr_written (reconcile_machine env mn) = Some st"
  shows "machine_pass_metrics env mn m = m \<and> st_power_state st = PS_Unknown"
  using assms by (auto simp: machine_pass_metrics_def reconcile_machine_def finish_def Let_def split: if_splits sum.splits)

text \<open>The gauges of a pool agree with the status it stores.\<close>

lemma pool_gauges_match_status:
  assumes "pl_written (pool_reconcile env pool) = Some st"
  shows "mt_pool_nodes (pool_pass_metrics env pool m) (po_name pool, ''online'') = Some (int (pt_online_nodes st))
    \<and> mt_pool_nodes (pool_pass_metrics env pool m) (po_name pool, ''total'') = Some (int (pt_total_nodes st))
    \<and> mt_pool_pending (pool_pass_metrics env pool m) (po_name pool) = Some (int (pt_pending_pods st))"
  using assms
  by (auto simp: pool_pass_metrics_def pool_reconcile_def metric_pool_def Let_def split: prod.splits sum.splits if_splits)

lemma pool_errors_counted:
  assumes "pl_result (pool_reconcile env pool) = Inl e"
  shows "fst (pool_tick env pool m) = INTERVAL
    \<and> mt_reconcile_errors (snd (pool_tick env pool m)) ''nodescalingpool''
        = Some (unwrap_or (mt_reconcile_errors m ''nodescalingpool'') 0 + 1)"
proof -
  have "mt_reconcile_errors (pool_pass_metrics env pool m) = mt_reconcile_errors m"
    by (auto simp: pool_pass_metrics_def metric_pool_def Let_def split: prod.splits sum.splits)
  with assms show ?thesis
    by (simp add: pool_tick_def pool_error_policy_def metric_reconcile_error_def inc_get Let_def)
qed

end
