(* ===== verification/Pass_Property.thy ===== *)
theory Pass_Property
  imports Machine_Phases
begin

text \<open>
  Properties of the status being written and of the log that survive a whole pass of the
  \<^verbatim>\<open>Reconciler\<close>.  The contract is stated once, over the fields the steps assign and the effects
  they log: the locale \<^verbatim>\<open>steady_property\<close> for the steps that leave the pods and the Node of the
  machine alone, and \<^verbatim>\<open>pass_property\<close>, which extends it, for all of them.
\<close>

section \<open>Disruptions\<close>

text \<open>What disturbs the workload of a running machine: evicting a pod and cordoning the Node.\<close>

fun disruptive :: "effect \<Rightarrow> bool" where
  "disruptive (E_Evict _ _) = True"
| "disruptive (E_NodePatch _ p) = (p = cordon_patch)"
| "disruptive _ = False"

abbreviation quiet :: "effect list \<Rightarrow> bool" where
  "quiet es \<equiv> filter disruptive es = []"

lemma other_patches: "uncordon_patch \<noteq> cordon_patch" "mark_powered_off t \<noteq> cordon_patch"
    "clear_powered_off node = Some p \<Longrightarrow> p \<noteq> cordon_patch"
  by (auto simp: uncordon_patch_def cordon_patch_def mark_powered_off_def clear_powered_off_def Let_def
      CORDONED_BY_ANNOTATION_def POWERED_OFF_ANNOTATION_def split: if_splits)

lemma quiet_api [simp]: "quiet (map E_Api calls)"
  by (induction calls) simp_all

lemma quiet_execute: "quiet (snd (execute env a s))"
  by (auto simp: execute_def split: prod.split sum.split)

section \<open>The contract\<close>

locale steady_property =
  fixes Q :: "npmc_status \<Rightarrow> effect list \<Rightarrow> bool"
  assumes keeps:
    "Q (st_phase_update f st) log = Q st log"
    "Q (st_phase_since_update f2 st) log = Q st log"
    "Q (st_message_update f3 st) log = Q st log"
    "Q (st_last_power_action_update f4 st) log = Q st log"
    "Q (st_standby_since_update f5 st) log = Q st log"
    "Q (st_standby_failed_at_update f6 st) log = Q st log"
    "Q (st_sleep_support_update f7 st) log = Q st log"
    "Q (st_forced_off_at_update f8 st) log = Q st log"
    "Q (st_drain_failed_at_update f9 st) log = Q st log"
    "Q (st_boot_failure_update f10 st) log = Q st log"
    "Q (st_powered_on_not_ready_since_update f11 st) log = Q st log"
    "Q (st_manual_power_on_update f12 st) log = Q st log"
    "Q (st_manual_power_off_update f13 st) log = Q st log"
    and released: "Q st log \<Longrightarrow> Q (st_scaling_decision_update (\<lambda>_. None) st) log"
    and logs_quietly: "Q st log \<Longrightarrow> quiet es \<Longrightarrow> Q st (log @ es)"
begin

abbreviation H :: "rs \<Rightarrow> bool" where
  "H s \<equiv> Q (rs_st s) (rs_log s)"

lemma H_upd: "(\<And>st. Q st (rs_log s) \<Longrightarrow> Q (f st) (rs_log s)) \<Longrightarrow> H s \<Longrightarrow> H (upd f s)"
  by (simp add: upd_def)

lemma H_emit: "H s \<Longrightarrow> quiet es \<Longrightarrow> H (emit es s)"
  by (simp add: emit_def logs_quietly)

lemma H_event: "H s \<Longrightarrow> H (event r n s)" "H s \<Longrightarrow> H (warning r n s)"
  by (simp_all add: event_def warning_def H_emit)

lemma H_message: "H s \<Longrightarrow> H (set_message m s)"
  by (simp add: set_message_def H_upd keeps)

lemma H_set_phase: "H s \<Longrightarrow> H (set_phase env p s)"
  by (simp add: set_phase_def H_upd keeps)

lemma H_patch_node: "(\<And>node p. f node = Some p \<Longrightarrow> p \<noteq> cordon_patch) \<Longrightarrow> H s \<Longrightarrow> H (snd (patch_node env f s))"
  by (auto simp: patch_node_def send_patch_def H_emit split: option.split)

lemma H_patches: "H s \<Longrightarrow> H (snd (patch_node env uncordon_if_ours s))"
    "H s \<Longrightarrow> H (snd (patch_node env clear_powered_off s))"
  by (rule H_patch_node; simp add: uncordon_if_ours_def other_patches split: if_splits)+

lemma H_announce: "H s \<Longrightarrow> H (announce_power_off env s)"
  by (simp add: announce_power_off_def send_patch_def H_emit other_patches)

lemma H_standby_failed: "H s \<Longrightarrow> H (standby_failed env why s)"
  unfolding standby_failed_def by (intro H_event H_upd) (simp_all add: keeps)

lemma H_note_wake: "H s \<Longrightarrow> H (note_wake env s)"
  by (simp add: note_wake_def) (auto simp: keeps intro!: H_upd H_standby_failed)

lemma H_act: "H s \<Longrightarrow> H (snd (act env a s))"
proof -
  assume "H s"
  obtain r es where e: "execute env a s = (r, es)" by fastforce
  with quiet_execute [of env a s] have "H (emit es s)" using \<open>H s\<close> by (simp add: H_emit)
  then have "H (upd (record_action env a r \<circ> standby_mark env a) (emit es s))"
    by (intro H_upd) (simp_all add: record_action_def standby_mark_def keeps)
  then show ?thesis by (auto simp: act_def e report_action_def intro!: H_event H_message split: sum.split)
qed

lemma H_advance_probe: "H s \<Longrightarrow> H (snd (advance_probe env s))"
  by (auto simp: advance_probe_def H_emit keeps intro!: H_upd H_event split: option.split prod.split)

lemmas H_intros = H_event H_message H_set_phase H_patches H_announce H_standby_failed H_note_wake H_act H_advance_probe

section \<open>The steps that leave the pods and the Node alone\<close>

lemma H_act_power_on: "H s \<Longrightarrow> H (act_power_on env s)"
  by (auto simp: act_power_on_def case_prod_beta intro!: H_set_phase H_act)

lemma H_release: "H s \<Longrightarrow> H (release_failed_power_on env s)"
  unfolding release_failed_power_on_def Let_def
  by (simp only: split: if_split) (intro conjI impI H_intros H_upd; simp add: released keeps)

lemma H_is_online: "H s \<Longrightarrow> H (snd (is_online env s))"
proof -
  assume h: "H s"
  obtain r s1 where 1: "patch_node env uncordon_if_ours s = (r, s1)" by fastforce
  obtain q s2 where 2: "patch_node env clear_powered_off s1 = (q, s2)" by fastforce
  have "H s1" "H s2" using H_patches(1) [OF h, of env] H_patches(2) [of s1 env] 1 2 by simp_all
  moreover have "H (upd (\<lambda>st. st\<lparr> st_forced_off_at := None, st_standby_since := None, st_message := None \<rparr>) (set_phase env Ph_On s'))"
    if "H s'" for s'
    using that by (intro H_upd H_set_phase) (simp_all add: keeps)
  ultimately show ?thesis
    by (auto simp: is_online_def 1 2 Let_def intro!: H_event H_advance_probe split: sum.split)
qed

lemma H_keep_powering_on: "H s \<Longrightarrow> H (keep_powering_on env s)"
  by (auto simp: keep_powering_on_def Let_def intro!: H_intros)

lemma H_ensure_on: "H s \<Longrightarrow> H (snd (ensure_on env s))"
proof -
  assume h: "H s"
  have "H (snd (case patch_node env uncordon_if_ours s of
      (Inl e, s) \<Rightarrow> (Inl e, s) | (Inr _, s) \<Rightarrow> (Inr FAST, set_phase env Ph_PoweringOn s)))"
    using H_patches(1) [OF h, of env] by (auto intro!: H_set_phase split: prod.split sum.split)
  moreover have "H (act_power_on env (emit (map E_Api calls) s))" for calls
    using h by (intro H_act_power_on H_emit) simp_all
  ultimately show ?thesis
    using h unfolding ensure_on_def Let_def
    by (simp add: H_is_online H_release H_keep_powering_on H_act_power_on H_message)
qed

lemma H_is_offline: "H s \<Longrightarrow> H (is_offline env s)"
  by (auto simp: is_offline_def Let_def keeps intro!: H_upd H_set_phase H_event)

lemma H_keep_powering_off: "H s \<Longrightarrow> H (keep_powering_off env s)"
  unfolding keep_powering_off_def Let_def
  by (simp only: split: if_split) (intro conjI impI H_intros H_upd; simp add: keeps)

lemma H_observe: "H s \<Longrightarrow> H (snd (observe env s))"
  by (auto simp: observe_def Let_def intro!: H_set_phase)

lemma H_manual_change: "H s \<Longrightarrow> H (on_manual_change env c s)"
  by (cases c) (auto simp: on_manual_change_def Let_def released keeps intro!: H_upd H_event)

lemma H_on_boot_failed: "H s \<Longrightarrow> H (on_boot_failed env s)"
  unfolding on_boot_failed_def Let_def
  by (simp only: split: if_split) (intro conjI impI H_intros H_upd; simp add: released keeps)

lemma H_on_boot: "H s \<Longrightarrow> H (snd (on_boot env ev s))"
  by (cases ev) (auto simp: on_boot_def H_on_boot_failed Let_def keeps intro!: H_upd H_intros split: option.split)

lemma Q_track_boot: "Q st log \<Longrightarrow> Q (fst (track_boot st now t)) log"
  by (simp add: track_boot_def Let_def keeps)

lemma Q_clear_manual_on: "Q st log \<Longrightarrow> Q (clear_manual_on c st) log"
  by (simp add: clear_manual_on_def keeps)

lemma H_steer:
  assumes "H s" and "rv_node env \<noteq> None \<Longrightarrow> consistent
      \<Longrightarrow> managed_target (nm_power_policy (rv_spec env)) (rs_st s) (rv_manual_policy env) = Some Target_Off
      \<Longrightarrow> H (snd (ensure_off env s))"
  shows "H (snd (steer env consistent s))"
proof (cases "rv_node env = None \<or> \<not> consistent")
  case True
  then obtain m where "snd (steer env consistent s) = snd (observe env (set_message m s))"
    using steer_refuses [OF True, of s] by auto
  then show ?thesis using assms(1) by (simp add: H_observe H_message)
next
  case False
  then show ?thesis
    using assms H_ensure_on H_observe by (auto simp: steer_drives split: option.split power_target.split)
qed

end

text \<open>The state in which a pass decides where to drive the machine, once changes made by others
  and boots are dealt with, and whether it goes on at all.\<close>

definition before_steering :: "rc_env \<Rightarrow> npmc_status \<Rightarrow> rs \<Rightarrow> duration option \<times> rs" where
  "before_steering env old s =
     (let c = detect_manual_change old (rs_st s) (rv_now env) (rv_boot_timeout env)
            (lc_shutdown_timeout_seconds (lifecycle env));
          t = track_boot (clear_manual_on c (rs_st s)) (rv_now env) (rv_boot_timeout env)
      in on_boot env (snd t) (on_manual_change env c (s\<lparr> rs_st := fst t \<rparr>)))"

lemma drive_before_steering:
  "drive env old consistent s =
     (case before_steering env old s of (Some r, s') \<Rightarrow> (Inr r, s') | (None, s') \<Rightarrow> steer env consistent s')"
  by (simp add: drive_eq before_steering_def Let_def case_prod_beta)

context steady_property begin

lemma H_before_steering: "H s \<Longrightarrow> H (snd (before_steering env old s))"
  unfolding before_steering_def Let_def
  by (intro H_on_boot H_manual_change) (simp add: Q_track_boot Q_clear_manual_on)

lemma H_drive:
  assumes "H s" and "\<And>s'. before_steering env old s = (None, s') \<Longrightarrow> rv_node env \<noteq> None \<Longrightarrow> consistent
      \<Longrightarrow> managed_target (nm_power_policy (rv_spec env)) (rs_st s') (rv_manual_policy env) = Some Target_Off
      \<Longrightarrow> H s' \<Longrightarrow> H (snd (ensure_off env s'))"
  shows "H (snd (drive env old consistent s))"
proof -
  obtain q s' where b: "before_steering env old s = (q, s')" by fastforce
  then have h: "H s'" using H_before_steering [OF assms(1), of env old] by simp
  show ?thesis
  proof (cases q)
    case None
    then show ?thesis using assms(2) [of s'] b h by (auto simp: drive_before_steering intro!: H_steer)
  qed (simp add: drive_before_steering b h)
qed

end

section \<open>All the steps\<close>

text \<open>The steps of a drain that evict nothing also hand the decision back; the others cordon and evict.\<close>

locale leaving_property = steady_property +
  assumes aborted: "Q st log \<Longrightarrow> sdn_target d = Target_On \<Longrightarrow> Q (st_scaling_decision_update (\<lambda>_. Some d) st) log"
begin

lemma H_power_off: "H s \<Longrightarrow> H (power_off env s)"
  by (auto simp: power_off_def Let_def intro!: H_set_phase H_act H_announce)

lemma H_drained: "H s \<Longrightarrow> H (snd (drained env s))"
  using H_advance_probe [of s env]
  by (auto simp: drained_def Let_def intro!: H_power_off H_message split: prod.split)

lemma H_drain_failed: "H s \<Longrightarrow> H (snd (drain_failed env m s))"
proof -
  assume h: "H s"
  define note_text where "note_text = ''drain timed out after '' @ show_int (as_i64 (lc_drain_timeout_seconds (lifecycle env)))
            @ ''s: '' @ m"
  define s1 where "s1 = upd (\<lambda>st. st\<lparr> st_message := Some note_text, st_drain_failed_at := Some (rv_now env) \<rparr>)
      (warning ''DrainFailed'' note_text s)"
  define s2 where "s2 = upd (\<lambda>st. st\<lparr> st_scaling_decision := Some (abort_decision env st) \<rparr>) s1"
  have s1: "H s1" unfolding s1_def using h by (intro H_upd H_event) (simp_all add: keeps)
  then have s2: "H s2" unfolding s2_def by (intro H_upd aborted) (simp_all add: abort_decision_def)
  obtain r s3 where p: "patch_node env uncordon_if_ours s2 = (r, s3)" by fastforce
  have s3: "H s3" using H_patches(1) [OF s2, of env] p by simp
  have t: "H (upd (\<lambda>st. st\<lparr> st_phase_since := Some (rv_now env) \<rparr>) s1)" using s1 by (intro H_upd) (simp_all add: keeps)
  have "snd (drain_failed env m s) = (if nm_power_policy (rv_spec env) = Auto
      then (case r of Inl e \<Rightarrow> s3 | Inr _ \<Rightarrow> set_phase env Ph_On s3)
      else upd (\<lambda>st. st\<lparr> st_phase_since := Some (rv_now env) \<rparr>) s1)"
    unfolding drain_failed_def Let_def note_text_def [symmetric] s1_def [symmetric] s2_def [symmetric] p
    by (simp split: sum.split)
  then show ?thesis using s3 t by (auto intro!: H_set_phase split: sum.split)
qed

end

locale pass_property = leaving_property +
  assumes logs: "Q st log \<Longrightarrow> Q st (log @ es)"
begin

lemma H_emit_any: "H s \<Longrightarrow> H (emit es s)"
  by (simp add: emit_def logs)

lemma H_patch_any: "H s \<Longrightarrow> H (snd (patch_node env f s))"
  by (simp add: patch_node_def send_patch_def H_emit_any split: option.split)

lemma H_drain_pods: "H s \<Longrightarrow> H (snd (snd (drain_pods pods s)))"
  by (induction pods s rule: drain_pods.induct)
     (auto simp: H_emit_any split: drain_class.split prod.split)

lemma H_drain: "H s \<Longrightarrow> H (snd (drain env s))"
proof -
  assume "H s"
  obtain r b s1 where d: "drain_pods (pods_on (rv_pods env) (node_name env)) s = (r, b, s1)"
    by (metis prod_cases3)
  with H_drain_pods [OF \<open>H s\<close>, of "pods_on (rv_pods env) (node_name env)"] have "H s1" by simp
  then show ?thesis
    by (auto simp: drain_def d Let_def H_drained H_drain_failed intro!: H_power_off H_event H_message)
qed

lemma H_start_drain: "H s \<Longrightarrow> H (snd (start_drain env s))"
  using H_patch_any [of s env cordon]
  by (auto simp: start_drain_def intro!: H_set_phase H_event H_message split: option.split prod.split sum.split)

lemma H_ensure_off: "H s \<Longrightarrow> H (snd (ensure_off env s))"
  using H_note_wake [of s env]
  by (auto simp: ensure_off_def Let_def H_is_offline H_keep_powering_off H_drain H_start_drain split: phase.split)

lemma H_pass: "H s \<Longrightarrow> H (snd (drive env old consistent s))"
  by (rule H_drive) (auto intro: H_ensure_off)

end

end
