(* ===== verification/Machine_Status.thy ===== *)
theory Machine_Status
  imports Pass_Property Metrics
begin

text \<open>
  What the Reconciler leaves alone in the status of a machine: its observations, its pools and its
  conditions are those of the gates.  A field of the status that no step assigns keeps its value
  through a whole pass, an instance of \<^verbatim>\<open>pass_property\<close> for any such field; this is used for the
  well-formedness of what is stored.
\<close>

section \<open>Fields that no step assigns\<close>

locale observed_field =
  fixes g :: "npmc_status \<Rightarrow> 'a"
  assumes keeps [simp]:
    "g (st_phase_update f st) = g st"
    "g (st_phase_since_update f2 st) = g st"
    "g (st_message_update f3 st) = g st"
    "g (st_last_power_action_update f4 st) = g st"
    "g (st_standby_since_update f5 st) = g st"
    "g (st_standby_failed_at_update f6 st) = g st"
    "g (st_sleep_support_update f7 st) = g st"
    "g (st_forced_off_at_update f8 st) = g st"
    "g (st_drain_failed_at_update f9 st) = g st"
    "g (st_boot_failure_update f10 st) = g st"
    "g (st_powered_on_not_ready_since_update f11 st) = g st"
    "g (st_scaling_decision_update f12 st) = g st"
    "g (st_manual_power_on_update f13 st) = g st"
    "g (st_manual_power_off_update f14 st) = g st"

text \<open>That such a field has a given value survives every step, so the field survives a pass.\<close>

sublocale observed_field \<subseteq> kept: pass_property "\<lambda>st log. g st = c" for c
  by unfold_locales simp_all

context observed_field begin

lemma G_drive: "g (rs_st (snd (drive env old consistent s))) = g (rs_st s)"
  using kept.H_pass [of s "g (rs_st s)" env old consistent] by simp

end

section \<open>What is observed\<close>

definition observed :: "npmc_status \<Rightarrow> condition list \<times> power_state \<times> bool \<times> string list \<times> string option \<times> int btmap" where
  "observed st = (st_conditions st, st_power_state st, st_node_ready st, st_pools st, st_pool st, st_extended_resources st)"

interpretation seen: observed_field observed
  by unfold_locales (simp_all add: observed_def)

text \<open>The status that the gates leave before the machine is driven.\<close>

definition gate_outcome :: "node_env \<Rightarrow> npmc \<Rightarrow> npmc_status" where
  "gate_outcome env mn =
     (let old = unwrap_or (np_status mn) default_npmc_status;
          spec = np_spec mn;
          st = gated_status env spec old
      in case build_chain (ne_drivers env) spec of
           Inl _ \<Rightarrow> st\<lparr> st_power_state := PS_Unknown \<rparr>
         | Inr chain \<Rightarrow>
             (let identity = fst (identify (ne_cache env) (ne_cache_now env)
                     (np_name mn, unwrap_or (np_generation mn) 0) chain
                     (Option.bind (ne_nodes env (nm_node_name spec)) no_system_uuid));
                  st = fst (gate_identity (ne_now env) spec old identity st)
              in case fst (chain_power_state (disable_mismatched chain identity)) of
                   Inl _ \<Rightarrow> st\<lparr> st_power_state := PS_Unknown \<rparr>
                 | Inr oc \<Rightarrow>
                     (let st = st\<lparr> st_power_state := oc_value oc, st_interface_warnings := oc_failures oc \<rparr> in
                      fst (gate_reading (ne_now env) (reading_consistent env spec st) old st))))"

lemma reconcile_with_observed:
  assumes "pr_written (reconcile_with env spec old st chain log cache) = Some st'"
  shows "observed st' = observed (case fst (chain_power_state chain) of
      Inl _ \<Rightarrow> st\<lparr> st_power_state := PS_Unknown \<rparr>
    | Inr oc \<Rightarrow> (let st = st\<lparr> st_power_state := oc_value oc, st_interface_warnings := oc_failures oc \<rparr> in
        fst (gate_reading (ne_now env) (reading_consistent env spec st) old st)))"
proof (cases "fst (chain_power_state chain)")
  case (Inl e)
  with assms show ?thesis by (auto simp: reconcile_with_def observed_def dest!: finish_written)
next
  case (Inr oc)
  let ?st = "st\<lparr> st_power_state := oc_value oc, st_interface_warnings := oc_failures oc \<rparr>"
  let ?c = "reading_consistent env spec ?st"
  let ?g = "gate_reading (ne_now env) ?c old ?st"
  let ?s = "\<lparr> rs_st = fst ?g, rs_log = log @ snd ?g \<rparr>"
  let ?d = "drive (pass_env env spec chain (fst ?g)) old ?c ?s"
  have "st' = rs_st (snd ?d)"
    using assms by (auto simp: reconcile_with_def Inr Let_def case_prod_beta dest: finish_written split: sum.splits)
  then show ?thesis
    using seen.G_drive [of "pass_env env spec chain (fst ?g)" old ?c ?s] by (simp add: Inr Let_def)
qed

lemma reconcile_observed:
  assumes "ne_object env = Inr (Some mn)" "pr_written (reconcile env) = Some st"
  shows "observed st = observed (gate_outcome env mn)"
proof (cases "build_chain (ne_drivers env) (np_spec mn)")
  case (Inl e)
  with assms show ?thesis
    by (auto simp: reconcile_def reconcile_machine_def gate_outcome_def Let_def observed_def dest!: finish_written)
next
  case (Inr chain)
  let ?old = "unwrap_or (np_status mn) default_npmc_status"
  let ?i = "identify (ne_cache env) (ne_cache_now env) (np_name mn, unwrap_or (np_generation mn) 0) chain
      (Option.bind (ne_nodes env (nm_node_name (np_spec mn))) no_system_uuid)"
  let ?g = "gate_identity (ne_now env) (np_spec mn) ?old (fst ?i) (gated_status env (np_spec mn) ?old)"
  have "pr_written (reconcile_with env (np_spec mn) ?old (fst ?g) (disable_mismatched chain (fst ?i))
      (snd ?g) (snd ?i)) = Some st"
    using assms by (simp add: reconcile_def reconcile_machine_def Inr Let_def case_prod_beta)
  from reconcile_with_observed [OF this] show ?thesis by (simp add: gate_outcome_def Inr Let_def)
qed

section \<open>Well-formed statuses\<close>

text \<open>Conditions are keyed by their type, pools are listed in order with the column that joins them,
  and the extended resources are a proper map.\<close>

definition status_wf :: "npmc_status \<Rightarrow> bool" where
  "status_wf st =
     (distinct (map c_type (st_conditions st)) \<and> sorted (st_pools st)
      \<and> st_pool st = (if st_pools st = [] then None else Some (join '','' (st_pools st)))
      \<and> bt_ok (st_extended_resources st))"

lemma status_wf_observed: "observed st = observed st' \<Longrightarrow> status_wf st = status_wf st'"
  by (simp add: status_wf_def observed_def)

lemma status_wf_condition: "status_wf st \<Longrightarrow> status_wf (status_set_condition st ty status reason m now)"
  by (simp add: status_wf_def status_set_condition_def set_condition_distinct)

lemma status_wf_power [simp]: "status_wf (st\<lparr> st_power_state := p \<rparr>) = status_wf st"
    "status_wf (st\<lparr> st_interface_warnings := ws \<rparr>) = status_wf st"
    "status_wf (st\<lparr> st_power_state := p, st_interface_warnings := ws \<rparr>) = status_wf st"
  by (simp_all add: status_wf_def)

lemma status_wf_gates:
  "status_wf st \<Longrightarrow> status_wf (fst (gate_identity now spec old results st))"
  "status_wf st \<Longrightarrow> status_wf (fst (gate_reading now c old st))"
  by (simp_all add: gate_identity_def gate_reading_def status_wf_condition Let_def)

lemma bt_ok_fold_amounts:
  "bt_ok m \<Longrightarrow> bt_ok (foldl (\<lambda>m (name, amount). if 0 < amount then bt_insert name amount m else m) m kvs)"
  by (induction kvs arbitrary: m) (auto simp: bt_simps)

lemma resolve_sorted: "sorted (membership_pools (resolve labels pools))"
  by (cases labels) (simp_all add: membership_pools_resolve, simp add: resolve_def membership_pools_def)

lemma gate_node_wf:
  assumes "distinct (map c_type (st_conditions st))" "bt_ok (st_extended_resources st)"
  shows "distinct (map c_type (st_conditions (gate_node now spec node st)))
    \<and> bt_ok (st_extended_resources (gate_node now spec node st))"
  using assms
  by (cases node) (simp_all add: gate_node_def note_node_def status_set_condition_def set_condition_distinct
      bt_ok_fold_amounts Let_def)

lemma gate_pools_fields:
  "st_pools (gate_pools now m st) = membership_pools m"
  "st_pool (gate_pools now m st) = (if membership_pools m = [] then None else Some (join '','' (membership_pools m)))"
  "st_extended_resources (gate_pools now m st) = st_extended_resources st"
  by (cases m; simp add: gate_pools_def membership_condition_def status_set_condition_def Let_def)+

lemma gate_pools_conditions:
  "distinct (map c_type (st_conditions st)) \<Longrightarrow> distinct (map c_type (st_conditions (gate_pools now m st)))"
  by (cases m) (simp_all add: gate_pools_def membership_condition_def status_set_condition_def
      set_condition_distinct Let_def)

lemma status_wf_gated:
  assumes "distinct (map c_type (st_conditions old))" "bt_ok (st_extended_resources old)"
  shows "status_wf (gated_status env spec old)"
  using gate_node_wf [OF assms]
  by (simp add: status_wf_def gated_status_def Let_def gate_pools_fields gate_pools_conditions resolve_sorted)

text \<open>C34: Whatever status a reconciliation of a machine stores is well formed: one condition per
  type, the machine's pools in order and joined in the printed column, a proper map of extended
  resources.  Only the conditions and the extended resources of the status before matter.\<close>

theorem stored_status_well_formed:
  assumes "ne_object env = Inr (Some mn)" and "pr_written (reconcile env) = Some st"
    and "distinct (map c_type (st_conditions (unwrap_or (np_status mn) default_npmc_status)))"
    and "bt_ok (st_extended_resources (unwrap_or (np_status mn) default_npmc_status))"
  shows "status_wf st"
proof -
  have "status_wf (gate_outcome env mn)"
    using status_wf_gated [OF assms(3,4), of env "np_spec mn"]
    by (auto simp: gate_outcome_def Let_def status_wf_gates split: sum.split)
  then show ?thesis using status_wf_observed [OF reconcile_observed [OF assms(1,2)]] by simp
qed

lemma stored_status_well_formed_witness:
  "\<exists>st. pr_written (reconcile (sample_node_env AlwaysOff PS_On (Some (sample_node ''True'')) [] default_npmc_status)) = Some st
     \<and> status_wf st"
proof -
  let ?env = "sample_node_env AlwaysOff PS_On (Some (sample_node ''True'')) [] default_npmc_status"
  let ?mn = "\<lparr> np_name = ''m1'', np_generation = Some 1, np_spec = sample_spec AlwaysOff,
      np_status = Some default_npmc_status \<rparr>"
  have "map_option st_phase (pr_written (reconcile ?env)) = Some Ph_Draining" by code_simp
  then obtain st where st: "pr_written (reconcile ?env) = Some st" by auto
  have "ne_object ?env = Inr (Some ?mn)" by (simp add: sample_node_env_def)
  from stored_status_well_formed [OF this st] st show ?thesis
    by (simp add: default_npmc_status_def)
qed

section \<open>The stored status says what was read\<close>

lemma gate_fields [simp]:
  "st_power_state (fst (gate_reading now c old st)) = st_power_state st"
  "st_node_ready (fst (gate_reading now c old st)) = st_node_ready st"
  "st_pools (fst (gate_reading now c old st)) = st_pools st"
  "st_power_state (fst (gate_identity now spec old results st)) = st_power_state st"
  "st_node_ready (fst (gate_identity now spec old results st)) = st_node_ready st"
  "st_pools (fst (gate_identity now spec old results st)) = st_pools st"
  by (simp_all add: gate_reading_def gate_identity_def status_set_condition_def Let_def)

lemma gated_fields:
  "st_node_ready (gated_status env spec old) = is_some_and (ne_nodes env (nm_node_name spec)) node_ready"
  "st_pools (gated_status env spec old)
     = membership_pools (resolve (map_option no_labels (ne_nodes env (nm_node_name spec))) (ne_pools env))"
proof -
  have "st_node_ready (gate_pools now m st) = st_node_ready st" for now m st
    by (cases m) (simp_all add: gate_pools_def membership_condition_def status_set_condition_def Let_def)
  then show "st_node_ready (gated_status env spec old) = is_some_and (ne_nodes env (nm_node_name spec)) node_ready"
    by (simp add: gated_status_def gate_node_def note_node_def status_set_condition_def Let_def split: option.split)
qed (simp add: gated_status_def gate_pools_fields Let_def)

text \<open>The power state stored is the reading, the readiness that of the Node in the cache, and the
  pools those that select its labels, whatever the pass did to the machine.\<close>

lemma stored_status_is_observed:
  assumes "ne_object env = Inr (Some mn)" and "pr_written (reconcile env) = Some st"
  shows "st_node_ready st = is_some_and (ne_nodes env (nm_node_name (np_spec mn))) node_ready
    \<and> st_pools st = membership_pools
        (resolve (map_option no_labels (ne_nodes env (nm_node_name (np_spec mn)))) (ne_pools env))"
  using reconcile_observed [OF assms]
  by (auto simp: observed_def gate_outcome_def Let_def gated_fields split: sum.splits)

text \<open>The gauge of a machine whose interfaces can be built shows the stored power state.\<close>

lemma gauge_matches_status:
  assumes "ne_object env = Inr (Some mn)" and "pr_written (reconcile env) = Some st"
    and "build_chain (ne_drivers env) (np_spec mn) = Inr chain"
  shows "mt_node_power (machine_pass_metrics env mn m) (nm_node_name (np_spec mn))
    = Some (power_gauge (st_power_state st))"
  using reconcile_observed [OF assms(1,2)]
  by (auto simp: observed_def gate_outcome_def machine_pass_metrics_def metric_node_power_def assms(3) Let_def
      case_prod_beta split: sum.splits)

end
