(* ===== verification/Pool_Status.thy ===== *)
theory Pool_Status
  imports Pool_Safety
begin

text \<open>
  The status a pool stores is well formed: its lists are ordered and about its own machines, its
  maps are proper maps, its conditions have one entry per type and the history is bounded.
\<close>

definition pool_status_wf :: "pool_status \<Rightarrow> bool" where
  "pool_status_wf st =
     (sorted (pt_members st) \<and> sorted (pt_releasable st) \<and> bt_ok (pt_needed st) \<and> bt_ok (pt_unneeded_since st)
      \<and> distinct (map c_type (pt_conditions st)) \<and> length (pt_recent_decisions st) \<le> MAX_RECENT_DECISIONS
      \<and> set (pt_releasable st) \<union> set (bt_keys (pt_needed st)) \<union> set (bt_keys (pt_unneeded_since st))
          \<subseteq> set (pt_members st))"

section \<open>The plan's part\<close>

lemma names_insert: "fst ` set (bt_insert k v m) = insert k (fst ` set m)"
  using bt_keys_insert [of k v m] by simp

lemma keys_collect: "fst ` set (bt_collect kvs) = fst ` set kvs"
proof -
  have "fst ` set (foldl (\<lambda>m (k, v). bt_insert k v m) m kvs) = fst ` set m \<union> fst ` set kvs" for m :: "'a btmap"
  proof (induction kvs arbitrary: m)
    case (Cons kv kvs)
    show ?case by (cases kv) (simp add: Cons.IH names_insert)
  qed simp
  then show ?thesis by (simp add: bt_collect_def)
qed

lemma fold_booting:
  "bt_ok n \<Longrightarrow> bt_ok (foldl (\<lambda>n m. bt_insert (m_name m) why n) n ms)"
  "fst ` set (foldl (\<lambda>n m. bt_insert (m_name m) why n) n ms) = fst ` set n \<union> m_name ` set ms"
  by (induction ms arbitrary: n) (simp_all add: bt_simps names_insert)

lemma plan_maps_ok: "sorted (plan_releasable s)" "bt_ok (plan_needed s)" "bt_ok (plan_unneeded s)"
  by (simp_all add: plan_releasable_def plan_needed_def plan_unneeded_def fold_booting bt_simps)

lemma plan_about_members:
  "set (plan_releasable s) \<union> set (bt_keys (plan_needed s)) \<union> set (bt_keys (plan_unneeded s))
     \<subseteq> m_name ` set (sn_members s)"
proof -
  have needed: "fst ` set (plan_needed s)
      = fst ` set (filter_map (\<lambda>m. map_option (\<lambda>why. (m_name m, why)) (held s m)) (candidates s))
        \<union> m_name ` set (filter (\<lambda>m. m_state m = Booting) (sn_members s))"
    unfolding plan_needed_def fold_booting(2) keys_collect ..
  have unneeded: "fst ` set (plan_unneeded s) = m_name ` set (filter (\<lambda>m. busy_note s m = None) (candidates s))"
    by (simp add: plan_unneeded_def keys_collect image_image)
  have held: "fst ` set (filter_map (\<lambda>m. map_option (\<lambda>why. (m_name m, why)) (held s m)) (candidates s))
      \<subseteq> m_name ` set (sn_members s)"
    by (auto simp: candidate_iff dest!: in_filter_map)
  show ?thesis
    unfolding set_map needed unneeded using held
    by (auto simp: plan_releasable_def candidate_iff)
qed

section \<open>The stored status\<close>

lemma check_preferred_distinct:
  "distinct (map c_type (pt_conditions st)) \<Longrightarrow>
     distinct (map c_type (pt_conditions (fst (check_preferred_nodes env pool warned st))))"
  by (auto simp: check_preferred_nodes_def set_condition_distinct Let_def distinct_map_filter split: prod.split)

lemma record_decisions_bound: "length (fst (record_decisions recent ds now)) \<le> MAX_RECENT_DECISIONS"
  by (auto simp: record_decisions_def split: prod.split)

lemma snapshot_names: "m_name ` set (sn_members (snapshot_of env pool old)) \<subseteq> np_name ` set (managed_machines env pool)"
  by (auto simp: snapshot_of_def dest!: in_filter_map build_member_name)

lemma stored_pool_status_well_formed:
  assumes "pl_written (pool_reconcile env pool) = Some st"
    and "distinct (map c_type (pt_conditions (unwrap_or (po_status pool) default_pool_status)))"
  shows "pool_status_wf st"
proof -
  let ?old = "unwrap_or (po_status pool) default_pool_status"
  let ?w = "snd (first_time (pe_warned env) (po_name pool @ ''/deprecated'')
            (deprecation_warning (ps_scale_down (po_spec pool))))"
  let ?st = "fst (check_preferred_nodes env pool ?w ?old)"
  let ?s = "snapshot_of env pool ?old"
  let ?r = "fst (record_decisions (pt_recent_decisions ?st) (pl_decisions (plan_of ?s)) (pe_now env))"
  have st: "st = pool_status_after env pool (plan_of ?s) ?r ?st"
    using assms(1) by (auto simp: pool_reconcile_def Let_def case_prod_beta split: sum.splits if_splits)
  have "set (plan_releasable ?s) \<union> set (bt_keys (plan_needed ?s)) \<union> set (bt_keys (plan_unneeded ?s))
      \<subseteq> np_name ` set (managed_machines env pool)"
    using plan_about_members [of ?s] snapshot_names [of env pool ?old] by blast
  then show ?thesis
    using check_preferred_distinct [OF assms(2)] record_decisions_bound
    by (simp add: st pool_status_wf_def pool_status_after_def plan_sel plan_maps_ok Let_def)
qed

end
