(* ===== verification/Commands.thy ===== *)
theory Commands
  imports Webhook Catalog Metrics
begin

text \<open>
  \<^verbatim>\<open>main.rs\<close>: the subcommands and how the operator starts and stops.  Parsing the command line
  (clap), connecting to Kubernetes, filling the caches and running the controllers (kube) are
  parameters; what a subcommand prints and sends is returned in order.  Errors of \<^verbatim>\<open>anyhow\<close> are
  their messages, the outermost context first.
\<close>

section \<open>Arguments\<close>

record driver_args =
  da_namespace :: string
  da_op_timeout_seconds :: nat
  da_shutdown_image :: "string option"
  da_relay_image :: string

record webhook_args =
  wa_webhook_addr :: "socket_addr option"
  wa_webhook_service :: string
  wa_webhook_service_port :: int
  wa_webhook_secret :: string
  wa_webhook_config_name :: string
  wa_webhook_owner_cluster_role :: "string option"

datatype power_verb = Verb_status | Verb_on | Verb_off | Verb_force_off

definition shutdown_image_of :: "driver_args \<Rightarrow> string" where
  "shutdown_image_of args =
     unwrap_or (case da_shutdown_image args of Some i \<Rightarrow> if i \<noteq> '''' then Some i else None | None \<Rightarrow> None)
       (da_relay_image args)"

text \<open>The context of the drivers; decoding, the HTTP client and the Secrets come with \<open>se\<close> and
  \<open>secrets\<close>, the settings from the arguments.\<close>

definition settings_for :: "driver_settings \<Rightarrow> driver_args \<Rightarrow> driver_settings" where
  "settings_for se args = se\<lparr> se_op_timeout := da_op_timeout_seconds args,
     se_shutdown_image := shutdown_image_of args, se_relay_image := da_relay_image args \<rparr>"

definition driver_context_for ::
    "driver_settings \<Rightarrow> devices \<Rightarrow> (string \<Rightarrow> string \<Rightarrow> string + secret option) \<Rightarrow> driver_args \<Rightarrow> driver_context" where
  "driver_context_for se de secrets args =
     \<lparr> cx_namespace = da_namespace args, cx_secrets = secrets (da_namespace args),
       cx_catalog = catalog (settings_for se args) de, cx_op_timeout = da_op_timeout_seconds args \<rparr>"

section \<open>The power subcommand\<close>

datatype printed = Out string | Err string

record power_run =
  pw_exit :: "string list + unit"
  pw_output :: "printed list"
  pw_sent :: "(string \<times> power_verb) list"

text \<open>A driver is called without a timeout: \<^verbatim>\<open>None\<close> when the call never ends.\<close>

definition unbounded :: "'a answer \<Rightarrow> (string + 'a) option" where
  "unbounded a = (if an_millis a < NEVER then Some (an_result a) else None)"

fun driver_verb :: "power_verb \<Rightarrow> driver \<Rightarrow> unit answer" where
  "driver_verb Verb_on d = dv_power_on d"
| "driver_verb Verb_off d = dv_power_off d False"
| "driver_verb Verb_force_off d = dv_power_off d True"
| "driver_verb Verb_status d = \<lparr> an_millis = an_millis (dv_power_state d),
     an_result = map_sum (\<lambda>e. e) (\<lambda>_. ()) (an_result (dv_power_state d)) \<rparr>"

definition status_line :: "string \<Rightarrow> power_state \<Rightarrow> string \<Rightarrow> printed" where
  "status_line name st via = Out (name @ '': '' @ show_power_state st @ '' (via '' @ via @ '')'')"

text \<open>\<^verbatim>\<open>--via\<close>: one interface, by its label.\<close>

definition power_via :: "driver_context \<Rightarrow> npmc \<Rightarrow> string \<Rightarrow> power_verb \<Rightarrow> string \<Rightarrow> power_run option" where
  "power_via ctx mn name verb label =
     (case find (\<lambda>i. interface_label i = label) (nm_power_interfaces (np_spec mn)) of
        None \<Rightarrow> Some \<lparr> pw_exit = Inl [''NodePowerManagementConfig '' @ name @ '' has no power interface named ''
                  @ debug_str label], pw_output = [], pw_sent = [] \<rparr>
      | Some i \<Rightarrow>
          (case build_driver ctx (nm_node_name (np_spec mn)) i of
             Inl e \<Rightarrow> Some \<lparr> pw_exit = Inl [e], pw_output = [], pw_sent = [] \<rparr>
           | Inr d \<Rightarrow>
               (case unbounded (driver_verb verb d) of
                  None \<Rightarrow> None
                | Some (Inl e) \<Rightarrow> Some \<lparr> pw_exit = Inl [e], pw_output = [], pw_sent = [(label, verb)] \<rparr>
                | Some (Inr _) \<Rightarrow> Some \<lparr> pw_exit = Inr (),
                    pw_output = (if verb = Verb_status then
                        (case an_result (dv_power_state d) of
                           Inr st \<Rightarrow> [status_line name st label]
                         | Inl _ \<Rightarrow> [])
                      else []),
                    pw_sent = [(label, verb)] \<rparr>)))"

definition skipped :: "string list \<Rightarrow> printed list" where
  "skipped failures = map (\<lambda>f. Err (''  skipped '' @ f)) failures"

fun chain_verb :: "power_verb \<Rightarrow> power_chain \<Rightarrow> (string + unit outcome) \<times> string list" where
  "chain_verb Verb_on chain = chain_power_on chain"
| "chain_verb Verb_off chain = chain_power_off chain False"
| "chain_verb _ chain = chain_power_off chain True"

definition power_through_chain :: "power_chain \<Rightarrow> string \<Rightarrow> power_verb \<Rightarrow> power_run" where
  "power_through_chain chain name verb =
     (if verb = Verb_status then
        (case chain_power_state chain of
           (Inl e, tried) \<Rightarrow>
             \<lparr> pw_exit = Inl [e], pw_output = [], pw_sent = map (\<lambda>l. (l, verb)) tried \<rparr>
         | (Inr oc, tried) \<Rightarrow>
             \<lparr> pw_exit = Inr (), pw_output = skipped (oc_failures oc) @ [status_line name (oc_value oc) (oc_via oc)],
               pw_sent = map (\<lambda>l. (l, verb)) tried \<rparr>)
      else
        (case chain_verb verb chain of
           (Inl e, tried) \<Rightarrow>
             \<lparr> pw_exit = Inl [e], pw_output = [], pw_sent = map (\<lambda>l. (l, verb)) tried \<rparr>
         | (Inr oc, tried) \<Rightarrow>
             \<lparr> pw_exit = Inr (),
               pw_output = skipped (oc_failures oc) @ [Out (name @ '': done (via '' @ oc_via oc @ '')'')],
               pw_sent = map (\<lambda>l. (l, verb)) tried \<rparr>))"

record api_world =
  aw_connect :: "string + unit"
  aw_config :: "string \<Rightarrow> string + npmc"

definition power_command ::
    "api_world \<Rightarrow> driver_context \<Rightarrow> string \<Rightarrow> power_verb \<Rightarrow> string option \<Rightarrow> power_run option" where
  "power_command w ctx name verb via =
     (case aw_connect w of
        Inl e \<Rightarrow> Some \<lparr> pw_exit = Inl [''connecting to Kubernetes'', e], pw_output = [], pw_sent = [] \<rparr>
      | Inr _ \<Rightarrow>
          (case aw_config w name of
             Inl e \<Rightarrow> Some \<lparr> pw_exit = Inl [''fetching NodePowerManagementConfig '' @ name, e], pw_output = [],
                        pw_sent = [] \<rparr>
           | Inr mn \<Rightarrow>
               (case via of
                  Some label \<Rightarrow> power_via ctx mn name verb label
                | None \<Rightarrow>
                    (case build_chain ctx (np_spec mn) of
                       Inl e \<Rightarrow> Some \<lparr> pw_exit = Inl [e], pw_output = [], pw_sent = [] \<rparr>
                     | Inr chain \<Rightarrow> Some (power_through_chain chain name verb)))))"

section \<open>The wake and drivers subcommands\<close>

definition wake_command ::
    "(string + net_interface list) \<Rightarrow> udp_socket \<Rightarrow> string \<Rightarrow> nat \<Rightarrow> string option \<Rightarrow> (string + nat) \<times> packet list" where
  "wake_command ifaces sock mac port broadcast =
     (case parse_mac mac of
        None \<Rightarrow> (Inl ''invalid --mac'', [])
      | Some mac_bytes \<Rightarrow>
          (case targets_of ifaces broadcast port of
             Inl e \<Rightarrow> (Inl e, [])
           | Inr addrs \<Rightarrow> send_magic sock mac_bytes addrs 3))"

definition pad10 :: "string \<Rightarrow> string" where
  "pad10 s = s @ replicate (10 - length s) CHR '' ''"

text \<open>What the drivers subcommand shows of an entry: name, description, whether it needs credentials.\<close>

definition catalog_entries :: "driver_settings \<Rightarrow> (string \<times> string \<times> bool) list" where
  "catalog_entries se =
     [(dk_name (ipmi_kind se), dk_description (ipmi_kind se), dk_requires_credentials (ipmi_kind se)),
      (dk_name (redfish_kind se), dk_description (redfish_kind se), dk_requires_credentials (redfish_kind se)),
      (dk_name (pikvm_kind se), dk_description (pikvm_kind se), dk_requires_credentials (pikvm_kind se)),
      (dk_name (jetkvm_kind se), dk_description (jetkvm_kind se), dk_requires_credentials (jetkvm_kind se)),
      (dk_name (nanokvm_kind se), dk_description (nanokvm_kind se), dk_requires_credentials (nanokvm_kind se)),
      (dk_name (wol_kind se), dk_description (wol_kind se), dk_requires_credentials (wol_kind se)),
      (dk_name (ping_kind se), dk_description (ping_kind se), dk_requires_credentials (ping_kind se))]"

definition driver_line :: "string \<times> string \<times> bool \<Rightarrow> string" where
  "driver_line e = (case e of (name, description, creds) \<Rightarrow>
     pad10 name @ '' '' @ description @ '' ('' @ (if creds then ''credentials required'' else ''no credentials'') @ '')'')"

definition drivers_command :: "driver_settings \<Rightarrow> (string \<Rightarrow> string) \<Rightarrow> bool \<Rightarrow> printed list" where
  "drivers_command se schema schemas =
     concat (map (\<lambda>e. Out (driver_line e) # (if schemas then [Out (schema (fst e) @ [CHR 0x0A])] else []))
       (catalog_entries se))"

section \<open>Starting the operator\<close>

definition settings_of :: "driver_args \<Rightarrow> webhook_args \<Rightarrow> webhook_settings option" where
  "settings_of args wa =
     map_option (\<lambda>_. \<lparr> ws_namespace = da_namespace args, ws_service = wa_webhook_service wa,
       ws_service_port = wa_webhook_service_port wa, ws_secret = wa_webhook_secret wa,
       ws_config_name = wa_webhook_config_name wa, ws_owner_cluster_role = wa_webhook_owner_cluster_role wa \<rparr>)
       (wa_webhook_addr wa)"

text \<open>What the start finds: the connection, each cache in the order it is waited for (Nodes, Pods,
  configurations, pools), the API server's answers for the webhook, and whether it can listen with a
  certificate.\<close>

record start_world =
  sw_client :: "string + unit"
  sw_caches :: "(string + unit) list"
  sw_format :: time_format
  sw_tls :: tls_world
  sw_listen :: "tls \<Rightarrow> string + unit"
  sw_base64 :: "string \<Rightarrow> string"
  sw_register :: register_world

datatype start_event =
    R_Metrics_served
  | R_Ready
  | R_Secret_written "nat \<times> secret_write"
  | R_Listening tls
  | R_Registration webhook_config
  | R_Controllers

fun wait_caches :: "(string + unit) list \<Rightarrow> string + unit" where
  "wait_caches [] = Inr ()"
| "wait_caches (c # cs) = (case c of Inl e \<Rightarrow> Inl e | Inr _ \<Rightarrow> wait_caches cs)"

text \<open>The webhook is registered only once it serves.\<close>

definition start_webhook :: "start_world \<Rightarrow> webhook_settings option \<Rightarrow> (string + unit) \<times> start_event list" where
  "start_webhook w settings =
     (case settings of
        None \<Rightarrow> (Inr (), [])
      | Some s \<Rightarrow>
          (case ensure_tls (sw_format w) (sw_tls w) s of
             (Inl e, writes) \<Rightarrow> (Inl e, map R_Secret_written writes)
           | (Inr tls, writes) \<Rightarrow>
               (case sw_listen w tls of
                  Inl e \<Rightarrow> (Inl e, map R_Secret_written writes)
                | Inr _ \<Rightarrow>
                    (case register (sw_base64 w) (sw_register w) s tls of
                       (r, config) \<Rightarrow>
                         (r, map R_Secret_written writes @ [R_Listening tls, R_Registration config])))))"

definition start :: "start_world \<Rightarrow> webhook_settings option \<Rightarrow> (string + unit) \<times> start_event list" where
  "start w settings =
     (case sw_client w of
        Inl e \<Rightarrow> (Inl ''connecting to Kubernetes'', [])
      | Inr _ \<Rightarrow>
          (case wait_caches (sw_caches w) of
             Inl e \<Rightarrow> (Inl e, [R_Metrics_served])
           | Inr _ \<Rightarrow>
               (case start_webhook w settings of
                  (Inl e, log) \<Rightarrow> (Inl e, [R_Metrics_served, R_Ready] @ log)
                | (Inr _, log) \<Rightarrow> (Inr (), [R_Metrics_served, R_Ready] @ log @ [R_Controllers]))))"

section \<open>What wakes the controllers\<close>

text \<open>Configurations are named like their Nodes, so an event of a Node asks for its configuration; an
  event of a pool asks for every configuration.\<close>

definition node_event_requests :: "string \<Rightarrow> string list" where
  "node_event_requests node = [node]"

definition pool_event_requests :: "npmc list \<Rightarrow> string list" where
  "pool_event_requests configs = map np_name configs"

datatype runtime_error = ObjectNotFound string | OtherError string

datatype log_level = Log_debug | Log_error

definition log_controller_result :: "runtime_error + 'a \<Rightarrow> log_level option" where
  "log_controller_result r =
     (case r of
        Inr _ \<Rightarrow> None
      | Inl (ObjectNotFound obj) \<Rightarrow> Some Log_debug
      | Inl (OtherError e) \<Rightarrow> Some Log_error)"

section \<open>Stopping the operator\<close>

text \<open>The state of a running operator: whether SIGTERM or Ctrl-C has arrived, whether the task that
  unregisters the webhook is done (it exists when there is a webhook), whether the controllers have
  wound down, and whether the process has left \<^verbatim>\<open>run\<close>.\<close>

record stopping =
  sp_webhook :: bool
  sp_signalled :: bool
  sp_unregistered :: bool
  sp_controllers_stopped :: bool
  sp_left :: bool

definition running :: "bool \<Rightarrow> stopping" where
  "running webhook = \<lparr> sp_webhook = webhook, sp_signalled = False, sp_unregistered = False,
     sp_controllers_stopped = False, sp_left = False \<rparr>"

inductive stop_step :: "stopping \<Rightarrow> stopping \<Rightarrow> bool" where
  signal: "\<not> sp_signalled s \<Longrightarrow> stop_step s (s\<lparr> sp_signalled := True \<rparr>)"
| unregister_webhook: "sp_webhook s \<Longrightarrow> sp_signalled s \<Longrightarrow> \<not> sp_unregistered s \<Longrightarrow> \<not> sp_left s \<Longrightarrow>
    stop_step s (s\<lparr> sp_unregistered := True \<rparr>)"
| controllers_stop: "sp_signalled s \<Longrightarrow> \<not> sp_controllers_stopped s \<Longrightarrow>
    stop_step s (s\<lparr> sp_controllers_stopped := True \<rparr>)"
| leave: "sp_controllers_stopped s \<Longrightarrow> \<not> sp_webhook s \<or> sp_unregistered s \<Longrightarrow> \<not> sp_left s \<Longrightarrow>
    stop_step s (s\<lparr> sp_left := True \<rparr>)"
| ten_seconds: "sp_controllers_stopped s \<Longrightarrow> sp_webhook s \<Longrightarrow> \<not> sp_unregistered s \<Longrightarrow> \<not> sp_left s \<Longrightarrow>
    stop_step s (s\<lparr> sp_left := True \<rparr>)"

inductive_cases stop_stepE: "stop_step s t"

section \<open>The webhook is never registered before it serves\<close>

lemma wait_caches_Inr: "wait_caches cs = Inr u \<longleftrightarrow> list_all (\<lambda>c. \<not> isl c) cs"
  by (induction cs) (auto split: sum.split)

lemma start_webhook_log:
  assumes "start_webhook w settings = (r, log)"
  shows "R_Controllers \<notin> set log \<and> R_Ready \<notin> set log \<and> R_Metrics_served \<notin> set log
    \<and> (R_Registration config \<in> set log \<longrightarrow>
        (\<exists>s tls pre. settings = Some s \<and> fst (ensure_tls (sw_format w) (sw_tls w) s) = Inr tls
           \<and> sw_listen w tls = Inr () \<and> vc_ca_bundle config = sw_base64 w (tl_ca_pem tls)
           \<and> vc_name config = ws_config_name s
           \<and> log = pre @ [R_Listening tls, R_Registration config]))"
  using assms by (auto simp: start_webhook_def register_def Let_def split: option.splits prod.splits sum.splits)

text \<open>C28: The API server is told to ask the webhook only once it answers: registration is the step
  right after the webhook listens with the certificate that the Secret holds, names that
  certificate's authority, and comes after every cache is filled.  The controllers run exactly when
  the start succeeded.\<close>

theorem registered_only_when_serving:
  assumes "start w settings = (r, log)"
  shows "(R_Controllers \<in> set log) = (r = Inr ())
    \<and> (R_Ready \<in> set log \<longrightarrow> list_all (\<lambda>c. \<not> isl c) (sw_caches w))
    \<and> (R_Registration config \<in> set log \<longrightarrow>
        (\<exists>s tls pre post. settings = Some s \<and> fst (ensure_tls (sw_format w) (sw_tls w) s) = Inr tls
           \<and> sw_listen w tls = Inr () \<and> vc_ca_bundle config = sw_base64 w (tl_ca_pem tls)
           \<and> vc_name config = ws_config_name s \<and> R_Ready \<in> set pre
           \<and> log = pre @ [R_Listening tls, R_Registration config] @ post))"
proof (cases "isl (sw_client w) \<or> isl (wait_caches (sw_caches w))")
  case True
  with assms show ?thesis by (auto simp: start_def split: sum.splits)
next
  case False
  then obtain u v where ok: "sw_client w = Inr u" "wait_caches (sw_caches w) = Inr v" by (metis sum.collapse(2))
  obtain r0 log0 where sw: "start_webhook w settings = (r0, log0)" by fastforce
  from start_webhook_log [OF this, of config]
  have l: "R_Controllers \<notin> set log0" "R_Registration config \<in> set log0 \<Longrightarrow>
        \<exists>s tls pre. settings = Some s \<and> fst (ensure_tls (sw_format w) (sw_tls w) s) = Inr tls
           \<and> sw_listen w tls = Inr () \<and> vc_ca_bundle config = sw_base64 w (tl_ca_pem tls)
           \<and> vc_name config = ws_config_name s \<and> log0 = pre @ [R_Listening tls, R_Registration config]"
    by blast+
  define post where "post = (if isl r0 then [] else [R_Controllers])"
  have e: "log = [R_Metrics_served, R_Ready] @ log0 @ post" "isl r = isl r0"
    using assms by (auto simp: start_def ok sw post_def split: sum.splits)
  have reg: "R_Registration config \<in> set log \<Longrightarrow> R_Registration config \<in> set log0"
    by (auto simp: e post_def split: if_splits)
  have ctrl: "(R_Controllers \<in> set log) = (r = Inr ())"
    using l(1) e(2) by (cases r) (auto simp: e(1) post_def)
  have "R_Registration config \<in> set log \<longrightarrow>
        (\<exists>s tls pre post. settings = Some s \<and> fst (ensure_tls (sw_format w) (sw_tls w) s) = Inr tls
           \<and> sw_listen w tls = Inr () \<and> vc_ca_bundle config = sw_base64 w (tl_ca_pem tls)
           \<and> vc_name config = ws_config_name s \<and> R_Ready \<in> set pre
           \<and> log = pre @ [R_Listening tls, R_Registration config] @ post)"
  proof
    assume "R_Registration config \<in> set log"
    from l(2) [OF reg [OF this]] obtain s tls pre where p: "settings = Some s"
        "fst (ensure_tls (sw_format w) (sw_tls w) s) = Inr tls" "sw_listen w tls = Inr ()"
        "vc_ca_bundle config = sw_base64 w (tl_ca_pem tls)" "vc_name config = ws_config_name s"
        "log0 = pre @ [R_Listening tls, R_Registration config]" by blast
    then show "\<exists>s tls pre post. settings = Some s \<and> fst (ensure_tls (sw_format w) (sw_tls w) s) = Inr tls
           \<and> sw_listen w tls = Inr () \<and> vc_ca_bundle config = sw_base64 w (tl_ca_pem tls)
           \<and> vc_name config = ws_config_name s \<and> R_Ready \<in> set pre
           \<and> log = pre @ [R_Listening tls, R_Registration config] @ post"
      by (intro exI [of _ s] exI [of _ tls] exI [of _ "[R_Metrics_served, R_Ready] @ pre"] exI [of _ post])
        (simp add: e(1))
  qed
  with ctrl ok(2) show ?thesis by (simp add: wait_caches_Inr)
qed

definition sample_start :: start_world where
  "sample_start = \<lparr> sw_client = Inr (), sw_caches = [Inr (), Inr (), Inr (), Inr ()], sw_format = sample_format,
     sw_tls = sample_tls_world, sw_listen = (\<lambda>_. Inr ()), sw_base64 = (\<lambda>s. ''b64:'' @ s),
     sw_register = \<lparr> rw_cluster_role = (\<lambda>_. Inr None), rw_apply = (\<lambda>_. Inr ()), rw_delete = (\<lambda>_. Inr ()) \<rparr> \<rparr>"

definition sample_registration :: webhook_config where
  "sample_registration = snd (register (sw_base64 sample_start) (sw_register sample_start) sample_settings sample_tls)"

lemma registered_only_when_serving_witness:
  "R_Registration sample_registration \<in> set (snd (start sample_start (Some sample_settings)))
   \<and> vc_ca_bundle sample_registration = ''b64:ca''
   \<and> (\<exists>pre post. snd (start sample_start (Some sample_settings))
         = pre @ [R_Listening sample_tls, R_Registration sample_registration] @ post \<and> R_Ready \<in> set pre)"
proof -
  have reg: "register (sw_base64 sample_start) (sw_register sample_start) sample_settings sample_tls
      = (Inr (), sample_registration)"
    by (simp add: sample_registration_def register_def sample_start_def Let_def)
  have e: "fst (ensure_tls (sw_format sample_start) (sw_tls sample_start) sample_settings) = Inr sample_tls"
    using sample_ensure by (simp add: sample_start_def)
  then obtain writes where w: "ensure_tls (sw_format sample_start) (sw_tls sample_start) sample_settings
      = (Inr sample_tls, writes)" by (metis prod.collapse)
  have l: "sw_listen sample_start sample_tls = Inr ()" "sw_client sample_start = Inr ()"
      "wait_caches (sw_caches sample_start) = Inr ()" by (simp_all add: sample_start_def)
  have m: "R_Registration sample_registration \<in> set (snd (start sample_start (Some sample_settings)))"
    by (simp add: start_def start_webhook_def l w reg)
  with registered_only_when_serving [OF prod.collapse [symmetric], of sample_start "Some sample_settings"
      sample_registration] e
  obtain pre post where "snd (start sample_start (Some sample_settings))
         = pre @ [R_Listening sample_tls, R_Registration sample_registration] @ post" "R_Ready \<in> set pre"
    by auto
  with m show ?thesis
    by (auto simp: sample_registration_def register_def sample_start_def sample_tls_def Let_def)
qed

section \<open>The webhook is unregistered on the way out\<close>

definition stopping_inv :: "stopping \<Rightarrow> bool" where
  "stopping_inv s =
     ((sp_unregistered s \<longrightarrow> sp_signalled s \<and> sp_webhook s) \<and> (sp_controllers_stopped s \<longrightarrow> sp_signalled s)
      \<and> (sp_left s \<longrightarrow> sp_controllers_stopped s))"

lemma stopping_inv_step: "stop_step s t \<Longrightarrow> stopping_inv s \<Longrightarrow> stopping_inv t"
  by (induction rule: stop_step.induct) (auto simp: stopping_inv_def)

lemma stop_steps_inv: "stop_step\<^sup>*\<^sup>* (running b) t \<Longrightarrow> stopping_inv t"
proof (induction rule: rtranclp_induct)
  case base
  then show ?case by (simp add: stopping_inv_def running_def)
next
  case (step t u)
  then show ?case using stopping_inv_step by blast
qed

text \<open>Nothing is unregistered before the signal, and every run stops: each step makes progress, and
  until the process has left there is a next step.\<close>

definition steps_left :: "stopping \<Rightarrow> nat" where
  "steps_left s = length (filter (\<lambda>b. \<not> b) [sp_signalled s, sp_unregistered s, sp_controllers_stopped s, sp_left s])"

lemma stop_step_progress: "stop_step s t \<Longrightarrow> steps_left t < steps_left s"
  by (induction rule: stop_step.induct) (auto simp: steps_left_def)

lemma stop_step_exists: "\<not> sp_left s \<Longrightarrow> \<exists>t. stop_step s t"
  by (cases "sp_signalled s"; cases "sp_controllers_stopped s"; cases "sp_webhook s"; cases "sp_unregistered s")
    (blast intro: stop_step.intros)+

lemma stop_terminates: "wfp (\<lambda>t s. stop_step s t)"
  by (rule wfp_if_convertible_to_nat [where f = steps_left]) (rule stop_step_progress)

section \<open>A relay sends what the operator would\<close>

definition wake_args :: "string \<Rightarrow> nat \<Rightarrow> string option \<Rightarrow> string list" where
  "wake_args mac port broadcast = [''wake'', ''--mac'', mac, ''--port'', show_nat port]
     @ (case broadcast of Some b \<Rightarrow> [''--broadcast'', b] | None \<Rightarrow> [])"

text \<open>The arguments of a relay pod are those of the \<^verbatim>\<open>wake\<close> subcommand for the driver's settings, and
  that subcommand sends on the relay exactly the packets the operator sends from its own node,
  over the same interfaces: it never refuses the MAC address of a driver that was built.\<close>

lemma relay_sends_like_operator:
  assumes "build_wol config machine shutdown relay = Inr d"
  shows "ry_args (relay_pod_for hash d relay_node)
      = wake_args (wc_mac_address config) (wc_port config) (wc_broadcast_address config)
    \<and> (let c = wake_command (ww_interfaces w) (ww_socket w) (wc_mac_address config) (wc_port config)
                 (wc_broadcast_address config)
       in case wake_from_operator w d of
            Inl e \<Rightarrow> isl (fst c) \<and> snd c = []
          | Inr sent \<Rightarrow> c = sent)"
proof -
  from assms obtain mac where m: "parse_mac (wc_mac_address config) = Some mac" "wd_mac d = mac" "wd_config d = config"
    by (auto simp: build_wol_def split: option.splits if_splits)
  then show ?thesis
    by (auto simp: relay_pod_for_def wake_args_def wake_command_def wake_from_operator_def Let_def split: sum.split)
qed

section \<open>The power subcommand bypasses the checks\<close>

text \<open>One verb goes to one interface, and to none when the label is unknown or it cannot be built.\<close>

lemma power_via_sends_one:
  assumes "power_via ctx mn name verb label = Some r"
  shows "pw_sent r = [] \<or> pw_sent r = [(label, verb)]
    \<and> (\<exists>i \<in> set (nm_power_interfaces (np_spec mn)). interface_label i = label
         \<and> \<not> isl (build_driver ctx (nm_node_name (np_spec mn)) i))"
  using assms
  by (auto simp: power_via_def find_Some_iff split: option.splits sum.splits)

text \<open>Status questions are answered by status operations only.\<close>

lemma power_command_verbs:
  assumes "power_command w ctx name verb via = Some r"
  shows "list_all (\<lambda>(l, v). v = verb) (pw_sent r)"
  using assms
  by (auto simp: power_command_def power_via_def power_through_chain_def list_all_iff
      split: option.splits sum.splits prod.splits if_splits)

text \<open>The \<^verbatim>\<open>power\<close> subcommand does not ask the interfaces which machine they control: it powers a
  machine through an interface that reports the identity of another one, which the operator
  disables for every operation.\<close>

definition stray_driver :: driver where
  "stray_driver = sample_driver (Inr PS_Off) (Some (Uuid ''11111111-1111-1111-1111-111111111111''))"

definition stray_context :: driver_context where
  "stray_context = \<lparr> cx_namespace = ''kha'', cx_secrets = (\<lambda>_. Inr None),
     cx_catalog = [\<lparr> fa_name = ''ipmi'', fa_requires_credentials = False, fa_validate = (\<lambda>_. Inr ()),
       fa_build = (\<lambda>_ _ _. Inr stray_driver) \<rparr>], cx_op_timeout = 10 \<rparr>"

definition stray_world :: api_world where
  "stray_world = \<lparr> aw_connect = Inr (), aw_config = (\<lambda>n. Inr \<lparr> np_name = n, np_generation = Some 1,
     np_spec = kvm_spec [sample_interface ''ipmi''], np_status = None \<rparr>) \<rparr>"

definition stray_chain :: power_chain where
  "stray_chain = \<lparr> ch_links = [make_link stray_context (sample_interface ''ipmi'') stray_driver], ch_unavailable = [] \<rparr>"

lemma power_command_skips_identity:
  "map_option pw_sent (power_command stray_world stray_context ''n1'' Verb_off None) = Some [(''ipmi'', Verb_off)]
   \<and> build_chain stray_context (kvm_spec [sample_interface ''ipmi'']) = Inr stray_chain
   \<and> ch_links (disable_mismatched stray_chain
        (check_identity stray_chain (Some ''22222222-2222-2222-2222-222222222222''))) = []"
proof (intro conjI)
  show "map_option pw_sent (power_command stray_world stray_context ''n1'' Verb_off None) = Some [(''ipmi'', Verb_off)]"
    by code_simp
  show "build_chain stray_context (kvm_spec [sample_interface ''ipmi'']) = Inr stray_chain"
    by (simp add: build_chain_def kvm_spec_def build_driver_def lookup_def stray_context_def sample_interface_def
        stray_chain_def Let_def)
  show "ch_links (disable_mismatched stray_chain
        (check_identity stray_chain (Some ''22222222-2222-2222-2222-222222222222''))) = []"
    by code_simp
qed

text \<open>Nor does \<^verbatim>\<open>--via\<close> bound the operation: a driver that never answers is waited for, whatever
  timeout the interface or the operator sets.\<close>

lemma power_via_unbounded:
  assumes "find (\<lambda>i. interface_label i = label) (nm_power_interfaces (np_spec mn)) = Some i"
    and "build_driver ctx (nm_node_name (np_spec mn)) i = Inr d" and "an_millis (driver_verb verb d) = NEVER"
  shows "power_via ctx mn name verb label = None"
  by (simp add: power_via_def assms unbounded_def)

end
