(* ===== verification/Control_Loop.thy ===== *)
theory Control_Loop
  imports Machine_Status Pool_Safety
begin

text \<open>
  The two controllers as one system.  First what a single reconciliation of a machine needs before
  it disturbs a running machine, then all interleavings of pool reconciliations, machine
  reconciliations and changes by users, over the objects on the API server, as an inductive
  relation, and where every machine that is taken down was decided.
\<close>

section \<open>Decisions a pass can end with\<close>

text \<open>A pass drops the decision it found or turns it into one to stay on, but never makes up a
  decision to power off.\<close>

definition off_only_from :: "scaling_decision option \<Rightarrow> npmc_status \<Rightarrow> bool" where
  "off_only_from d0 st =
     (case st_scaling_decision st of Some d \<Rightarrow> sdn_target d = Target_Off \<longrightarrow> d0 = Some d | None \<Rightarrow> True)"

interpretation decided: pass_property "\<lambda>st log. off_only_from d0 st" for d0
  by unfold_locales (simp_all add: off_only_from_def)

interpretation undisturbed: steady_property "\<lambda>st log. filter disruptive log = l" for l
  by unfold_locales simp_all

lemma off_only_from_refl: "off_only_from (st_scaling_decision st) st"
  by (simp add: off_only_from_def split: option.split)

section \<open>What disturbs a running machine\<close>

definition told_off :: "rc_env \<Rightarrow> npmc_status \<Rightarrow> bool" where
  "told_off env st = (rv_node env \<noteq> None
     \<and> managed_target (nm_power_policy (rv_spec env)) st (rv_manual_policy env) = Some Target_Off)"

lemma drive_disrupts:
  assumes "filter disruptive (rs_log (snd (drive env old c s))) \<noteq> filter disruptive (rs_log s)"
  shows "\<exists>s'. before_steering env old s = (None, s') \<and> told_off env (rs_st s')"
proof (rule ccontr)
  assume "\<nexists>s'. before_steering env old s = (None, s') \<and> told_off env (rs_st s')"
  then have "filter disruptive (rs_log (snd (drive env old c s))) = filter disruptive (rs_log s)"
    by (intro undisturbed.H_drive) (auto simp: told_off_def)
  with assms show False by simp
qed

lemma before_steering_observed: "observed (rs_st (snd (before_steering env old s))) = observed (rs_st s)"
  using seen.kept.H_before_steering [of s "observed (rs_st s)" env old] by simp

lemma before_steering_ready:
  assumes "st_node_ready (rs_st s)"
  shows "\<exists>s'. before_steering env old s = (None, s') \<and> commands s' = commands s"
proof -
  define c where "c = detect_manual_change old (rs_st s) (rv_now env) (rv_boot_timeout env)
      (lc_shutdown_timeout_seconds (lifecycle env))"
  let ?t = "track_boot (clear_manual_on c (rs_st s)) (rv_now env) (rv_boot_timeout env)"
  let ?s = "on_manual_change env c (s\<lparr> rs_st := fst ?t \<rparr>)"
  have ev: "snd ?t \<in> {BE_Recovered, BE_None}"
    using assms by (simp add: track_boot_def clear_manual_on_def)
  have r: "st_node_ready (rs_st ?s)"
    using assms by (cases c) (simp_all add: on_manual_change_def upd_def event_def emit_def Let_def
        track_boot_def clear_manual_on_def)
  have "fst (on_boot env (snd ?t) ?s) = None"
    using ev r by (auto simp: on_boot_def split: option.split)
  moreover from this have "commands (snd (on_boot env (snd ?t) ?s)) = commands s"
    using on_boot_None [of env "snd ?t" ?s] by (simp add: cmd_simps commands_rs_update)
  ultimately show ?thesis
    unfolding before_steering_def c_def [symmetric] Let_def by (metis prod.collapse)
qed

lemma drive_commands_running:
  assumes "commands (snd (drive env old c s)) \<noteq> commands s"
    and "st_power_state (rs_st s) = PS_On" "st_node_ready (rs_st s)"
  shows "\<exists>s'. before_steering env old s = (None, s') \<and> told_off env (rs_st s')"
proof -
  obtain s' where b: "before_steering env old s = (None, s')" "commands s' = commands s"
    using before_steering_ready [OF assms(3)] by blast
  have on: "st_power_state (rs_st s') = PS_On" "st_node_ready (rs_st s')"
    using before_steering_observed [of env old s] assms(2,3) b(1) by (simp_all add: observed_def)
  have moved: "commands (snd (steer env c s')) \<noteq> commands s'"
    using assms(1) b by (simp add: drive_before_steering)
  have "rv_node env \<noteq> None \<and> c"
  proof (rule ccontr)
    assume "\<not> (rv_node env \<noteq> None \<and> c)"
    then have "rv_node env = None \<or> \<not> c" by simp
    from steer_refuses [OF this, of s'] moved show False by (auto simp: cmd_simps)
  qed
  moreover have "commands (snd (ensure_on env s')) = commands s'"
    using is_online_sends [of env s'] on by (simp add: ensure_on_def sends_def Let_def)
  ultimately have "told_off env (rs_st s')"
    using moved by (auto simp: told_off_def steer_drives cmd_simps split: option.splits power_target.splits)
  with b show ?thesis by blast
qed

text \<open>For a machine under automatic policy, being told to go off means that the status the pass
  started from carries that decision, by a pool the machine belongs to.\<close>

lemma told_off_decision:
  assumes b: "before_steering env old s = (None, s')" and off: "told_off env (rs_st s')"
    and auto: "nm_power_policy (rv_spec env) = Auto"
  shows "\<exists>d. st_scaling_decision (rs_st s) = Some d \<and> sdn_target d = Target_Off \<and> sdn_pool d \<in> set (st_pools (rs_st s))"
proof -
  have "st_pools (rs_st s') = st_pools (rs_st s)"
    using before_steering_observed [of env old s] b by (simp add: observed_def)
  moreover have "off_only_from (st_scaling_decision (rs_st s)) (rs_st s')"
    using decided.H_before_steering [OF off_only_from_refl, of s env old] b by simp
  ultimately show ?thesis
    using off auto by (auto simp: told_off_def managed_target_def desired_target_def off_only_from_def
        split: if_splits option.splits)
qed

section \<open>From the pass to the reconciliation\<close>

lemma gates_quiet:
  "quiet (snd (gate_identity now spec old results st))" "quiet (snd (gate_reading now c old st))"
  by (simp_all add: gate_identity_def gate_reading_def Let_def)

lemma gate_reading_consistent:
  "reading_consistent env spec (fst (gate_reading now b old st)) = reading_consistent env spec st"
proof -
  have "reading_consistent env spec (status_set_condition st ty x r m now) = reading_consistent env spec st" for ty x r m
    by (simp add: reading_consistent_def status_set_condition_def action_age_def)
  then show ?thesis by (cases b) (simp_all add: gate_reading_def)
qed

lemma pass_env_fields [simp]:
  "rv_spec (pass_env env spec chain st) = spec" "rv_node (pass_env env spec chain st) = ne_nodes env (nm_node_name spec)"
  "rv_pods (pass_env env spec chain st) = ne_pods env" "rv_now (pass_env env spec chain st) = ne_now env"
  "rv_patch_answer (pass_env env spec chain st) = ne_patch_answer env"
  by (simp_all add: pass_env_def Let_def split: prod.split)

text \<open>The pass of a reconciliation, over the status that the gates left.\<close>

definition pass_from :: "node_env \<Rightarrow> npmc \<Rightarrow> power_chain \<Rightarrow> rs \<Rightarrow> (string + duration) \<times> rs" where
  "pass_from env mn chain s =
     drive (pass_env env (np_spec mn) chain (gate_outcome env mn)) (machine_status mn)
       (reading_consistent env (np_spec mn) (gate_outcome env mn)) s"

text \<open>A reconciliation either does nothing that counts or is a pass from what the gates left; what it
  writes is what that pass leaves, which is stored unless the pass failed.\<close>

lemma reconcile_is_pass:
  assumes mn: "ne_object env = Inr (Some mn)"
  shows "quiet (pr_log (reconcile env)) \<and> filter is_command (pr_log (reconcile env)) = []
      \<and> st_power_state (gate_outcome env mn) = PS_Unknown
      \<and> (\<forall>st. pr_written (reconcile env) = Some st
           \<longrightarrow> st_scaling_decision st = st_scaling_decision (gate_outcome env mn))
    \<or> (\<exists>chain s. rs_st s = gate_outcome env mn \<and> quiet (rs_log s) \<and> commands s = []
         \<and> pr_log (reconcile env) = rs_log (snd (pass_from env mn chain s))
         \<and> (\<forall>st. pr_written (reconcile env) = Some st \<longrightarrow> st = rs_st (snd (pass_from env mn chain s)))
         \<and> (\<forall>q. fst (pass_from env mn chain s) = Inr q
              \<longrightarrow> unwrap_or (pr_written (reconcile env)) (machine_status mn) = rs_st (snd (pass_from env mn chain s))))"
proof (cases "build_chain (ne_drivers env) (np_spec mn)")
  case (Inl e)
  then show ?thesis
    by (auto simp: reconcile_def mn reconcile_machine_def gate_outcome_def Let_def dest!: finish_written)
next
  case chain: (Inr chain)
  let ?old = "machine_status mn"
  let ?i = "identify (ne_cache env) (ne_cache_now env) (np_name mn, unwrap_or (np_generation mn) 0) chain
      (Option.bind (ne_nodes env (nm_node_name (np_spec mn))) no_system_uuid)"
  let ?g = "gate_identity (ne_now env) (np_spec mn) ?old (fst ?i) (gated_status env (np_spec mn) ?old)"
  let ?chain = "disable_mismatched chain (fst ?i)"
  have o: "unwrap_or (np_status mn) default_npmc_status = ?old" by (simp add: machine_status_def)
  have q: "quiet (snd ?g)" "filter is_command (snd ?g) = []" by (rule gates_quiet gate_logs_silent)+
  have e: "reconcile env = reconcile_with env (np_spec mn) ?old (fst ?g) ?chain (snd ?g) (snd ?i)"
    by (simp add: reconcile_def mn reconcile_machine_def chain o Let_def case_prod_beta)
  show ?thesis
  proof (cases "fst (chain_power_state ?chain)")
    case (Inl e')
    then have "pr_log (reconcile env) = snd ?g" unfolding e reconcile_with_def by simp
    moreover have "gate_outcome env mn = (fst ?g)\<lparr> st_power_state := PS_Unknown \<rparr>"
      by (simp add: gate_outcome_def chain Inl o Let_def)
    moreover have "st_scaling_decision st = st_scaling_decision (fst ?g)"
      if "pr_written (reconcile env) = Some st" for st
      using that unfolding e reconcile_with_def Inl by (auto dest!: finish_written)
    ultimately show ?thesis using q by simp
  next
    case (Inr oc)
    let ?st = "(fst ?g)\<lparr> st_power_state := oc_value oc, st_interface_warnings := oc_failures oc \<rparr>"
    let ?c = "reading_consistent env (np_spec mn) ?st"
    let ?r = "gate_reading (ne_now env) ?c ?old ?st"
    let ?s = "\<lparr> rs_st = fst ?r, rs_log = snd ?g @ snd ?r \<rparr>"
    have g: "gate_outcome env mn = fst ?r" by (simp add: gate_outcome_def chain Inr o Let_def)
    have p: "pass_from env mn ?chain ?s = drive (pass_env env (np_spec mn) ?chain (fst ?r)) ?old ?c ?s"
      unfolding pass_from_def g by (simp add: gate_reading_consistent)
    have "pr_log (reconcile env) = rs_log (snd (pass_from env mn ?chain ?s))"
      unfolding p by (simp add: e reconcile_with_def Inr Let_def split: prod.split sum.split)
    moreover have "st = rs_st (snd (pass_from env mn ?chain ?s))" if "pr_written (reconcile env) = Some st" for st
      using that unfolding p
      by (auto simp: e reconcile_with_def Inr Let_def case_prod_beta dest: finish_written split: sum.splits)
    moreover have "unwrap_or (pr_written (reconcile env)) ?old = rs_st (snd (pass_from env mn ?chain ?s))"
      if "fst (pass_from env mn ?chain ?s) = Inr q" for q
      using that unfolding p e reconcile_with_def Inr Let_def sum.case case_prod_beta by (simp add: finish_def)
    moreover have "quiet (rs_log ?s)" using q(1) gates_quiet(2) by simp
    moreover have "commands ?s = []" using q(2) gate_logs_silent(2) by (simp add: commands_def)
    moreover have "rs_st ?s = gate_outcome env mn" by (simp add: g)
    ultimately show ?thesis by blast
  qed
qed

lemma gate_outcome_fields:
  "st_pools (gate_outcome env mn) = membership_pools
     (resolve (map_option no_labels (ne_nodes env (nm_node_name (np_spec mn)))) (ne_pools env))"
  "st_scaling_decision (gate_outcome env mn) = Some d \<Longrightarrow> st_scaling_decision (machine_status mn) = Some d"
proof -
  have c: "st_pools (status_set_condition st ty x r m now) = st_pools st"
    "st_scaling_decision (status_set_condition st ty x r m now) = st_scaling_decision st" for st ty x r m now
    by (simp_all add: status_set_condition_def)
  have i: "st_pools (fst (gate_identity now spec old results st)) = st_pools st"
    "st_scaling_decision (fst (gate_identity now spec old results st)) = st_scaling_decision st"
    "st_pools (fst (gate_reading now b old st)) = st_pools st"
    "st_scaling_decision (fst (gate_reading now b old st)) = st_scaling_decision st" for now spec old results st b
    by (simp_all add: gate_identity_def gate_reading_def c Let_def)
  have g: "st_pools (gated_status env spec old) = membership_pools
      (resolve (map_option no_labels (ne_nodes env (nm_node_name spec))) (ne_pools env))" for spec old
    by (simp add: gated_status_def gate_pools_fields Let_def)
  have n: "st_scaling_decision (gate_node now spec node st) = st_scaling_decision st" for now spec node st
    by (simp add: gate_node_def note_node_def c Let_def split: option.split)
  have m: "st_scaling_decision (membership_condition now r st) = st_scaling_decision st" for now r st
    by (simp add: membership_condition_def c split: membership.split)
  have d: "st_scaling_decision (gated_status env spec old) \<in> {None, st_scaling_decision old}" for spec old
    by (simp add: gated_status_def gate_pools_def n m Let_def)
  show "st_pools (gate_outcome env mn) = membership_pools
     (resolve (map_option no_labels (ne_nodes env (nm_node_name (np_spec mn)))) (ne_pools env))"
    by (simp add: gate_outcome_def i g Let_def split: sum.split)
  have "st_scaling_decision (gate_outcome env mn)
      = st_scaling_decision (gated_status env (np_spec mn) (machine_status mn))"
    by (simp add: gate_outcome_def i machine_status_def Let_def split: sum.split)
  then show "st_scaling_decision (gate_outcome env mn) = Some d \<Longrightarrow> st_scaling_decision (machine_status mn) = Some d"
    using d [of "np_spec mn" "machine_status mn"] by auto
qed

definition up_and_ready :: "npmc_status \<Rightarrow> bool" where
  "up_and_ready st = (st_power_state st = PS_On \<and> st_node_ready st)"

text \<open>One reconciliation: what disturbs an automatic machine needs a decision in its status.\<close>

lemma disturbance_needs_decision:
  assumes mn: "ne_object env = Inr (Some mn)" "nm_power_policy (np_spec mn) = Auto"
    and e: "e \<in> set (pr_log (reconcile env))"
    and bad: "disruptive e \<or> is_command e \<and> up_and_ready (gate_outcome env mn)"
  shows "\<exists>d. st_scaling_decision (machine_status mn) = Some d \<and> sdn_target d = Target_Off
    \<and> sdn_pool d \<in> set (membership_pools
         (resolve (map_option no_labels (ne_nodes env (nm_node_name (np_spec mn)))) (ne_pools env)))"
proof -
  have "e \<in> set (filter disruptive (pr_log (reconcile env))) \<or> e \<in> set (filter is_command (pr_log (reconcile env)))"
    using e bad by auto
  then have "\<not> (quiet (pr_log (reconcile env)) \<and> filter is_command (pr_log (reconcile env)) = [])"
    by (metis list.set(1) empty_iff)
  then obtain chain s where s: "rs_st s = gate_outcome env mn" "quiet (rs_log s)" "commands s = []"
      "pr_log (reconcile env) = rs_log (snd (pass_from env mn chain s))"
    using reconcile_is_pass [OF mn(1)] by blast
  define renv where "renv = pass_env env (np_spec mn) chain (gate_outcome env mn)"
  define old where "old = machine_status mn"
  define c where "c = reading_consistent env (np_spec mn) (gate_outcome env mn)"
  note p = pass_env_fields(1) [of env "np_spec mn" chain "gate_outcome env mn", folded renv_def] s(1-3)
    s(4) [unfolded pass_from_def, folded renv_def old_def c_def]
  have "\<exists>s'. before_steering renv old s = (None, s') \<and> told_off renv (rs_st s')"
    using bad
  proof
    assume "disruptive e"
    then have "e \<in> set (filter disruptive (rs_log (snd (drive renv old c s))))" using e p(5) by simp
    then have "filter disruptive (rs_log (snd (drive renv old c s))) \<noteq> filter disruptive (rs_log s)"
      using p(3) by (metis empty_iff empty_set)
    then show ?thesis by (rule drive_disrupts)
  next
    assume r: "is_command e \<and> up_and_ready (gate_outcome env mn)"
    then have "e \<in> set (commands (snd (drive renv old c s)))" using e p(5) by (simp add: commands_def)
    then have "commands (snd (drive renv old c s)) \<noteq> commands s" using p(4) by auto
    then show ?thesis using r p(2) by (intro drive_commands_running) (simp_all add: up_and_ready_def)
  qed
  then obtain s' where "before_steering renv old s = (None, s')" "told_off renv (rs_st s')" by blast
  from told_off_decision [OF this] obtain d where "st_scaling_decision (rs_st s) = Some d" "sdn_target d = Target_Off"
      "sdn_pool d \<in> set (st_pools (rs_st s))"
    using mn(2) p(1) by auto
  then show ?thesis unfolding p(2) gate_outcome_fields(1) using gate_outcome_fields(2) by blast
qed

lemma written_off_only_from:
  assumes mn: "ne_object env = Inr (Some mn)" and st: "pr_written (reconcile env) = Some st"
  shows "off_only_from (st_scaling_decision (machine_status mn)) st"
proof -
  have "off_only_from (st_scaling_decision (gate_outcome env mn)) st"
    using reconcile_is_pass [OF mn]
  proof (elim disjE exE conjE)
    fix chain s
    assume s: "rs_st s = gate_outcome env mn"
      and w: "\<forall>st. pr_written (reconcile env) = Some st \<longrightarrow> st = rs_st (snd (pass_from env mn chain s))"
    have "off_only_from (st_scaling_decision (rs_st s)) (rs_st (snd (pass_from env mn chain s)))"
      unfolding pass_from_def by (rule decided.H_pass [OF off_only_from_refl])
    then show ?thesis using w st by (simp add: s)
  next
    assume "\<forall>st. pr_written (reconcile env) = Some st
        \<longrightarrow> st_scaling_decision st = st_scaling_decision (gate_outcome env mn)"
    with st show ?thesis using off_only_from_refl [of st] by simp
  qed
  then show ?thesis
    using gate_outcome_fields(2) [of env mn] by (auto simp: off_only_from_def split: option.splits)
qed

lemma pool_written_releasable:
  "pl_written (pool_reconcile env pool) = Some st \<Longrightarrow>
     pt_releasable st = pl_releasable (plan_of (snapshot_of env pool (unwrap_or (po_status pool) default_pool_status)))"
  by (auto simp: pool_reconcile_def pool_status_after_def Let_def case_prod_beta split: sum.splits if_splits)

section \<open>All interleavings\<close>

text \<open>The machines stored on the API server, what each machine reconciliation in progress has read,
  and the pool reconciliations so far, latest first, each with all it saw.\<close>

record world =
  w_stored :: "string \<Rightarrow> npmc option"
  w_read :: "string \<Rightarrow> npmc option"
  w_passes :: "(pool_env \<times> pool) list"

text \<open>What a pool pass found releasable, and whether a cached pool status says what an earlier pass
  of that pool wrote.\<close>

definition found_releasable :: "pool_env \<times> pool \<Rightarrow> string list" where
  "found_releasable p = pl_releasable (plan_of
     (snapshot_of (fst p) (snd p) (unwrap_or (po_status (snd p)) default_pool_status)))"

definition written_before :: "world \<Rightarrow> pool \<Rightarrow> bool" where
  "written_before w p =
     (pt_releasable (unwrap_or (po_status p) default_pool_status) = []
      \<or> (\<exists>q \<in> set (w_passes w). po_name (snd q) = po_name p \<and> (\<exists>st. pl_written (pool_reconcile (fst q) (snd q)) = Some st
           \<and> pt_releasable st = pt_releasable (unwrap_or (po_status p) default_pool_status))))"

text \<open>A status patch leaves a field alone that the pass did not change (\<^verbatim>\<open>merge_diff\<close>), so a decision
  written meanwhile is kept.\<close>

definition patched :: "(npmc_status \<Rightarrow> 'a) \<Rightarrow> npmc_status \<Rightarrow> npmc_status \<Rightarrow> npmc_status \<Rightarrow> 'a" where
  "patched f old new now = (if f new = f old then f now else f new)"

text \<open>The steps.  Users create, change and delete machines, but not their status.  A pool pass sees
  caches of any age: of the machines, Nodes and pods nothing is assumed, of the pools that their
  statuses are their own.  A decision it sends arrives at any later time, late or again, or
  never.  A machine pass reads the live object, and its patch is applied to what is stored by
  then; of the other fields of the status nothing is assumed.\<close>

inductive control_loop :: "world \<Rightarrow> bool" where
  start: "control_loop \<lparr> w_stored = (\<lambda>_. None), w_read = (\<lambda>_. None), w_passes = [] \<rparr>"
| edit: "control_loop w
    \<Longrightarrow> \<forall>mn. m = Some mn \<longrightarrow> np_status mn = None
          \<or> (\<exists>mn0. w_stored w name = Some mn0 \<and> np_status mn = np_status mn0)
    \<Longrightarrow> control_loop (w\<lparr> w_stored := (w_stored w)(name := m) \<rparr>)"
| pool_pass: "control_loop w \<Longrightarrow> distinct (map np_name (pe_machines env))
    \<Longrightarrow> \<forall>p \<in> set (pe_pools env). written_before w p
    \<Longrightarrow> control_loop (w\<lparr> w_passes := (env, pool) # w_passes w \<rparr>)"
| decision_arrives: "control_loop w \<Longrightarrow> (env, pool) \<in> set (w_passes w)
    \<Longrightarrow> PE_Decide name d \<in> set (pl_log (pool_reconcile env pool))
    \<Longrightarrow> w_stored w name = Some mn \<Longrightarrow> st_scaling_decision st = Some d
    \<Longrightarrow> control_loop (w\<lparr> w_stored := (w_stored w)(name := Some (mn\<lparr> np_status := Some st \<rparr>)) \<rparr>)"
| machine_reads: "control_loop w
    \<Longrightarrow> control_loop (w\<lparr> w_read := (w_read w)(name := w_stored w name) \<rparr>)"
| machine_writes: "control_loop w \<Longrightarrow> w_read w name = Some mn \<Longrightarrow> ne_object env = Inr (Some mn)
    \<Longrightarrow> pr_written (reconcile env) = Some new \<Longrightarrow> w_stored w name = Some mn'
    \<Longrightarrow> st_scaling_decision st = patched st_scaling_decision (machine_status mn) new (machine_status mn')
    \<Longrightarrow> control_loop (w\<lparr> w_stored := (w_stored w)(name := Some (mn'\<lparr> np_status := Some st \<rparr>)),
          w_read := (w_read w)(name := None) \<rparr>)"

section \<open>Where decisions come from\<close>

definition decided_in :: "world \<Rightarrow> string \<Rightarrow> npmc \<Rightarrow> bool" where
  "decided_in w name mn = (\<forall>d. st_scaling_decision (machine_status mn) = Some d \<and> sdn_target d = Target_Off
     \<longrightarrow> (\<exists>q \<in> set (w_passes w). PE_Decide name d \<in> set (pl_log (pool_reconcile (fst q) (snd q)))))"

lemma machine_status_Some [simp]: "machine_status (mn\<lparr> np_status := Some st \<rparr>) = st"
  by (simp add: machine_status_def)

lemma decided_in_none: "np_status mn = None \<Longrightarrow> decided_in w name mn"
  by (simp add: decided_in_def machine_status_def default_npmc_status_def)

lemma decided_in_cong: "np_status mn = np_status mn0 \<Longrightarrow> decided_in w name mn0 \<Longrightarrow> decided_in w name mn"
  by (simp add: decided_in_def machine_status_def)

lemma decided_in_same_passes [simp]:
  "decided_in (w\<lparr> w_stored := x \<rparr>) = decided_in w" "decided_in (w\<lparr> w_read := y \<rparr>) = decided_in w"
  by (simp_all add: decided_in_def fun_eq_iff)

lemma decided_in_later: "decided_in w name mn \<Longrightarrow> decided_in (w\<lparr> w_passes := q # w_passes w \<rparr>) name mn"
  by (fastforce simp: decided_in_def)

lemma control_loop_decided:
  "control_loop w \<Longrightarrow>
     (\<forall>name mn. w_stored w name = Some mn \<longrightarrow> decided_in w name mn)
     \<and> (\<forall>name mn. w_read w name = Some mn \<longrightarrow> decided_in w name mn)"
proof (induction rule: control_loop.induct)
  case (edit w m name)
  have "decided_in w name mn" if "m = Some mn" for mn
    using edit(2,3) that decided_in_none decided_in_cong by blast
  with edit(3) show ?case by auto
next
  case (pool_pass w env pool)
  then show ?case by (auto intro: decided_in_later)
next
  case (decision_arrives w env pool name d mn st)
  then have "decided_in w name (mn\<lparr> np_status := Some st \<rparr>)" by (force simp: decided_in_def)
  with decision_arrives show ?case by auto
next
  case (machine_writes w name mn env new mn' st)
  then have d: "decided_in w name mn" "decided_in w name mn'" by blast+
  have "off_only_from (st_scaling_decision (machine_status mn)) new"
    using machine_writes by (intro written_off_only_from)
  then have "decided_in w name (mn'\<lparr> np_status := Some st \<rparr>)"
    using d machine_writes(6) by (auto simp: decided_in_def patched_def off_only_from_def split: if_splits)
  with machine_writes show ?case by auto
qed auto

text \<open>Pool passes see only statuses that pools wrote.\<close>

lemma control_loop_caches:
  "control_loop w \<Longrightarrow> (env, pool) \<in> set (w_passes w) \<Longrightarrow> distinct (map np_name (pe_machines env))
     \<and> (\<forall>p \<in> set (pe_pools env). written_before w p)"
proof (induction rule: control_loop.induct)
  case (pool_pass w env' pool')
  have "written_before w p \<Longrightarrow> written_before (w\<lparr> w_passes := (env', pool') # w_passes w \<rparr>) p" for p
    by (auto simp: written_before_def)
  with pool_pass show ?case by auto
qed (simp_all add: written_before_def)

lemma releasable_was_found:
  assumes "control_loop w" "(env, pool) \<in> set (w_passes w)" "name \<in> set (pt_releasable (status_of_pool (pe_pools env) other))"
  shows "\<exists>q \<in> set (w_passes w). po_name (snd q) = other \<and> name \<in> set (found_releasable q)"
proof (cases "find (\<lambda>p. po_name p = other) (pe_pools env)")
  case None
  with assms(3) show ?thesis by (simp add: status_of_pool_def default_pool_status_def)
next
  case (Some p)
  then have p: "p \<in> set (pe_pools env)" "po_name p = other" by (auto simp: find_Some_iff)
  have "status_of_pool (pe_pools env) other = unwrap_or (po_status p) default_pool_status"
    by (simp add: status_of_pool_def Some)
  moreover have "written_before w p" using control_loop_caches [OF assms(1,2)] p(1) by blast
  ultimately obtain q st where "q \<in> set (w_passes w)" "po_name (snd q) = other"
      "pl_written (pool_reconcile (fst q) (snd q)) = Some st" "name \<in> set (pt_releasable st)"
    using assms(3) p(2) by (auto simp: written_before_def)
  then show ?thesis using pool_written_releasable by (intro bexI [of _ q]) (auto simp: found_releasable_def)
qed

text \<open>C4: However the two controllers interleave, and whatever caches and lost or late messages make
  them see, a machine under automatic policy is cordoned, drained or, while it runs, sent a power
  command only for a decision to power it off that a pool really took when it saw the machine on
  and Ready, and after every other pool selecting it there had found it releasable in a pass of
  its own.\<close>

theorem taken_down_only_when_all_agreed:
  assumes run: "control_loop w" "w_read w name = Some mn"
    and pass: "ne_object env = Inr (Some mn)" "nm_power_policy (np_spec mn) = Auto"
    and e: "e \<in> set (pr_log (reconcile env))" "disruptive e \<or> is_command e \<and> up_and_ready (gate_outcome env mn)"
  shows "\<exists>penv pool d seen. (penv, pool) \<in> set (w_passes w)
    \<and> PE_Decide name d \<in> set (pl_log (pool_reconcile penv pool)) \<and> sdn_target d = Target_Off
    \<and> st_scaling_decision (machine_status mn) = Some d
    \<and> seen \<in> set (pe_machines penv) \<and> np_name seen = name \<and> nm_power_policy (np_spec seen) = Auto
    \<and> st_phase (machine_status seen) = Ph_On \<and> st_node_ready (machine_status seen)
    \<and> po_name pool \<in> set (pools_of penv seen)
    \<and> (\<forall>other \<in> set (pools_of penv seen). other \<noteq> po_name pool
         \<longrightarrow> (\<exists>q \<in> set (w_passes w). po_name (snd q) = other \<and> name \<in> set (found_releasable q)))"
proof -
  obtain d where d: "st_scaling_decision (machine_status mn) = Some d" "sdn_target d = Target_Off"
    using disturbance_needs_decision [OF pass e] by blast
  moreover have "decided_in w name mn" using control_loop_decided [OF run(1)] run(2) by blast
  ultimately obtain penv pool where q: "(penv, pool) \<in> set (w_passes w)"
      "PE_Decide name d \<in> set (pl_log (pool_reconcile penv pool))"
    by (auto simp: decided_in_def)
  have "distinct (map np_name (pe_machines penv))" using control_loop_caches [OF run(1) q(1)] by blast
  from power_off_needs_every_pool [OF this q(2) d(2)] obtain seen where seen: "seen \<in> set (pe_machines penv)"
      "np_name seen = name" "nm_power_policy (np_spec seen) = Auto" "st_phase (machine_status seen) = Ph_On"
      "st_node_ready (machine_status seen)" "po_name pool \<in> set (pools_of penv seen)"
      "\<forall>other \<in> set (pools_of penv seen). other \<noteq> po_name pool
         \<longrightarrow> name \<in> set (pt_releasable (status_of_pool (pe_pools penv) other))"
    by blast
  then have "\<forall>other \<in> set (pools_of penv seen). other \<noteq> po_name pool
      \<longrightarrow> (\<exists>q \<in> set (w_passes w). po_name (snd q) = other \<and> name \<in> set (found_releasable q))"
    using releasable_was_found [OF run(1) q(1)] by blast
  with d q seen show ?thesis by blast
qed

section \<open>A run to try things on\<close>

definition idle_decision :: scaling_decision where
  "idle_decision = \<lparr> sdn_pool = ''a'', sdn_target = Target_Off,
     sdn_reason = ''utilization 0% below 50% for 600s; #1 of 1 to power off, the only machine eligible'',
     sdn_time = secs 100000 \<rparr>"

definition loop_machine :: "npmc_status option \<Rightarrow> npmc" where
  "loop_machine st = \<lparr> np_name = ''n1'', np_generation = Some 1, np_spec = sample_spec Auto, np_status = st \<rparr>"

abbreviation "told_status \<equiv> default_npmc_status\<lparr> st_scaling_decision := Some idle_decision \<rparr>"

abbreviation "told_env \<equiv> carrying_env\<lparr> ne_object := Inr (Some (loop_machine (Some told_status))) \<rparr>"

lemma idle_decision_taken: "PE_Decide ''n1'' idle_decision \<in> set (pl_log (pool_reconcile idle_pool_env (sample_pool 0)))"
  by code_simp

lemma told_machine_cordoned: "E_NodePatch ''n1'' cordon_patch \<in> set (pr_log (reconcile told_env))"
  by code_simp

lemma told_run:
  "\<exists>w. control_loop w \<and> w_read w ''n1'' = Some (loop_machine (Some told_status))
     \<and> w_passes w = [(idle_pool_env, sample_pool 0)]"
proof -
  let ?w0 = "\<lparr> w_stored = (\<lambda>_. None), w_read = (\<lambda>_. None), w_passes = [] \<rparr> :: world"
  let ?w1 = "?w0\<lparr> w_stored := (w_stored ?w0)(''n1'' := Some (loop_machine None)) \<rparr>"
  let ?w2 = "?w1\<lparr> w_passes := (idle_pool_env, sample_pool 0) # w_passes ?w1 \<rparr>"
  let ?w3 = "?w2\<lparr> w_stored := (w_stored ?w2)(''n1'' := Some ((loop_machine None)\<lparr> np_status := Some told_status \<rparr>)) \<rparr>"
  let ?w4 = "?w3\<lparr> w_read := (w_read ?w3)(''n1'' := w_stored ?w3 ''n1'') \<rparr>"
  have "control_loop ?w1" by (rule edit [OF start]) (simp add: loop_machine_def)
  then have "control_loop ?w2"
    by (rule pool_pass) (simp_all add: sample_pool_env_def written_before_def sample_pool_def default_pool_status_def)
  then have "control_loop ?w3"
    by (rule decision_arrives [where env = idle_pool_env and pool = "sample_pool 0" and d = idle_decision])
      (simp_all add: idle_decision_taken)
  then have "control_loop ?w4" by (rule machine_reads)
  then show ?thesis by (intro exI [of _ ?w4]) (simp add: loop_machine_def)
qed

lemma taken_down_only_when_all_agreed_witness:
  "\<exists>w penv pool d. control_loop w \<and> (penv, pool) \<in> set (w_passes w)
     \<and> PE_Decide ''n1'' d \<in> set (pl_log (pool_reconcile penv pool)) \<and> sdn_target d = Target_Off
     \<and> E_NodePatch ''n1'' cordon_patch \<in> set (pr_log (reconcile told_env))"
proof -
  obtain w where w: "control_loop w" "w_read w ''n1'' = Some (loop_machine (Some told_status))"
    using told_run by blast
  have "ne_object told_env = Inr (Some (loop_machine (Some told_status)))"
      "nm_power_policy (np_spec (loop_machine (Some told_status))) = Auto"
    by (simp_all add: loop_machine_def sample_spec_def)
  from taken_down_only_when_all_agreed [OF w this told_machine_cordoned disjI1]
  show ?thesis using w(1) told_machine_cordoned by fastforce
qed

end
