(* ===== verification/Shutdown.thy ===== *)
theory Shutdown
  imports Control_Loop
begin

text \<open>
  A machine that is told to go off gets there.  Each pass that nothing obstructs brings it one
  step further down the phases, so that three of them are enough, whatever happens to the rest
  of its status, the cluster and the clock in between.
\<close>

section \<open>The pass of a reconciliation\<close>

definition stored_after :: "node_env \<Rightarrow> npmc_status \<Rightarrow> npmc_status" where
  "stored_after env st = unwrap_or (pr_written (reconcile env)) st"

lemma reconcile_drives:
  assumes mn: "ne_object env = Inr (Some mn)" and reading: "st_power_state (gate_outcome env mn) \<noteq> PS_Unknown"
  shows "\<exists>chain s. rs_st s = gate_outcome env mn
    \<and> (\<forall>q. fst (pass_from env mn chain s) = Inr q
        \<longrightarrow> stored_after env (machine_status mn) = rs_st (snd (pass_from env mn chain s)))"
  using reconcile_is_pass [OF mn] reading unfolding stored_after_def by blast

section \<open>Before a pass steers\<close>

text \<open>What matters for steering towards off.\<close>

definition course :: "npmc_status \<Rightarrow> phase \<times> instant option \<times> instant option \<times> power_state \<times> bool
    \<times> scaling_decision option \<times> string list" where
  "course st = (st_phase st, st_phase_since st, st_standby_since st, st_power_state st, st_node_ready st,
     st_scaling_decision st, st_pools st)"

lemma undisturbed_before_steering:
  assumes quiet: "detect_manual_change old (rs_st s) (rv_now env) (rv_boot_timeout env)
            (lc_shutdown_timeout_seconds (lifecycle env)) = MC_None"
    and boot: "st_node_ready (rs_st s) \<or> st_power_state (rs_st s) = PS_Off"
    and hands_off: "st_manual_power_on (rs_st s) = None"
  shows "\<exists>s'. before_steering env old s = (None, s') \<and> course (rs_st s') = course (rs_st s)
    \<and> st_manual_power_on (rs_st s') = None"
proof -
  let ?st = "clear_manual_on MC_None (rs_st s)"
  let ?t = "track_boot ?st (rv_now env) (rv_boot_timeout env)"
  have st: "course ?st = course (rs_st s)" "st_manual_power_on ?st = None"
    using hands_off by (simp_all add: clear_manual_on_def course_def)
  have t: "course (fst ?t) = course (rs_st s)" "st_manual_power_on (fst ?t) = None" "snd ?t \<noteq> BE_Failed"
    using st boot by (auto simp: track_boot_def course_def is_booting_def Let_def)
  have "fst (on_boot env (snd ?t) (s\<lparr> rs_st := fst ?t \<rparr>)) = None
      \<and> rs_st (snd (on_boot env (snd ?t) (s\<lparr> rs_st := fst ?t \<rparr>))) = fst ?t"
    using t boot by (cases "snd ?t") (auto simp: on_boot_def course_def event_def emit_def split: option.split)
  then show ?thesis
    using t unfolding before_steering_def quiet Let_def on_manual_change_def
    by (metis manual_change.case(1) prod.collapse)
qed

lemma course_desired: "course st = course st' \<Longrightarrow> desired_target policy st = desired_target policy st'"
  by (auto simp: course_def desired_target_def split: power_policy.split option.split)

section \<open>One unobstructed pass\<close>

text \<open>How far a machine is from being off.\<close>

fun off_rank :: "phase \<Rightarrow> nat" where
  "off_rank Ph_Off = 0"
| "off_rank Ph_Standby = 0"
| "off_rank Ph_PoweringOff = 1"
| "off_rank Ph_Draining = 2"
| "off_rank _ = 3"

text \<open>Nothing stands in the way of a pass: the Node exists and is patched, the machine is to be off
  and nobody powered it on by hand.  It reads Off once it has been shut down, and On and Ready
  before; while it drains no pod is left that must go, and its sleep states need not be probed
  any more.\<close>

definition all_gone :: "node_env \<Rightarrow> npmc \<Rightarrow> bool" where
  "all_gone env mn = (\<forall>p \<in> set (pods_on (ne_pods env) (nm_node_name (np_spec mn))). drain_class_of p = DC_Ignore)"

definition unhindered :: "node_env \<Rightarrow> npmc \<Rightarrow> bool" where
  "unhindered env mn =
     (let st = gate_outcome env mn in
      is_some_and (ne_nodes env (nm_node_name (np_spec mn))) (\<lambda>_. True)
      \<and> desired_target (nm_power_policy (np_spec mn)) st = Some Target_Off \<and> st_manual_power_on st = None
      \<and> (if off_rank (st_phase st) \<le> 1 then st_power_state st = PS_Off \<and> \<not> st_node_ready st else up_and_ready st)
      \<and> (st_phase st = Ph_Draining \<longrightarrow> all_gone env mn
           \<and> (lc_power_off_mode (nm_lifecycle (np_spec mn)) = ModeAuto
                \<longrightarrow> is_some_and (st_phase_since st) (\<lambda>t. PROBE_WAIT_SECS < elapsed (ne_now env) t))))"

definition unobstructed :: "node_env \<Rightarrow> npmc \<Rightarrow> bool" where
  "unobstructed env mn = (unhindered env mn \<and> (\<forall>k. ne_patch_answer env k = Inr ()))"

lemma unobstructed_not_manual:
  assumes "st_phase old = st_phase st" "st_manual_power_on st = None"
    and "if off_rank (st_phase st) \<le> 1 then st_power_state st = PS_Off \<and> \<not> st_node_ready st else up_and_ready st"
  shows "detect_manual_change old st now boot shutdown = MC_None"
  using assms by (cases "st_phase st") (simp_all add: detect_manual_change_def up_and_ready_def Let_def)

lemma unobstructed_consistent:
  assumes "if off_rank (st_phase st) \<le> 1 then st_power_state st = PS_Off \<and> \<not> st_node_ready st else up_and_ready st"
  shows "reading_consistent env spec st"
  using assms by (auto simp: reading_consistent_def power_state_consistent_def up_and_ready_def Let_def split: if_splits)

text \<open>The steps themselves.\<close>

lemma offline_rank: "off_rank (phase_of (is_offline env s)) = 0"
  using phase_simple(3) [of env s] by auto

lemma start_drain_phase:
  assumes "rv_node env \<noteq> None" "\<And>k. rv_patch_answer env k = Inr ()"
  shows "fst (start_drain env s) = Inr (secs 2) \<and> phase_of (snd (start_drain env s)) = Ph_Draining"
proof -
  obtain n where n: "rv_node env = Some n" using assms(1) by blast
  obtain s' where "patch_node env cordon s = (Inr (), s')"
    using assms(2) by (cases "cordon n") (simp_all add: patch_node_def send_patch_def n)
  then show ?thesis by (simp add: start_drain_def n ph_simps)
qed

text \<open>A power-off or a suspension is on record, tried at the given time.\<close>

definition power_off_tried :: "instant \<Rightarrow> npmc_status \<Rightarrow> bool" where
  "power_off_tried now st = is_some_and (st_last_power_action st)
     (\<lambda>a. pa_action a \<in> {''PowerOff'', ''Standby''} \<and> pa_time a = now)"

lemma tried_update [simp]: "power_off_tried now (st_message_update f st) = power_off_tried now st"
    "power_off_tried now (st_phase_update f2 (st_phase_since_update f3 st)) = power_off_tried now st"
    "power_off_tried now (st_phase_since_update f3 (st_phase_update f2 st)) = power_off_tried now st"
  by (simp_all add: power_off_tried_def)

lemma power_off_is_tried: "power_off_tried (rv_now env) (rs_st (power_off env s))"
proof -
  have "power_off_tried (rv_now env) (rs_st (snd (act env a s')))" if "a \<in> {''PowerOff'', ''Standby''}" for a s'
    using that by (auto simp: act_def report_action_def record_action_def upd_def event_def warning_def
        set_message_def emit_def power_off_tried_def split: prod.split sum.split)
  from this [OF off_action_now_names] show ?thesis
    by (simp add: power_off_def set_phase_def upd_def Let_def)
qed

lemma drain_done_phase:
  assumes "\<forall>p \<in> set (pods_on (rv_pods env) (node_name env)). drain_class_of p = DC_Ignore"
    and "lc_power_off_mode (lifecycle env) = ModeAuto
      \<longrightarrow> is_some_and (st_phase_since (rs_st s)) (\<lambda>t. PROBE_WAIT_SECS < elapsed (rv_now env) t)"
  shows "fst (drain env s) = Inr FAST \<and> phase_of (snd (drain env s)) = Ph_PoweringOff
    \<and> power_off_tried (rv_now env) (rs_st (snd (drain env s)))"
proof -
  let ?pods = "pods_on (rv_pods env) (node_name env)"
  obtain r b s1 where d: "drain_pods ?pods s = (r, b, s1)" by (metis prod_cases3)
  have e: "r = []" "b = []" "rs_st s1 = rs_st s"
    using drain_pods_empty [of ?pods s] drain_pods_st [of ?pods s] assms(1) d by simp_all
  obtain k s2 where p: "advance_probe env s1 = (k, s2)" by fastforce
  have "st_phase_since (rs_st s2) = st_phase_since (rs_st s1)"
    using p by (auto simp: advance_probe_def upd_def event_def emit_def split: option.splits prod.splits)
  then have "lc_power_off_mode (lifecycle env) = ModeAuto \<Longrightarrow> \<not> in_phase_for env s2 \<le> PROBE_WAIT_SECS"
    using assms(2) e(3) by (cases "st_phase_since (rs_st s)") (simp_all add: in_phase_for_def)
  then show ?thesis by (auto simp: drain_def d e drained_def p ph_simps power_off_is_tried)
qed

lemma ensure_off_rank:
  assumes node: "rv_node env \<noteq> None" "\<And>k. rv_patch_answer env k = Inr ()"
    and reads: "if off_rank (phase_of s) \<le> 1 then st_power_state (rs_st s) = PS_Off \<and> \<not> st_node_ready (rs_st s)
         else up_and_ready (rs_st s)"
    and drains: "phase_of s = Ph_Draining \<Longrightarrow> (\<forall>p \<in> set (pods_on (rv_pods env) (node_name env)). drain_class_of p = DC_Ignore)
        \<and> (lc_power_off_mode (lifecycle env) = ModeAuto
             \<longrightarrow> is_some_and (st_phase_since (rs_st s)) (\<lambda>t. PROBE_WAIT_SECS < elapsed (rv_now env) t))"
  shows "\<exists>q. fst (ensure_off env s) = Inr q \<and> off_rank (phase_of (snd (ensure_off env s))) = off_rank (phase_of s) - 1
    \<and> (phase_of s = Ph_Draining \<longrightarrow> power_off_tried (rv_now env) (rs_st (snd (ensure_off env s))))"
proof (cases "off_rank (phase_of s) \<le> 1")
  case True
  then have "ensure_off env s = (Inr SLOW, is_offline env (note_wake env s))" using reads by (simp add: ensure_off_def Let_def)
  then show ?thesis using True offline_rank by auto
next
  case False
  then have on: "up_and_ready (rs_st s)" "phase_of s \<notin> {Ph_Off, Ph_Standby, Ph_PoweringOff}" using reads by auto
  then have n: "note_wake env s = s" by (simp add: note_wake_def woke_by_itself_def phase_of_def)
  have e: "ensure_off env s = (if phase_of s = Ph_Draining then drain env s else start_drain env s)"
    using on by (cases "phase_of s") (simp_all add: ensure_off_def n up_and_ready_def in_standby_def phase_of_def Let_def)
  show ?thesis
  proof (cases "phase_of s = Ph_Draining")
    case True
    then show ?thesis using drain_done_phase [of env s] drains by (simp add: e)
  next
    case other: False
    then have "off_rank (phase_of s) = 3" using on(2) by (cases "phase_of s") simp_all
    then show ?thesis using start_drain_phase [OF node, of s] other by (simp add: e)
  qed
qed

lemma gate_outcome_phase: "st_phase (gate_outcome env mn) = st_phase (machine_status mn)"
  by (simp add: gate_outcome_def gates_keep_phase machine_status_def Let_def split: sum.split)

text \<open>An unobstructed pass brings the machine one step further.\<close>

lemma unobstructed_pass:
  assumes mn: "ne_object env = Inr (Some mn)" and free: "unobstructed env mn"
  shows "off_rank (st_phase (stored_after env (machine_status mn))) = off_rank (st_phase (machine_status mn)) - 1
    \<and> (off_rank (st_phase (machine_status mn)) = 2
         \<longrightarrow> power_off_tried (ne_now env) (stored_after env (machine_status mn)))"
proof -
  let ?g = "gate_outcome env mn" and ?old = "machine_status mn"
  have f: "ne_nodes env (nm_node_name (np_spec mn)) \<noteq> None" "\<And>k. ne_patch_answer env k = Inr ()"
      "desired_target (nm_power_policy (np_spec mn)) ?g = Some Target_Off" "st_manual_power_on ?g = None"
      "if off_rank (st_phase ?g) \<le> 1 then st_power_state ?g = PS_Off \<and> \<not> st_node_ready ?g else up_and_ready ?g"
      "st_phase ?g = Ph_Draining \<Longrightarrow> all_gone env mn
         \<and> (lc_power_off_mode (nm_lifecycle (np_spec mn)) = ModeAuto
              \<longrightarrow> is_some_and (st_phase_since ?g) (\<lambda>t. PROBE_WAIT_SECS < elapsed (ne_now env) t))"
    using free by (simp_all add: unobstructed_def unhindered_def is_some_and_iff Let_def)
  have reading: "st_power_state ?g \<noteq> PS_Unknown" using f(5) by (auto simp: up_and_ready_def split: if_splits)
  obtain chain s where s: "rs_st s = ?g" and d: "\<And>q. fst (drive (pass_env env (np_spec mn) chain ?g) ?old
        (reading_consistent env (np_spec mn) ?g) s) = Inr q \<Longrightarrow> stored_after env ?old
        = rs_st (snd (drive (pass_env env (np_spec mn) chain ?g) ?old (reading_consistent env (np_spec mn) ?g) s))"
    using reconcile_drives [OF mn reading] unfolding pass_from_def by blast
  let ?renv = "pass_env env (np_spec mn) chain ?g"
  have phase: "st_phase ?old = st_phase ?g" by (rule gate_outcome_phase [symmetric])
  have "\<exists>s'. before_steering ?renv ?old s = (None, s') \<and> course (rs_st s') = course (rs_st s)
      \<and> st_manual_power_on (rs_st s') = None"
    by (rule undisturbed_before_steering)
      (use unobstructed_not_manual [OF phase f(4,5)] f(4,5) in \<open>auto simp: s up_and_ready_def split: if_splits\<close>)
  then obtain s' where b: "before_steering ?renv ?old s = (None, s')" "course (rs_st s') = course ?g"
      "st_manual_power_on (rs_st s') = None"
    using s by auto
  have same: "phase_of s' = st_phase ?g" "st_phase_since (rs_st s') = st_phase_since ?g"
      "st_power_state (rs_st s') = st_power_state ?g" "st_node_ready (rs_st s') = st_node_ready ?g"
    using b(2) by (simp_all add: course_def phase_of_def)
  have "desired_target (nm_power_policy (np_spec mn)) (rs_st s') = Some Target_Off"
    using course_desired [OF b(2)] f(3) by simp
  then have "drive ?renv ?old (reading_consistent env (np_spec mn) ?g) s = ensure_off ?renv s'"
    using f(1) b(3) unobstructed_consistent [OF f(5), of env "np_spec mn"]
    by (simp add: drive_before_steering b(1) steer_drives managed_target_def)
  moreover have "\<exists>q. fst (ensure_off ?renv s') = Inr q
      \<and> off_rank (phase_of (snd (ensure_off ?renv s'))) = off_rank (phase_of s') - 1
      \<and> (phase_of s' = Ph_Draining \<longrightarrow> power_off_tried (rv_now ?renv) (rs_st (snd (ensure_off ?renv s'))))"
    by (rule ensure_off_rank) (use f in \<open>auto simp: same up_and_ready_def all_gone_def split: if_splits\<close>)
  moreover have "off_rank (st_phase ?g) = 2 \<Longrightarrow> st_phase ?g = Ph_Draining" by (cases "st_phase ?g") simp_all
  ultimately show ?thesis using d by (auto simp: phase_of_def [symmetric] same phase)
qed

section \<open>Runs\<close>

text \<open>Passes on a machine, each from the status the pass before left stored, with an environment of
  its own.\<close>

definition with_status :: "npmc \<Rightarrow> npmc_status \<Rightarrow> npmc" where
  "with_status mn st = mn\<lparr> np_status := Some st \<rparr>"

fun unobstructed_run :: "npmc \<Rightarrow> npmc_status \<Rightarrow> node_env list \<Rightarrow> bool" where
  "unobstructed_run mn st [] = True"
| "unobstructed_run mn st (env # envs) =
     (ne_object env = Inr (Some (with_status mn st)) \<and> unobstructed env (with_status mn st)
      \<and> unobstructed_run mn (stored_after env st) envs)"

fun stored_after_run :: "npmc_status \<Rightarrow> node_env list \<Rightarrow> npmc_status" where
  "stored_after_run st [] = st"
| "stored_after_run st (env # envs) = stored_after_run (stored_after env st) envs"

lemma machine_status_with [simp]: "machine_status (with_status mn st) = st"
  by (simp add: with_status_def)

lemma run_rank: "unobstructed_run mn st envs
    \<Longrightarrow> off_rank (st_phase (stored_after_run st envs)) = off_rank (st_phase st) - length envs"
proof (induction envs arbitrary: st)
  case (Cons env envs)
  then show ?case using unobstructed_pass [of env "with_status mn st"] by simp
qed simp

text \<open>On the way down the power-off is tried, in one of the passes.\<close>

lemma run_tries: "unobstructed_run mn st envs \<Longrightarrow> 2 \<le> off_rank (st_phase st) \<Longrightarrow> off_rank (st_phase st) \<le> Suc (length envs)
    \<Longrightarrow> \<exists>before env after. envs = before @ env # after
          \<and> power_off_tried (ne_now env) (stored_after_run st (before @ [env]))"
proof (induction envs arbitrary: st)
  case (Cons env envs)
  note p = unobstructed_pass [of env "with_status mn st"]
  show ?case
  proof (cases "off_rank (st_phase st) = 2")
    case True
    then show ?thesis using p Cons.prems(1) by (intro exI [of _ "[]"] exI [of _ env] exI [of _ envs]) simp
  next
    case False
    then have "2 \<le> off_rank (st_phase (stored_after env st))"
        "off_rank (st_phase (stored_after env st)) \<le> Suc (length envs)"
      using p Cons.prems by simp_all
    moreover have "unobstructed_run mn (stored_after env st) envs" using Cons.prems(1) by simp
    ultimately obtain before env' after where "envs = before @ env' # after"
        "power_off_tried (ne_now env') (stored_after_run (stored_after env st) (before @ [env']))"
      using Cons.IH by blast
    then show ?thesis
      by (intro exI [of _ "env # before"] exI [of _ env'] exI [of _ after]) simp
  qed
qed simp

lemma off_rank_le: "off_rank p \<le> 3" "off_rank p = 0 \<longleftrightarrow> p \<in> {Ph_Off, Ph_Standby}"
  by (cases p; simp)+

text \<open>C35: A machine that is to be off gets there: after any three reconciliations that nothing
  obstructs it is off or in standby, from whatever phase it was in, and it stays there in every
  later one; and unless it was on its way already, a power-off or a suspension was tried in one
  of them.\<close>

theorem shutdown_completes:
  assumes "unobstructed_run mn st envs" and "3 \<le> length envs"
  shows "st_phase (stored_after_run st envs) \<in> {Ph_Off, Ph_Standby}
    \<and> (st_phase st \<notin> {Ph_Off, Ph_Standby, Ph_PoweringOff} \<longrightarrow> (\<exists>before env after. envs = before @ env # after
         \<and> power_off_tried (ne_now env) (stored_after_run st (before @ [env]))))"
proof (intro conjI impI)
  show "st_phase (stored_after_run st envs) \<in> {Ph_Off, Ph_Standby}"
    using run_rank [OF assms(1)] off_rank_le(1) [of "st_phase st"] assms(2) off_rank_le(2) by simp
  assume "st_phase st \<notin> {Ph_Off, Ph_Standby, Ph_PoweringOff}"
  then have "2 \<le> off_rank (st_phase st)" by (cases "st_phase st") simp_all
  moreover have "off_rank (st_phase st) \<le> Suc (length envs)" using off_rank_le(1) [of "st_phase st"] assms(2) by simp
  ultimately show "\<exists>before env after. envs = before @ env # after
         \<and> power_off_tried (ne_now env) (stored_after_run st (before @ [env]))"
    by (rule run_tries [OF assms(1)])
qed

text \<open>A shutdown in three passes: the Node is cordoned, the machine is shut down, and seen off.\<close>

abbreviation "before_shutdown \<equiv> default_npmc_status\<lparr> st_phase := Ph_On, st_node_ready := True, st_power_state := PS_On \<rparr>"
abbreviation "on_env st \<equiv> sample_node_env AlwaysOff PS_On (Some (sample_node ''True'')) [] st"
abbreviation "off_env st \<equiv> sample_node_env AlwaysOff PS_Off (Some (sample_node ''False'')) [] st"
abbreviation "shutdown_machine \<equiv> \<lparr> np_name = ''m1'', np_generation = Some 1, np_spec = sample_spec AlwaysOff, np_status = None \<rparr>"

lemma sample_unobstructed:
  "ne_object (on_env st) = Inr (Some (with_status shutdown_machine st))"
  "ne_object (off_env st) = Inr (Some (with_status shutdown_machine st))"
  "unobstructed (on_env st) mn = unhindered (on_env st) mn"
  "unobstructed (off_env st) mn = unhindered (off_env st) mn"
  by (simp_all add: sample_node_env_def with_status_def unobstructed_def)

lemma shutdown_completes_witness:
  "\<exists>envs. unobstructed_run shutdown_machine before_shutdown envs \<and> length envs = 3
     \<and> st_phase (stored_after_run before_shutdown envs) \<in> {Ph_Off, Ph_Standby}"
proof -
  let ?st1 = "stored_after (on_env before_shutdown) before_shutdown"
  let ?st2 = "stored_after (on_env ?st1) ?st1"
  let ?envs = "[on_env before_shutdown, on_env ?st1, off_env ?st2]"
  have "unhindered (on_env before_shutdown) (with_status shutdown_machine before_shutdown)" by code_simp
  moreover have "unhindered (on_env ?st1) (with_status shutdown_machine ?st1)" by code_simp
  moreover have "unhindered (off_env ?st2) (with_status shutdown_machine ?st2)" by code_simp
  ultimately have r: "unobstructed_run shutdown_machine before_shutdown ?envs"
    by (simp only: unobstructed_run.simps sample_unobstructed simp_thms)
  with shutdown_completes [OF r] show ?thesis by (intro exI [of _ ?envs]) simp
qed

end
