(* ===== verification/Power_Reasons.thy ===== *)
theory Power_Reasons
  imports Control_Loop
begin

text \<open>
  Why a machine is powered off, over a whole reconciliation: the state in which a pass steers, every
  reason for which the power of a machine is turned off or cut, what a contradicting reading holds
  back, and that the operator's own actions are on record for the passes that follow.
\<close>

section \<open>The state in which a pass steers\<close>

lemma on_boot_goes_on: "fst (on_boot env ev s) = None \<Longrightarrow> rs_st (snd (on_boot env ev s)) = rs_st s"
  by (cases ev) (auto simp: on_boot_def Let_def cmd_simps split: option.splits if_splits)

lemma manual_change_keeps:
  "st_phase (rs_st (on_manual_change env c s)) = st_phase (rs_st s)"
  "st_phase_since (rs_st (on_manual_change env c s)) = st_phase_since (rs_st s)"
  "st_power_state (rs_st (on_manual_change env c s)) = st_power_state (rs_st s)"
  "st_node_ready (rs_st (on_manual_change env c s)) = st_node_ready (rs_st s)"
  "st_scaling_decision (rs_st (on_manual_change env c s)) \<in> {None, st_scaling_decision (rs_st s)}"
  "st_standby_since (rs_st (on_manual_change env c s)) \<in> {None, st_standby_since (rs_st s)}"
  "st_boot_failure (rs_st (on_manual_change env c s)) \<in> {None, st_boot_failure (rs_st s)}"
  by (cases c; simp add: on_manual_change_def event_def emit_def upd_def Let_def)+

lemma before_steering_keeps:
  assumes "before_steering env old s = (None, s')"
  shows "commands s' = commands s"
    and "st_phase (rs_st s') = st_phase (rs_st s)" "st_phase_since (rs_st s') = st_phase_since (rs_st s)"
    and "st_power_state (rs_st s') = st_power_state (rs_st s)" "st_node_ready (rs_st s') = st_node_ready (rs_st s)"
    and "st_scaling_decision (rs_st s') \<in> {None, st_scaling_decision (rs_st s)}"
    and "st_standby_since (rs_st s') \<in> {None, st_standby_since (rs_st s)}"
proof -
  define c where "c = detect_manual_change old (rs_st s) (rv_now env) (rv_boot_timeout env)
      (lc_shutdown_timeout_seconds (lifecycle env))"
  let ?t = "track_boot (clear_manual_on c (rs_st s)) (rv_now env) (rv_boot_timeout env)"
  let ?s = "on_manual_change env c (s\<lparr> rs_st := fst ?t \<rparr>)"
  have b: "on_boot env (snd ?t) ?s = (None, s')"
    using assms unfolding before_steering_def c_def [symmetric] Let_def .
  then have st: "rs_st s' = rs_st ?s" using on_boot_goes_on [of env "snd ?t" ?s] by simp
  show "commands s' = commands s"
    using on_boot_None [of env "snd ?t" ?s] b by (simp add: cmd_simps commands_rs_update)
  have t: "st_phase (fst ?t) = st_phase (rs_st s)" "st_phase_since (fst ?t) = st_phase_since (rs_st s)"
      "st_power_state (fst ?t) = st_power_state (rs_st s)" "st_node_ready (fst ?t) = st_node_ready (rs_st s)"
      "st_scaling_decision (fst ?t) = st_scaling_decision (rs_st s)" "st_standby_since (fst ?t) = st_standby_since (rs_st s)"
    by (simp_all add: track_boot_def clear_manual_on_def Let_def)
  show "st_phase (rs_st s') = st_phase (rs_st s)" "st_phase_since (rs_st s') = st_phase_since (rs_st s)"
      "st_power_state (rs_st s') = st_power_state (rs_st s)" "st_node_ready (rs_st s') = st_node_ready (rs_st s)"
      "st_scaling_decision (rs_st s') \<in> {None, st_scaling_decision (rs_st s)}"
      "st_standby_since (rs_st s') \<in> {None, st_standby_since (rs_st s)}"
    using manual_change_keeps [of env c "s\<lparr> rs_st := fst ?t \<rparr>"] by (simp_all add: st t)
qed

section \<open>Powering off\<close>

text \<open>Shutting down, suspending or cutting the power, or noting in a dry run that it would be done.\<close>

fun powers_off :: "effect \<Rightarrow> bool" where
  "powers_off (E_PowerOff _ _) = True"
| "powers_off (E_Api (CreateHostPod _)) = True"
| "powers_off (E_DryRun action) = (action \<noteq> ''PowerOn'')"
| "powers_off _ = False"

lemma powers_off_command: "powers_off e \<Longrightarrow> is_command e"
  by (cases e rule: powers_off.cases) simp_all

lemma power_on_keeps_on: "e \<in> set (command_of env ''PowerOn'' s) \<Longrightarrow> \<not> powers_off e"
  by (auto simp: command_of_def execute_def split: prod.splits if_splits)

text \<open>Driving a machine on turns it off only to give up on it, or to boot it cold.\<close>

lemma ensure_on_powers_off:
  assumes "commands s = []" and e: "e \<in> set (commands (snd (ensure_on env s)))" "powers_off e"
  shows "\<not> up_and_ready (rs_st s)
    \<and> (power_on_attempt_of (rs_st s) (rv_now env) (rv_failure_policy env) (rv_power_on_timeout env) = Expired
         \<and> st_power_state (rs_st s) = PS_On
       \<or> st_phase (rs_st s) = Ph_PoweringOn \<and> st_standby_since (rs_st s) \<noteq> None
         \<and> as_i64 (rv_boot_timeout env) < in_phase_for env s)"
proof -
  let ?st = "rs_st s"
  let ?expired = "power_on_attempt_of ?st (rv_now env) (rv_failure_policy env) (rv_power_on_timeout env) = Expired"
  have online: "commands (snd (is_online env s)) = []" using is_online_sends [of env s] assms(1) by (simp add: sends_def)
  have up: "\<not> up_and_ready ?st" using e online by (auto simp: ensure_on_def up_and_ready_def Let_def)
  show ?thesis
  proof (cases ?expired)
    case True
    then have "snd (ensure_on env s) = release_failed_power_on env s"
      using up by (auto simp: ensure_on_def up_and_ready_def Let_def)
    then have "st_power_state ?st = PS_On"
      using e assms(1) by (auto simp: release_failed_power_on_def Let_def cmd_simps split: if_splits)
    with True up show ?thesis by simp
  next
    case False
    show ?thesis
    proof (cases "st_phase ?st = Ph_PoweringOn")
      case True
      then have "snd (ensure_on env s) = keep_powering_on env s"
        using up False by (auto simp: ensure_on_def up_and_ready_def Let_def)
      then show ?thesis
        using e assms(1) True up power_on_keeps_on
        by (auto simp: keep_powering_on_def Let_def cmd_simps commands_act split: if_splits)
    next
      case other: False
      let ?s = "emit (map E_Api (snd (cancel (cluster_at env s) (node_name env)))) s"
      have c: "commands ?s = []" using no_host_pod_cancel assms(1) by (simp add: cmd_simps)
      have p: "e \<notin> set (commands (act_power_on env s'))" if "commands s' = []" for s'
        using that e(2) power_on_keeps_on by (auto simp: act_power_on_def cmd_simps split: prod.split)
      have "e \<notin> set (commands (snd (case patch_node env uncordon_if_ours s of
          (Inl e, s) \<Rightarrow> (Inl e, s) | (Inr _, s) \<Rightarrow> (Inr FAST, set_phase env Ph_PoweringOn s))))"
        using assms(1) by (auto simp: cmd_simps split: prod.split sum.split)
      then have "e \<notin> set (commands (snd (ensure_on env s)))"
        using up False other p [OF c] p [OF assms(1)] assms(1)
        unfolding ensure_on_def Let_def by (auto simp: up_and_ready_def cmd_simps)
      with e(1) show ?thesis by simp
    qed
  qed
qed

text \<open>A boot that fails, or failed and is still up.\<close>

lemma on_boot_powers_off:
  assumes "e \<in> set (commands (snd (on_boot env ev s)))" "e \<notin> set (commands s)"
  shows "ev = BE_Failed \<or> ev = BE_None \<and> st_power_state (rs_st s) = PS_On \<and> \<not> st_node_ready (rs_st s)
    \<and> (\<exists>f. st_boot_failure (rs_st s) = Some f \<and> \<not> bf_left_on f
         \<and> min (as_i64 (lc_shutdown_timeout_seconds (lifecycle env))) 240 < elapsed (rv_now env) (bf_time f))"
  using assms
  by (cases ev) (auto simp: on_boot_def Let_def cmd_simps STANDBY_SETTLE_SECS_def split: option.splits if_splits)

lemma before_steering_powers_off:
  assumes "commands s = []" and e: "e \<in> set (commands (snd (before_steering env old s)))"
  shows "st_power_state (rs_st s) = PS_On \<and> \<not> st_node_ready (rs_st s)
    \<and> (is_booting (rs_st s) \<and> as_i64 (rv_boot_timeout env)
          < elapsed (rv_now env) (unwrap_or (st_powered_on_not_ready_since (rs_st s)) (boot_start (rs_st s) (rv_now env)))
       \<or> (\<exists>f. st_boot_failure (rs_st s) = Some f \<and> \<not> bf_left_on f
            \<and> min (as_i64 (lc_shutdown_timeout_seconds (lifecycle env))) 240 < elapsed (rv_now env) (bf_time f)))"
proof -
  define c where "c = detect_manual_change old (rs_st s) (rv_now env) (rv_boot_timeout env)
      (lc_shutdown_timeout_seconds (lifecycle env))"
  let ?t = "track_boot (clear_manual_on c (rs_st s)) (rv_now env) (rv_boot_timeout env)"
  let ?s = "on_manual_change env c (s\<lparr> rs_st := fst ?t \<rparr>)"
  have "e \<in> set (commands (snd (on_boot env (snd ?t) ?s)))"
    using e unfolding before_steering_def c_def [symmetric] Let_def .
  moreover have "e \<notin> set (commands ?s)" using assms(1) by (simp add: cmd_simps commands_rs_update)
  ultimately have "snd ?t = BE_Failed \<or> snd ?t = BE_None \<and> st_power_state (rs_st ?s) = PS_On \<and> \<not> st_node_ready (rs_st ?s)
    \<and> (\<exists>f. st_boot_failure (rs_st ?s) = Some f \<and> \<not> bf_left_on f
         \<and> min (as_i64 (lc_shutdown_timeout_seconds (lifecycle env))) 240 < elapsed (rv_now env) (bf_time f))"
    by (rule on_boot_powers_off)
  then show ?thesis
  proof (elim disjE conjE exE)
    assume f: "snd ?t = BE_Failed"
    then have b: "is_booting (clear_manual_on c (rs_st s))" by (simp add: track_boot_Failed)
    then have on: "st_power_state (rs_st s) = PS_On" by (simp add: is_booting_def clear_manual_on_def split: if_splits)
    then have "clear_manual_on c (rs_st s) = rs_st s" by (simp add: clear_manual_on_def)
    with f on show ?thesis by (simp add: track_boot_Failed)
  next
    fix f
    assume n: "snd ?t = BE_None" and on: "st_power_state (rs_st ?s) = PS_On" "\<not> st_node_ready (rs_st ?s)"
      and f: "st_boot_failure (rs_st ?s) = Some f" "\<not> bf_left_on f"
      "min (as_i64 (lc_shutdown_timeout_seconds (lifecycle env))) 240 < elapsed (rv_now env) (bf_time f)"
    have "st_boot_failure (fst ?t) = Some f" "st_power_state (fst ?t) = PS_On" "\<not> st_node_ready (fst ?t)"
      using manual_change_keeps [of env c "s\<lparr> rs_st := fst ?t \<rparr>"] f(1) on by auto
    then have "st_boot_failure (rs_st s) = Some f \<and> st_power_state (rs_st s) = PS_On \<and> \<not> st_node_ready (rs_st s)"
      using n by (auto simp: track_boot_def clear_manual_on_def Let_def split: if_splits)
    with f(2,3) show ?thesis by blast
  qed
qed

section \<open>Every reason\<close>

text \<open>A machine on its way off: its Node exists and does not contradict the reading, which is not
  Off; and it is powering off, or drained, or its drain timed out and it is to be forced then.\<close>

definition going_off :: "node_env \<Rightarrow> npmc \<Rightarrow> bool" where
  "going_off env mn =
     (let st = gate_outcome env mn; spec = np_spec mn; lc = nm_lifecycle spec in
      ne_nodes env (nm_node_name spec) \<noteq> None \<and> reading_consistent env spec st \<and> st_power_state st \<noteq> PS_Off
      \<and> (st_phase st = Ph_PoweringOff
         \<or> st_phase st = Ph_Draining
           \<and> ((\<forall>p \<in> set (pods_on (ne_pods env) (nm_node_name spec)). drain_class_of p = DC_Ignore)
              \<or> lc_force_after_drain_timeout lc
                \<and> is_none_or (st_phase_since st)
                    (\<lambda>t. as_i64 (lc_drain_timeout_seconds lc) < elapsed (ne_now env) t))))"

text \<open>A machine whose boot failed: it reads On, its Node is not Ready, and this takes longer than the
  boot timeout, or a failure is on record, not to be left on, that a shutdown has had its time since.\<close>

definition boot_overdue :: "node_env \<Rightarrow> npmc \<Rightarrow> bool" where
  "boot_overdue env mn =
     (let st = gate_outcome env mn; spec = np_spec mn; now = ne_now env in
      st_power_state st = PS_On \<and> \<not> st_node_ready st
      \<and> (is_booting st \<and> as_i64 (boot_timeout_for env spec st)
             < elapsed now (unwrap_or (st_powered_on_not_ready_since st) (boot_start st now))
         \<or> is_some_and (st_boot_failure st) (\<lambda>f. \<not> bf_left_on f
             \<and> min (as_i64 (lc_shutdown_timeout_seconds (nm_lifecycle spec))) 240 < elapsed now (bf_time f))))"

text \<open>How long an attempt to power the machine on may take, by the pool that decided it.\<close>

definition power_on_limit :: "node_env \<Rightarrow> npmc \<Rightarrow> nat" where
  "power_on_limit env mn =
     (let st = gate_outcome env mn in
      snd (effective_power_on_failure (deciding_pool st)
        (map (\<lambda>p. (po_name p, ps_scale_up (po_spec p))) (member_pools env st)) (boot_timeout_for env (np_spec mn) st)))"

text \<open>A suspended machine that does not wake: its power-on attempt expired while it reads On, or it is
  being woken for longer than the boot timeout.\<close>

definition wake_overdue :: "node_env \<Rightarrow> npmc \<Rightarrow> bool" where
  "wake_overdue env mn =
     (let st = gate_outcome env mn; spec = np_spec mn; now = ne_now env
      in ne_nodes env (nm_node_name spec) \<noteq> None \<and> st_standby_since st \<noteq> None
      \<and> (st_power_state st = PS_On \<and> \<not> st_node_ready st
           \<and> is_some_and (st_scaling_decision st)
               (\<lambda>d. sdn_target d = Target_On \<and> as_i64 (power_on_limit env mn) < elapsed now (sdn_time d))
         \<or> st_phase st = Ph_PoweringOn
           \<and> is_none_or (st_phase_since st) (\<lambda>t. as_i64 (boot_timeout_for env spec st) < elapsed now t)))"

lemma pass_env_limits:
  "rv_boot_timeout (pass_env env spec chain st) = boot_timeout_for env spec st"
  "rv_power_on_timeout (pass_env env spec chain st) = snd (effective_power_on_failure (deciding_pool st)
     (map (\<lambda>p. (po_name p, ps_scale_up (po_spec p))) (member_pools env st)) (boot_timeout_for env spec st))"
  by (simp_all add: pass_env_def Let_def split: prod.split)

text \<open>What a pass that steers sends.\<close>

lemma steer_powers_off:
  assumes "commands s = []" and e: "e \<in> set (commands (snd (steer env c s)))" "powers_off e"
  shows "rv_node env \<noteq> None \<and> c
    \<and> (e \<in> set (commands (snd (ensure_on env s))) \<or> e \<in> set (commands (snd (ensure_off env s))))"
proof -
  have "rv_node env \<noteq> None \<and> c"
  proof (rule ccontr)
    assume "\<not> (rv_node env \<noteq> None \<and> c)"
    then have "rv_node env = None \<or> \<not> c" by simp
    from steer_refuses [OF this, of s] e(1) assms(1) show False by (auto simp: cmd_simps)
  qed
  then show ?thesis
    using e(1) assms(1) by (auto simp: steer_drives cmd_simps split: option.splits power_target.splits)
qed

text \<open>A command in the log was sent by the pass.\<close>

lemma command_in_pass:
  assumes "ne_object env = Inr (Some mn)" and "e \<in> set (pr_log (reconcile env))" "is_command e"
  obtains chain s where "rs_st s = gate_outcome env mn" "commands s = []" "e \<in> set (commands (snd (pass_from env mn chain s)))"
    "\<And>st. pr_written (reconcile env) = Some st \<Longrightarrow> st = rs_st (snd (pass_from env mn chain s))"
proof -
  have "e \<in> set (filter is_command (pr_log (reconcile env)))" using assms(2,3) by simp
  then have "filter is_command (pr_log (reconcile env)) \<noteq> []" by (metis empty_iff list.set(1))
  then obtain chain s where "rs_st s = gate_outcome env mn" "commands s = []"
      "pr_log (reconcile env) = rs_log (snd (pass_from env mn chain s))"
      "\<And>st. pr_written (reconcile env) = Some st \<Longrightarrow> st = rs_st (snd (pass_from env mn chain s))"
    using reconcile_is_pass [OF assms(1)] by blast
  then show thesis using that assms(2,3) by (simp add: commands_def)
qed

text \<open>Driving a machine on powers it off only when it does not wake.\<close>

lemma gives_up_waking:
  assumes b: "before_steering renv old s = (None, s')" and s: "rs_st s = gate_outcome env mn" "commands s = []"
    and renv: "renv = pass_env env (np_spec mn) chain (gate_outcome env mn)" "rv_node renv \<noteq> None"
    and e: "e \<in> set (commands (snd (ensure_on renv s')))" "powers_off e"
  shows "\<not> up_and_ready (gate_outcome env mn) \<and> wake_overdue env mn"
proof -
  note f = pass_env_fields [of env "np_spec mn" chain "gate_outcome env mn", folded renv(1)]
    pass_env_limits [of env "np_spec mn" chain "gate_outcome env mn", folded renv(1)]
  note k = before_steering_keeps [OF b, unfolded s(1)]
  have "commands s' = []" using k(1) s(2) by simp
  from ensure_on_powers_off [OF this e] have up: "\<not> up_and_ready (rs_st s')"
    and "power_on_attempt_of (rs_st s') (rv_now renv) (rv_failure_policy renv) (rv_power_on_timeout renv) = Expired
           \<and> st_power_state (rs_st s') = PS_On
         \<or> st_phase (rs_st s') = Ph_PoweringOn \<and> st_standby_since (rs_st s') \<noteq> None
           \<and> as_i64 (rv_boot_timeout renv) < in_phase_for renv s'" by blast+
  from this(2) have "wake_overdue env mn"
  proof
    assume x: "power_on_attempt_of (rs_st s') (rv_now renv) (rv_failure_policy renv) (rv_power_on_timeout renv) = Expired
       \<and> st_power_state (rs_st s') = PS_On"
    then obtain d where "\<not> st_node_ready (rs_st s')" "st_scaling_decision (rs_st s') = Some d" "sdn_target d = Target_On"
        "as_i64 (rv_power_on_timeout renv) < elapsed (rv_now renv) (sdn_time d)" "st_standby_since (rs_st s') \<noteq> None"
      using power_on_attempt_expires [of "rs_st s'" "rv_now renv" "rv_failure_policy renv" "rv_power_on_timeout renv"]
      by auto
    moreover from this(2) k(6) have "st_scaling_decision (gate_outcome env mn) = Some d" by auto
    ultimately show ?thesis using x k(4,5,7) renv(2) by (auto simp: wake_overdue_def power_on_limit_def f Let_def)
  next
    assume "st_phase (rs_st s') = Ph_PoweringOn \<and> st_standby_since (rs_st s') \<noteq> None
       \<and> as_i64 (rv_boot_timeout renv) < in_phase_for renv s'"
    with k(2,3,7) renv(2) show ?thesis
      by (auto simp: wake_overdue_def f in_phase_for_def Let_def split: option.splits)
  qed
  then show ?thesis using up k(4,5) by (simp add: up_and_ready_def)
qed

text \<open>C3: Every reason for which a reconciliation powers a machine off, by a shutdown, a suspension or a
  cut of the power (or would, in a dry run).  It is on its way off: already powering off, or drained
  so that nothing is left on its Node that has to go, or its drain timed out and it is configured to
  be forced then; and its Node exists and does not contradict the reading.  Or it is not up, with a
  Ready Node, in the first place: its boot is overdue or failed, or it does not wake from standby.
  So a machine that reads On with its Node Ready is never powered off but after its drain.\<close>

theorem power_off_reasons:
  assumes mn: "ne_object env = Inr (Some mn)"
    and e: "e \<in> set (pr_log (reconcile env))" "powers_off e"
  shows "going_off env mn \<or> \<not> up_and_ready (gate_outcome env mn) \<and> (boot_overdue env mn \<or> wake_overdue env mn)"
proof -
  let ?g = "gate_outcome env mn" and ?spec = "np_spec mn"
  obtain chain s where s: "rs_st s = ?g" "commands s = []" "e \<in> set (commands (snd (pass_from env mn chain s)))"
    using command_in_pass [OF mn e(1) powers_off_command [OF e(2)]] by metis
  define renv where "renv = pass_env env ?spec chain ?g"
  note f = pass_env_fields [of env ?spec chain ?g, folded renv_def] pass_env_limits [of env ?spec chain ?g, folded renv_def]
  obtain q s' where b: "before_steering renv (machine_status mn) s = (q, s')" by fastforce
  have d: "pass_from env mn chain s = (case q of Some r \<Rightarrow> (Inr r, s')
      | None \<Rightarrow> steer renv (reading_consistent env ?spec ?g) s')"
    unfolding pass_from_def renv_def [symmetric] by (simp add: drive_before_steering b)
  show ?thesis
  proof (cases q)
    case (Some r)
    then have "e \<in> set (commands (snd (before_steering renv (machine_status mn) s)))" using s(3) d b by simp
    from before_steering_powers_off [OF s(2) this] have "boot_overdue env mn"
      by (auto simp: boot_overdue_def s(1) f is_some_and_iff Let_def)
    then show ?thesis by (auto simp: boot_overdue_def up_and_ready_def Let_def)
  next
    case None
    note k = before_steering_keeps [OF b [unfolded None], unfolded s(1)]
    have k1: "commands s' = []" using k(1) s(2) by simp
    have "e \<in> set (commands (snd (steer renv (reading_consistent env ?spec ?g) s')))" using s(3) d None by simp
    from steer_powers_off [OF k1 this e(2)] have g: "rv_node renv \<noteq> None" "reading_consistent env ?spec ?g"
      and "e \<in> set (commands (snd (ensure_on renv s'))) \<or> e \<in> set (commands (snd (ensure_off renv s')))" by blast+
    from this(3) show ?thesis
    proof
      assume "e \<in> set (commands (snd (ensure_on renv s')))"
      from gives_up_waking [OF b [unfolded None] s(1,2) renv_def g(1) this e(2)] show ?thesis by simp
    next
      assume "e \<in> set (commands (snd (ensure_off renv s')))"
      then have "commands (snd (ensure_off renv s')) \<noteq> commands s'" using k1 by auto
      from ensure_off_commands [OF this] have "going_off env mn" using g k(2-5)
        by (auto simp: going_off_def f drain_timed_out_def in_phase_for_def Let_def split: option.splits)
      then show ?thesis by simp
    qed
  qed
qed

lemma power_off_reasons_witness:
  "\<exists>mn. ne_object draining_sample = Inr (Some mn) \<and> going_off draining_sample mn
     \<and> E_PowerOff False [''ipmi''] \<in> set (pr_log (reconcile draining_sample))"
proof -
  let ?mn = "\<lparr> np_name = ''m1'', np_generation = Some 1, np_spec = sample_spec AlwaysOff,
     np_status = Some (default_npmc_status\<lparr> st_phase := Ph_Draining, st_phase_since := Some (secs 99990) \<rparr>) \<rparr>"
  have mn: "ne_object draining_sample = Inr (Some ?mn)" by (simp add: sample_node_env_def)
  have e: "E_PowerOff False [''ipmi''] \<in> set (pr_log (reconcile draining_sample))" by code_simp
  have "up_and_ready (gate_outcome draining_sample ?mn)" by code_simp
  with power_off_reasons [OF mn e] have "going_off draining_sample ?mn" by simp
  with mn e show ?thesis by blast
qed

section \<open>A contradicting reading\<close>

lemma gate_outcome_ready:
  "st_node_ready (gate_outcome env mn) = is_some_and (ne_nodes env (nm_node_name (np_spec mn))) node_ready"
  by (simp add: gate_outcome_def gated_fields Let_def split: sum.split)

lemma gate_outcome_last_action:
  "st_last_power_action (gate_outcome env mn) = st_last_power_action (machine_status mn)"
proof -
  have c: "st_last_power_action (status_set_condition st ty x r m now) = st_last_power_action st" for st ty x r m now
    by (simp add: status_set_condition_def)
  have "st_last_power_action (fst (gate_identity now spec old results st)) = st_last_power_action st"
    "st_last_power_action (fst (gate_reading now b old st)) = st_last_power_action st" for now spec old results st b
    by (simp_all add: gate_identity_def gate_reading_def c Let_def)
  moreover have "st_last_power_action (gated_status env spec old) = st_last_power_action old" for spec old
    by (simp add: gated_status_def gate_node_def note_node_def gate_pools_def membership_condition_def c Let_def
        split: option.split membership.split)
  ultimately show ?thesis by (simp add: gate_outcome_def machine_status_def Let_def split: sum.split)
qed

text \<open>C15: While the interfaces read Off although the machine's Node is Ready and its kubelet renewed
  its lease in the last 15 seconds, the machine is only observed: nothing is sent to it, its Node
  is not cordoned and no pod is evicted.  The one exception are the 90 seconds after a power-off or
  suspension by the operator itself, in which a Node may still look alive and the reading is
  believed.\<close>

theorem contradiction_blocks_commands:
  assumes mn: "ne_object env = Inr (Some mn)" and off: "st_power_state (gate_outcome env mn) = PS_Off"
    and node: "ne_nodes env (nm_node_name (np_spec mn)) = Some n" "node_ready n"
    and lease: "ne_lease env (nm_node_name (np_spec mn)) = Inr (Some (Some renewed))"
      "num_seconds (ne_now env - secs renewed) \<le> 15"
    and not_ours: "\<forall>a. st_last_power_action (machine_status mn) = Some a
        \<and> pa_action a \<in> {''PowerOff'', ''ForceOff'', ''Standby''} \<longrightarrow> 90 < elapsed (ne_now env) (pa_time a)"
  shows "filter is_command (pr_log (reconcile env)) = [] \<and> quiet (pr_log (reconcile env))"
proof -
  let ?g = "gate_outcome env mn"
  have ready: "st_node_ready ?g" by (simp add: gate_outcome_ready node)
  have last: "action_age ?g (ne_now env) [''PowerOff'', ''ForceOff'', ''Standby''] = Some a \<Longrightarrow> 90 < a" for a
    using not_ours by (auto simp: action_age_def gate_outcome_last_action split: option.splits if_splits)
  have bad: "\<not> reading_consistent env (np_spec mn) ?g"
    using last lease(2)
    by (auto simp: reading_consistent_def power_state_consistent_def off ready lease_age_secs_def lease(1)
        LEASE_FRESH_SECS_def OFF_GRACE_SECS_def Let_def is_some_and_iff)
  have known: "st_power_state ?g \<noteq> PS_Unknown" by (simp add: off)
  from reconcile_is_pass [OF mn] known obtain chain s where s: "rs_st s = ?g" "quiet (rs_log s)" "commands s = []"
      "pr_log (reconcile env) = rs_log (snd (pass_from env mn chain s))" by blast
  have "commands (snd (pass_from env mn chain s)) = commands s"
    unfolding pass_from_def using bad off s(1) by (intro drive_observes) simp_all
  moreover have "filter disruptive (rs_log (snd (pass_from env mn chain s))) = filter disruptive (rs_log s)"
    unfolding pass_from_def using bad by (intro undisturbed.H_drive) simp_all
  ultimately show ?thesis using s by (simp add: commands_def)
qed

abbreviation "contradicting_env \<equiv> sample_node_env AlwaysOff PS_Off (Some (sample_node ''True'')) []
  (default_npmc_status\<lparr> st_phase := Ph_Draining, st_phase_since := Some (secs 99990) \<rparr>)"

lemma contradiction_blocks_commands_witness:
  "filter is_command (pr_log (reconcile contradicting_env)) = []"
proof -
  let ?mn = "\<lparr> np_name = ''m1'', np_generation = Some 1, np_spec = sample_spec AlwaysOff,
     np_status = Some (default_npmc_status\<lparr> st_phase := Ph_Draining, st_phase_since := Some (secs 99990) \<rparr>) \<rparr>"
  have mn: "ne_object contradicting_env = Inr (Some ?mn)" by (simp add: sample_node_env_def)
  have off: "st_power_state (gate_outcome contradicting_env ?mn) = PS_Off" by code_simp
  have node: "ne_nodes contradicting_env (nm_node_name (np_spec ?mn)) = Some (sample_node ''True'')"
      "node_ready (sample_node ''True'')"
    by code_simp+
  have lease: "ne_lease contradicting_env (nm_node_name (np_spec ?mn)) = Inr (Some (Some 99999))"
      "num_seconds (ne_now contradicting_env - secs 99999) \<le> 15"
    by (simp_all add: sample_node_env_def num_seconds_def secs_def)
  have "\<forall>a. st_last_power_action (machine_status ?mn) = Some a \<and> pa_action a \<in> {''PowerOff'', ''ForceOff'', ''Standby''}
      \<longrightarrow> 90 < elapsed (ne_now contradicting_env) (pa_time a)"
    by (simp add: machine_status_def default_npmc_status_def)
  from contradiction_blocks_commands [OF mn off node lease this] show ?thesis by simp
qed

section \<open>Own actions\<close>

lemma command_action:
  assumes "e \<in> set (command_of env a s)" "a \<in> ACTIONS"
  shows "powers_off e = (a \<in> {''PowerOff'', ''ForceOff'', ''Standby''})"
  using assms run_calls [of "cluster_at env s" "node_name env" "suspend_command env"]
  by (auto simp: ACTIONS_def command_of_def execute_def split: prod.splits sum.splits if_splits)

text \<open>How a later pass judges a machine by the action on record.\<close>

lemma detect_after_off:
  assumes "st_last_power_action st = Some r" "pa_action r \<in> {''PowerOff'', ''ForceOff'', ''Standby''}"
  shows "elapsed now (pa_time r) \<le> wrap_i64 (as_i64 shutdown + 300) \<Longrightarrow> detect_manual_change old st now boot shutdown \<noteq> MC_PoweredOff"
    and "wrap_i64 (as_i64 shutdown + 300) < elapsed now (pa_time r) \<Longrightarrow> st_phase old \<in> {Ph_On, Ph_PoweringOn, Ph_BootFailed}
      \<Longrightarrow> st_power_state old = PS_On \<Longrightarrow> st_power_state st = PS_Off \<Longrightarrow> \<not> st_node_ready st
      \<Longrightarrow> detect_manual_change old st now boot shutdown = MC_PoweredOff"
proof -
  have a: "action_age st now [''PowerOff'', ''ForceOff'', ''Standby''] = Some (elapsed now (pa_time r))"
    using assms by (simp add: action_age_def)
  show "elapsed now (pa_time r) \<le> wrap_i64 (as_i64 shutdown + 300) \<Longrightarrow> detect_manual_change old st now boot shutdown \<noteq> MC_PoweredOff"
    by (cases "st_phase old") (simp_all add: detect_manual_change_def a Let_def)
  assume "wrap_i64 (as_i64 shutdown + 300) < elapsed now (pa_time r)" "st_phase old \<in> {Ph_On, Ph_PoweringOn, Ph_BootFailed}"
    "st_power_state old = PS_On" "st_power_state st = PS_Off" "\<not> st_node_ready st"
  then show "detect_manual_change old st now boot shutdown = MC_PoweredOff"
    by (cases "st_phase old") (simp_all add: detect_manual_change_def a Let_def)
qed

lemma detect_after_on:
  assumes "st_last_power_action st = Some r" "pa_action r = ''PowerOn''"
  shows "elapsed now (pa_time r) \<le> as_i64 boot \<Longrightarrow> detect_manual_change old st now boot shutdown \<noteq> MC_PoweredOn"
    and "as_i64 boot < elapsed now (pa_time r) \<Longrightarrow> st_phase old = Ph_Off \<Longrightarrow> st_power_state st = PS_On \<or> st_node_ready st
      \<Longrightarrow> detect_manual_change old st now boot shutdown = MC_PoweredOn"
proof -
  have a: "action_age st now [''PowerOn''] = Some (elapsed now (pa_time r))" using assms by (simp add: action_age_def)
  show "elapsed now (pa_time r) \<le> as_i64 boot \<Longrightarrow> detect_manual_change old st now boot shutdown \<noteq> MC_PoweredOn"
    by (cases "st_phase old") (simp_all add: detect_manual_change_def a Let_def)
  assume "as_i64 boot < elapsed now (pa_time r)" "st_phase old = Ph_Off" "st_power_state st = PS_On \<or> st_node_ready st"
  then show "detect_manual_change old st now boot shutdown = MC_PoweredOn"
    by (simp add: detect_manual_change_def a Let_def)
qed



end
