(* ===== verification/Decisions_Carried.thy ===== *)
theory Decisions_Carried
  imports Shutdown Power_Reasons
begin

text \<open>
  From a pool's decision to what the machine controller does: a reconciliation that finds the
  decision in the status of its machine, and that nothing keeps from steering, is the pass towards
  the target that the pool decided, and takes the first step there.
\<close>

section \<open>A pass that steers\<close>

text \<open>Nothing keeps a reconciliation from steering its machine: the Node exists, the reading is there
  and does not contradict it, nobody switched the machine by hand, and it is not in the middle of a
  boot.\<close>

definition free_to_steer :: "node_env \<Rightarrow> npmc \<Rightarrow> bool" where
  "free_to_steer env mn =
     (let st = gate_outcome env mn; spec = np_spec mn in
      is_some_and (ne_nodes env (nm_node_name spec)) (\<lambda>_. True)
      \<and> st_power_state st \<noteq> PS_Unknown \<and> reading_consistent env spec st
      \<and> st_manual_power_on st = None
      \<and> detect_manual_change (machine_status mn) st (ne_now env) (boot_timeout_for env spec st)
          (lc_shutdown_timeout_seconds (nm_lifecycle spec)) = MC_None
      \<and> (st_node_ready st \<or> st_power_state st = PS_Off))"

fun towards :: "power_target \<Rightarrow> rc_env \<Rightarrow> rs \<Rightarrow> (string + duration) \<times> rs" where
  "towards Target_On = ensure_on"
| "towards Target_Off = ensure_off"

lemma gate_outcome_decision:
  assumes "st_scaling_decision (machine_status mn) = Some d"
    and "sdn_pool d \<in> set (membership_pools
           (resolve (map_option no_labels (ne_nodes env (nm_node_name (np_spec mn)))) (ne_pools env)))"
  shows "st_scaling_decision (gate_outcome env mn) = Some d"
proof -
  have c: "st_scaling_decision (status_set_condition st ty x r m now) = st_scaling_decision st" for st ty x r m now
    by (simp add: status_set_condition_def)
  have i: "st_scaling_decision (fst (gate_identity now spec old results st)) = st_scaling_decision st"
    "st_scaling_decision (fst (gate_reading now b old st)) = st_scaling_decision st" for now spec old results st b
    by (simp_all add: gate_identity_def gate_reading_def c Let_def)
  have n: "st_scaling_decision (gate_node now spec node st) = st_scaling_decision st" for now spec node st
    by (simp add: gate_node_def note_node_def c Let_def split: option.split)
  have m: "st_scaling_decision (membership_condition now r st) = st_scaling_decision st"
    "st_pools (membership_condition now r st) = st_pools st" for now r st
    by (simp_all add: membership_condition_def status_set_condition_def split: membership.split)
  have "st_scaling_decision (gated_status env (np_spec mn) (machine_status mn)) = Some d"
    using assms by (simp add: gated_status_def gate_pools_def n m Let_def)
  then show ?thesis by (simp add: gate_outcome_def i machine_status_def Let_def split: sum.split)
qed

lemma steered_pass:
  assumes mn: "ne_object env = Inr (Some mn)" and free: "free_to_steer env mn"
    and target: "desired_target (nm_power_policy (np_spec mn)) (gate_outcome env mn) = Some t"
  obtains chain s where "course (rs_st s) = course (gate_outcome env mn)" "commands s = []"
    "pr_log (reconcile env) = rs_log (snd (towards t (pass_env env (np_spec mn) chain (gate_outcome env mn)) s))"
    "\<And>q. fst (towards t (pass_env env (np_spec mn) chain (gate_outcome env mn)) s) = Inr q
       \<Longrightarrow> stored_after env (machine_status mn)
           = rs_st (snd (towards t (pass_env env (np_spec mn) chain (gate_outcome env mn)) s))"
proof -
  let ?g = "gate_outcome env mn" and ?old = "machine_status mn" and ?spec = "np_spec mn"
  have f: "ne_nodes env (nm_node_name ?spec) \<noteq> None" "st_power_state ?g \<noteq> PS_Unknown" "reading_consistent env ?spec ?g"
      "st_manual_power_on ?g = None" "st_node_ready ?g \<or> st_power_state ?g = PS_Off"
      "detect_manual_change ?old ?g (ne_now env) (boot_timeout_for env ?spec ?g)
          (lc_shutdown_timeout_seconds (nm_lifecycle ?spec)) = MC_None"
    using free by (simp_all add: free_to_steer_def is_some_and_iff Let_def)
  obtain chain s where s: "rs_st s = ?g" "commands s = []" "pr_log (reconcile env) = rs_log (snd (pass_from env mn chain s))"
      "\<And>q. fst (pass_from env mn chain s) = Inr q \<Longrightarrow> stored_after env ?old = rs_st (snd (pass_from env mn chain s))"
    using reconcile_is_pass [OF mn] f(2) unfolding stored_after_def by blast
  let ?renv = "pass_env env ?spec chain ?g"
  have "\<exists>s'. before_steering ?renv ?old s = (None, s') \<and> course (rs_st s') = course (rs_st s)
      \<and> st_manual_power_on (rs_st s') = None"
    by (rule undisturbed_before_steering) (use f in \<open>simp_all add: s(1) pass_env_limits\<close>)
  then obtain s' where b: "before_steering ?renv ?old s = (None, s')" "course (rs_st s') = course ?g"
      "st_manual_power_on (rs_st s') = None"
    using s(1) by auto
  have "commands s' = []" using before_steering_keeps(1) [OF b(1)] s(2) by simp
  moreover have "desired_target (nm_power_policy ?spec) (rs_st s') = Some t" using course_desired [OF b(2)] target by simp
  then have "pass_from env mn chain s = towards t ?renv s'"
    using f(1,3) b(3) by (cases t) (simp_all add: pass_from_def drive_before_steering b(1) steer_drives managed_target_def)
  ultimately show thesis using that b(2) s(3,4) by metis
qed

section \<open>The first step\<close>

lemma starts_drain:
  assumes node: "rv_node env = Some n" "\<And>k. rv_patch_answer env k = Inr ()"
    and st: "up_and_ready (rs_st s)" "off_rank (phase_of s) = 3"
  shows "fst (ensure_off env s) = Inr (secs 2) \<and> phase_of (snd (ensure_off env s)) = Ph_Draining
    \<and> (is_cordoned n \<or> E_NodePatch (no_name n) cordon_patch \<in> set (rs_log (snd (ensure_off env s))))"
proof -
  have p: "phase_of s \<notin> {Ph_Off, Ph_Standby, Ph_PoweringOff, Ph_Draining}" using st(2) by auto
  then have "note_wake env s = s" by (simp add: note_wake_def woke_by_itself_def phase_of_def)
  then have "ensure_off env s = start_drain env s"
    using st(1) p by (cases "phase_of s") (simp_all add: ensure_off_def up_and_ready_def in_standby_def phase_of_def Let_def)
  moreover have "is_cordoned n \<or> E_NodePatch (no_name n) cordon_patch \<in> set (rs_log (snd (start_drain env s)))"
    using node by (auto simp: start_drain_def patch_node_def cordon_def send_patch_def emit_def event_def upd_def set_phase_def)
  moreover have "fst (start_drain env s) = Inr (secs 2) \<and> phase_of (snd (start_drain env s)) = Ph_Draining"
    by (rule start_drain_phase) (use node in simp_all)
  ultimately show ?thesis by simp
qed

lemma starts_power_on:
  assumes "phase_of s = Ph_Off" "st_power_state (rs_st s) = PS_Off"
    and "power_on_attempt_of (rs_st s) (rv_now env) (rv_failure_policy env) (rv_power_on_timeout env) \<noteq> Expired"
  shows "fst (ensure_on env s) = Inr FAST \<and> phase_of (snd (ensure_on env s)) \<in> {Ph_PoweringOn, Ph_Error}
    \<and> (\<exists>e \<in> set (rs_log (snd (ensure_on env s))). e = E_DryRun ''PowerOn'' \<or> (\<exists>tried. e = E_PowerOn tried))"
proof -
  have "ensure_on env s = (Inr FAST, act_power_on env s)"
    using assms by (simp add: ensure_on_def phase_of_def Let_def)
  moreover have "\<exists>e \<in> set (rs_log (act_power_on env s)). e = E_DryRun ''PowerOn'' \<or> (\<exists>tried. e = E_PowerOn tried)"
    by (auto simp: act_power_on_def act_def execute_def report_action_def set_phase_def upd_def emit_def event_def
        warning_def set_message_def split: prod.split sum.split)
  moreover have "phase_of (act_power_on env s) \<in> {Ph_PoweringOn, Ph_Error}"
    by (auto simp: act_power_on_def set_phase_def phase_of_def upd_def split: prod.split)
  ultimately show ?thesis by simp
qed

section \<open>Carrying out a decision\<close>

text \<open>C5: A decision that a pool wrote on an automatic machine is carried out.  A reconciliation that
  finds it on its machine, sees the machine in that pool and is free to steer, is exactly the pass
  towards the target of the decision, from the phase and reading it found.  So a running machine
  that is to go off is cordoned and put to draining at once, and a machine that is off and is to go
  on is sent a power-on (or would be, in a dry run) within the time its pool gives an attempt.\<close>

theorem decision_is_carried_out:
  assumes decided: "PE_Decide (np_name mn) d \<in> set (pl_log (pool_reconcile penv pool))"
    and mn: "ne_object env = Inr (Some mn)" "nm_power_policy (np_spec mn) = Auto"
    and arrived: "st_scaling_decision (machine_status mn) = Some d"
    and member: "po_name pool \<in> set (membership_pools
           (resolve (map_option no_labels (ne_nodes env (nm_node_name (np_spec mn)))) (ne_pools env)))"
    and free: "free_to_steer env mn"
  shows "(\<exists>chain s. course (rs_st s) = course (gate_outcome env mn) \<and> commands s = []
        \<and> pr_log (reconcile env)
            = rs_log (snd (towards (sdn_target d) (pass_env env (np_spec mn) chain (gate_outcome env mn)) s)))
    \<and> (sdn_target d = Target_Off \<and> up_and_ready (gate_outcome env mn)
          \<and> off_rank (st_phase (machine_status mn)) = 3 \<and> (\<forall>k. ne_patch_answer env k = Inr ())
        \<longrightarrow> st_phase (stored_after env (machine_status mn)) = Ph_Draining
          \<and> is_some_and (ne_nodes env (nm_node_name (np_spec mn)))
              (\<lambda>n. is_cordoned n \<or> E_NodePatch (no_name n) cordon_patch \<in> set (pr_log (reconcile env))))
    \<and> (sdn_target d = Target_On \<and> st_phase (machine_status mn) = Ph_Off
          \<and> st_power_state (gate_outcome env mn) = PS_Off
          \<and> elapsed (ne_now env) (sdn_time d) \<le> as_i64 (power_on_limit env mn)
        \<longrightarrow> st_phase (stored_after env (machine_status mn)) \<in> {Ph_PoweringOn, Ph_Error}
          \<and> (\<exists>e \<in> set (pr_log (reconcile env)). e = E_DryRun ''PowerOn'' \<or> (\<exists>tried. e = E_PowerOn tried)))"
proof -
  let ?g = "gate_outcome env mn" and ?spec = "np_spec mn"
  have "sdn_pool d = po_name pool" using pool_decides [OF decided] by simp
  then have d: "st_scaling_decision ?g = Some d" using gate_outcome_decision [OF arrived] member by simp
  have "desired_target (nm_power_policy ?spec) ?g = Some (sdn_target d)"
    using mn(2) d member \<open>sdn_pool d = po_name pool\<close> gate_outcome_fields(1) [of env mn] by (simp add: desired_target_def)
  from steered_pass [OF mn(1) free this] obtain chain s where s: "course (rs_st s) = course ?g" "commands s = []"
      "pr_log (reconcile env) = rs_log (snd (towards (sdn_target d) (pass_env env ?spec chain ?g) s))"
      "\<And>q. fst (towards (sdn_target d) (pass_env env ?spec chain ?g) s) = Inr q \<Longrightarrow> stored_after env (machine_status mn)
           = rs_st (snd (towards (sdn_target d) (pass_env env ?spec chain ?g) s))" by blast
  let ?renv = "pass_env env ?spec chain ?g"
  have c: "phase_of s = st_phase (machine_status mn)" "st_power_state (rs_st s) = st_power_state ?g"
      "up_and_ready (rs_st s) = up_and_ready ?g" "st_scaling_decision (rs_st s) = Some d"
    using s(1) d by (simp_all add: course_def up_and_ready_def phase_of_def gate_outcome_phase)
  obtain n where n: "ne_nodes env (nm_node_name ?spec) = Some n"
    using free by (auto simp: free_to_steer_def is_some_and_iff Let_def)
  have off: "st_phase (stored_after env (machine_status mn)) = Ph_Draining
      \<and> (is_cordoned n \<or> E_NodePatch (no_name n) cordon_patch \<in> set (pr_log (reconcile env)))"
    if "sdn_target d = Target_Off" "up_and_ready ?g" "off_rank (st_phase (machine_status mn)) = 3" "\<forall>k. ne_patch_answer env k = Inr ()"
    using starts_drain [of ?renv n s] that n s(3,4) c by (simp add: phase_of_def)
  have on: "st_phase (stored_after env (machine_status mn)) \<in> {Ph_PoweringOn, Ph_Error}
      \<and> (\<exists>e \<in> set (pr_log (reconcile env)). e = E_DryRun ''PowerOn'' \<or> (\<exists>tried. e = E_PowerOn tried))"
    if "sdn_target d = Target_On" "st_phase (machine_status mn) = Ph_Off" "st_power_state ?g = PS_Off"
      "elapsed (ne_now env) (sdn_time d) \<le> as_i64 (power_on_limit env mn)"
  proof -
    have "power_on_attempt_of (rs_st s) (rv_now ?renv) (rv_failure_policy ?renv) (rv_power_on_timeout ?renv) \<noteq> Expired"
      using that(4) c(4) by (auto simp: power_on_attempt_of_def pass_env_limits power_on_limit_def Let_def)
    from starts_power_on [OF _ _ this] show ?thesis using that(1-3) s(3,4) c(1,2) by (simp add: phase_of_def)
  qed
  show ?thesis using s(1-3) off on n by (intro conjI) (auto simp: is_some_and_iff)
qed

lemma decision_is_carried_out_witness:
  "st_phase (stored_after told_env told_status) = Ph_Draining
    \<and> E_NodePatch ''n1'' cordon_patch \<in> set (pr_log (reconcile told_env))"
proof -
  let ?mn = "loop_machine (Some told_status)"
  have d: "PE_Decide (np_name ?mn) idle_decision \<in> set (pl_log (pool_reconcile idle_pool_env (sample_pool 0)))"
    using idle_decision_taken by (simp add: loop_machine_def)
  have mn: "ne_object told_env = Inr (Some ?mn)" "nm_power_policy (np_spec ?mn) = Auto" "machine_status ?mn = told_status"
    by (simp_all add: loop_machine_def sample_spec_def machine_status_def)
  have a: "st_scaling_decision (machine_status ?mn) = Some idle_decision" by (simp add: mn(3))
  have m: "po_name (sample_pool 0) \<in> set (membership_pools
      (resolve (map_option no_labels (ne_nodes told_env (nm_node_name (np_spec ?mn)))) (ne_pools told_env)))"
    by code_simp
  have f: "free_to_steer told_env ?mn" "up_and_ready (gate_outcome told_env ?mn)" by code_simp+
  have n: "is_some_and (ne_nodes told_env (nm_node_name (np_spec ?mn))) (\<lambda>n. \<not> is_cordoned n \<and> no_name n = ''n1'')"
    by code_simp
  have "off_rank (st_phase (machine_status ?mn)) = 3" unfolding mn(3) by (simp add: default_npmc_status_def)
  moreover have "sdn_target idle_decision = Target_Off" "\<forall>k. ne_patch_answer told_env k = Inr ()"
    by (simp_all add: idle_decision_def sample_node_env_def)
  ultimately have "st_phase (stored_after told_env (machine_status ?mn)) = Ph_Draining
      \<and> is_some_and (ne_nodes told_env (nm_node_name (np_spec ?mn)))
          (\<lambda>n. is_cordoned n \<or> E_NodePatch (no_name n) cordon_patch \<in> set (pr_log (reconcile told_env)))"
    using decision_is_carried_out [OF d mn(1,2) a m f(1)] f(2) by blast
  then show ?thesis using n unfolding mn(3) by (auto simp: is_some_and_iff)
qed

end
