(* ===== verification/Evictions.thy ===== *)
theory Evictions
  imports Shutdown Power_Reasons
begin

text \<open>
  The pods a reconciliation evicts: only from a machine that is draining, and only pods that run on
  its Node and may be moved.
\<close>

interpretation evicting: leaving_property "\<lambda>st log. \<forall>ns n. E_Evict ns n \<in> set log \<longrightarrow> ok ns n" for ok
proof
  show "\<forall>ns n. E_Evict ns n \<in> set (log @ es) \<longrightarrow> ok ns n"
    if "\<forall>ns n. E_Evict ns n \<in> set log \<longrightarrow> ok ns n" "quiet es" for log es
    using that by (auto simp: filter_empty_conv)
qed simp_all

text \<open>The pods the drain may evict, as it names them.\<close>

definition evictable :: "kpod list \<Rightarrow> string \<Rightarrow> string \<Rightarrow> bool" where
  "evictable pods ns n = (\<exists>p \<in> set pods. drain_class_of p = DC_Evict \<and> p_deletion_timestamp p = None
     \<and> unwrap_or (p_namespace p) '''' = ns \<and> unwrap_or (p_name p) '''' = n)"

lemma drain_pods_evicts:
  "E_Evict ns n \<in> set (rs_log (snd (snd (drain_pods pods s)))) \<Longrightarrow> E_Evict ns n \<in> set (rs_log s) \<or> evictable pods ns n"
  by (induction pods s rule: drain_pods.induct)
     (auto simp: evictable_def emit_def split: drain_class.splits prod.splits if_splits)

lemma drain_evicts:
  assumes "\<forall>ns n. E_Evict ns n \<notin> set (rs_log s)"
  shows "\<forall>ns n. E_Evict ns n \<in> set (rs_log (snd (drain env s))) \<longrightarrow> evictable (pods_on (rv_pods env) (node_name env)) ns n"
proof -
  let ?pods = "pods_on (rv_pods env) (node_name env)"
  obtain r b s1 where d: "drain_pods ?pods s = (r, b, s1)" by (metis prod_cases3)
  have "\<forall>ns n. E_Evict ns n \<in> set (rs_log s1) \<longrightarrow> evictable ?pods ns n"
    using drain_pods_evicts [of _ _ ?pods s] assms d by fastforce
  note e = this evicting.H_drained [OF this] evicting.H_drain_failed [OF this] evicting.H_message [OF this]
    evicting.H_power_off [OF evicting.H_event(2) [OF evicting.H_message [OF this]]]
  show ?thesis unfolding drain_def d Let_def prod.case using e by simp
qed

lemma ensure_off_evicts:
  assumes "\<forall>ns n. E_Evict ns n \<notin> set (rs_log s)" and "E_Evict ns n \<in> set (rs_log (snd (ensure_off env s)))"
  shows "phase_of s = Ph_Draining \<and> st_power_state (rs_st s) \<noteq> PS_Off
    \<and> evictable (pods_on (rv_pods env) (node_name env)) ns n"
proof -
  have w: "\<forall>ns n. E_Evict ns n \<in> set (rs_log (note_wake env s)) \<longrightarrow> False"
    using evicting.H_note_wake [of s "\<lambda>_ _. False" env] assms(1) by blast
  have "\<forall>ns n. E_Evict ns n \<in> set (rs_log (snd (start_drain env (note_wake env s)))) \<longrightarrow> False"
    using w by (auto simp: start_drain_def patch_node_def send_patch_def emit_def event_def upd_def set_phase_def
        set_message_def split: option.splits prod.splits sum.splits)
  note no = evicting.H_is_offline [OF w, of env] evicting.H_keep_powering_off [OF w, of env] this
  have p: "st_power_state (rs_st s) \<noteq> PS_Off" "st_phase (rs_st (note_wake env s)) = Ph_Draining"
      "snd (ensure_off env s) = snd (drain env (note_wake env s))"
    using assms(2) no by (auto simp: ensure_off_def Let_def split: if_splits phase.splits)
  have d: "phase_of s = Ph_Draining"
    using p(2) by (auto simp: note_wake_def upd_def standby_failed_def warning_def emit_def phase_of_def split: if_splits)
  then have "note_wake env s = s" by (simp add: note_wake_def woke_by_itself_def phase_of_def)
  with drain_evicts [OF assms(1), of env] assms(2) p(1,3) d show ?thesis by simp
qed

text \<open>C13: A reconciliation evicts a pod only when this is safe and needed: the machine is draining, its
  Node exists and does not contradict the reading, which is not Off, and the pod runs on that Node
  and is not being deleted already; it is active, no helper pod of the operator, no pod of a
  DaemonSet and no mirror pod, not annotated as unsafe to evict, and either has an owner that
  recreates it or is annotated as safe.\<close>

theorem evicts_only_safe_pods:
  assumes mn: "ne_object env = Inr (Some mn)" and e: "E_Evict ns n \<in> set (pr_log (reconcile env))"
  shows "st_phase (machine_status mn) = Ph_Draining \<and> st_power_state (gate_outcome env mn) \<noteq> PS_Off
    \<and> ne_nodes env (nm_node_name (np_spec mn)) \<noteq> None \<and> reading_consistent env (np_spec mn) (gate_outcome env mn)
    \<and> (\<exists>p \<in> set (pods_on (ne_pods env) (nm_node_name (np_spec mn))).
         unwrap_or (p_namespace p) '''' = ns \<and> unwrap_or (p_name p) '''' = n \<and> p_deletion_timestamp p = None
         \<and> is_active p \<and> \<not> is_operator_helper_pod p \<and> \<not> is_daemonset_pod p \<and> \<not> is_mirror_pod p
         \<and> safe_to_evict p \<noteq> Some ''false''
         \<and> (safe_to_evict p = Some ''true'' \<or> unwrap_or (p_owner_kinds p) [] \<noteq> []))"
proof -
  let ?g = "gate_outcome env mn" and ?spec = "np_spec mn"
  have "\<not> quiet (pr_log (reconcile env))" using e by (force simp: filter_empty_conv)
  then obtain chain s where s: "rs_st s = ?g" "quiet (rs_log s)" "pr_log (reconcile env) = rs_log (snd (pass_from env mn chain s))"
    using reconcile_is_pass [OF mn] by blast
  let ?renv = "pass_env env ?spec chain ?g"
  let ?ok = "\<lambda>ns n. ne_nodes env (nm_node_name ?spec) \<noteq> None \<and> reading_consistent env ?spec ?g
    \<and> st_phase ?g = Ph_Draining \<and> st_power_state ?g \<noteq> PS_Off
    \<and> evictable (pods_on (ne_pods env) (nm_node_name ?spec)) ns n"
  have none: "\<forall>ns n. E_Evict ns n \<notin> set (rs_log s)" using s(2) by (force simp: filter_empty_conv)
  have "\<forall>ns n. E_Evict ns n \<in> set (rs_log (snd (pass_from env mn chain s))) \<longrightarrow> ?ok ns n"
    unfolding pass_from_def
  proof (rule evicting.H_drive)
    show "\<forall>ns n. E_Evict ns n \<in> set (rs_log s) \<longrightarrow> ?ok ns n" using none by blast
    fix s' assume b: "before_steering ?renv (machine_status mn) s = (None, s')" and node: "rv_node ?renv \<noteq> None"
      and c: "reading_consistent env ?spec ?g"
    have "\<forall>ns n. E_Evict ns n \<in> set (rs_log s') \<longrightarrow> False"
      using evicting.H_before_steering [of s "\<lambda>_ _. False" ?renv "machine_status mn"] none b by simp
    then have l: "\<forall>ns n. E_Evict ns n \<notin> set (rs_log s')" by blast
    note k = before_steering_keeps [OF b, unfolded s(1)]
    show "\<forall>ns n. E_Evict ns n \<in> set (rs_log (snd (ensure_off ?renv s'))) \<longrightarrow> ?ok ns n"
      using ensure_off_evicts [OF l, of _ _ ?renv] node c k(2,4) by (simp add: phase_of_def)
  qed
  then show ?thesis
    using e s(3) by (auto simp: evictable_def drain_evicts_only_safe_pods gate_outcome_phase)
qed

definition owned_pod :: kpod where
  "owned_pod = empty_pod\<lparr> p_namespace := Some ''default'', p_name := Some ''web'', p_owner_kinds := Some [''ReplicaSet''],
     p_spec := Some (empty_pod_spec\<lparr> pd_node_name := Some ''n1'' \<rparr>) \<rparr>"

abbreviation "evicting_env \<equiv> sample_node_env AlwaysOff PS_On (Some (sample_node ''True'')) [owned_pod]
  (default_npmc_status\<lparr> st_phase := Ph_Draining, st_phase_since := Some (secs 99990) \<rparr>)"

lemma evicts_only_safe_pods_witness:
  "E_Evict ''default'' ''web'' \<in> set (pr_log (reconcile evicting_env))
    \<and> (\<exists>p \<in> set (ne_pods evicting_env). unwrap_or (p_name p) '''' = ''web'' \<and> is_active p \<and> \<not> is_daemonset_pod p)"
proof -
  let ?mn = "\<lparr> np_name = ''m1'', np_generation = Some 1, np_spec = sample_spec AlwaysOff,
     np_status = Some (default_npmc_status\<lparr> st_phase := Ph_Draining, st_phase_since := Some (secs 99990) \<rparr>) \<rparr>"
  have mn: "ne_object evicting_env = Inr (Some ?mn)" by (simp add: sample_node_env_def)
  have e: "E_Evict ''default'' ''web'' \<in> set (pr_log (reconcile evicting_env))" by code_simp
  from evicts_only_safe_pods [OF mn e] obtain p where
    "p \<in> set (pods_on (ne_pods evicting_env) (nm_node_name (np_spec ?mn)))" "unwrap_or (p_name p) '''' = ''web''"
    "is_active p" "\<not> is_daemonset_pod p" by blast
  then show ?thesis using e by (intro conjI bexI [of _ p]) (auto simp: pods_on_def)
qed

end
