(* ===== verification/Stale_Clock.thy ===== *)
theory Stale_Clock
  imports Pool_Status
begin

text \<open>
  What a status patch does to the maps in a pool's status, and what follows for the clock of an
  unneeded machine.  A patch removes no entry from a map it does not empty, so the clock of a
  machine that was needed in between goes on from where it first started.
\<close>

section \<open>Maps under a status patch\<close>

text \<open>An empty map is not serialized, so a patch removes it as a whole; otherwise it is merged.\<close>

definition patched_map :: "'v btmap \<Rightarrow> 'v btmap \<Rightarrow> 'v btmap \<Rightarrow> 'v btmap" where
  "patched_map old new stored =
     (if new = old then stored
      else if new = [] then []
      else foldl (\<lambda>m (k, v). bt_insert k v m) stored new)"

text \<open>The same in JSON, for any way to write the values that makes them neither objects nor null.\<close>

definition map_member :: "string \<Rightarrow> ('v \<Rightarrow> json) \<Rightarrow> 'v btmap \<Rightarrow> (string \<times> json) list" where
  "map_member key enc m = (if m = [] then [] else [(key, JObj (map (\<lambda>(k, v). (k, enc v)) m))])"

lemma bt_get_map: "bt_get (map (\<lambda>(k, v). (k, enc v)) m) k = map_option enc (bt_get m k)"
  by (induction m) auto

lemma bt_ok_map [simp]: "bt_ok (map (\<lambda>(k, v). (k, enc v)) m) = bt_ok m"
  by (simp add: bt_ok_def comp_def case_prod_beta)

lemma map_member_ok [simp]: "bt_ok (map_member key enc m)"
  by (simp add: map_member_def bt_ok_def)

lemma map_member_get: "bt_get (map_member key enc m) key
    = (if m = [] then None else Some (JObj (map (\<lambda>(k, v). (k, enc v)) m)))"
  by (simp add: map_member_def)

lemma bt_get_patched:
  assumes "bt_ok new"
  shows "bt_get (foldl (\<lambda>m (k, v). bt_insert k v m) stored new) k
    = (case bt_get new k of Some v \<Rightarrow> Some v | None \<Rightarrow> bt_get stored k)"
  using bt_get_fold_changed [of new "\<lambda>_ _. True" stored k] assms
  by (simp add: bt_ok_distinct bt_get_map_of split: option.split)

lemma flat_members:
  assumes flat: "\<And>v. \<not> is_object (enc v)" "\<And>v. enc v \<noteq> JNull" and ok: "bt_ok new" "bt_ok stored"
  shows "rfc7386_members (map (\<lambda>(k, v). (k, enc v)) stored) (map (\<lambda>(k, v). (k, enc v)) new)
    = map (\<lambda>(k, v). (k, enc v)) (foldl (\<lambda>m (k, v). bt_insert k v m) stored new)"
proof (rule bt_ext)
  let ?e = "map (\<lambda>(k, v). (k, enc v))"
  have c: "(case Some (enc v) of None \<Rightarrow> x | Some JNull \<Rightarrow> None | Some j \<Rightarrow> Some (rfc7386 t j)) = Some (enc v)" for v t x
    using flat [of v] rfc.mp_other [of "enc v" t] by (cases "enc v") simp_all
  show "bt_get (rfc7386_members (?e stored) (?e new)) k = bt_get (?e (foldl (\<lambda>m (k, v). bt_insert k v m) stored new)) k" for k
    unfolding members_get [OF ok [folded bt_ok_map [of enc]]] bt_get_map bt_get_patched [OF ok(1)]
    by (cases "bt_get new k") (simp_all only: option.map c, simp_all)
  show "bt_ok (rfc7386_members (?e stored) (?e new))" using ok by (simp add: members_ok)
  show "bt_ok (?e (foldl (\<lambda>m (k, v). bt_insert k v m) stored new))"
    using ok bt_ok_fold_changed [of stored "\<lambda>_ _. True" new] by simp
qed

lemma patched_map_merges:
  assumes flat: "\<And>v. \<not> is_object (enc v)" "\<And>v. enc v \<noteq> JNull" and inj: "inj enc"
    and ok: "bt_ok new" "bt_ok stored"
  shows "bt_get (obj_of (rfc7386 (JObj (map_member key enc stored))
      (JObj (merge_diff (JObj (map_member key enc old)) (JObj (map_member key enc new)))))) key
    = bt_get (map_member key enc (patched_map old new stored)) key"
proof -
  let ?e = "map (\<lambda>(k, v). (k, enc v))"
  have inj_e: "?e a = ?e b \<longleftrightarrow> a = b" for a b
    using inj by (intro inj_eq inj_mapI) (auto simp: inj_on_def)
  let ?d = "merge_diff (JObj (map_member key enc old)) (JObj (map_member key enc new))"
  have d: "bt_get ?d key = (if new = old then None else if new = [] then Some JNull else Some (JObj (?e new)))"
    by (simp add: merge_diff_get map_member_get inj_e)
  have m: "bt_get (obj_of (rfc7386 (JObj (map_member key enc stored)) (JObj ?d))) key =
     (case bt_get ?d key of None \<Rightarrow> bt_get (map_member key enc stored) key | Some JNull \<Rightarrow> None
      | Some v \<Rightarrow> Some (rfc7386 (unwrap_or (bt_get (map_member key enc stored) key) JNull) v))"
    by (simp add: members_get merge_diff_ok)
  have o: "obj_of (unwrap_or (bt_get (map_member key enc stored) key) JNull) = ?e stored"
    by (simp add: map_member_get obj_of_def)
  have ne: "foldl (\<lambda>m (k, v). bt_insert k v m) stored new \<noteq> []" if "new \<noteq> []"
  proof
    assume "foldl (\<lambda>m (k, v). bt_insert k v m) stored new = []"
    then have "bt_get new k = None" for k
      using bt_get_patched [OF ok(1), of stored k] by (simp split: option.splits)
    moreover from that obtain e rest where "new = e # rest" by (cases new) auto
    then have "bt_get new (fst e) = Some (snd e)" by (cases e) simp
    ultimately show False by simp
  qed
  show ?thesis
    unfolding m d using flat_members [OF flat ok] o ne
    by (auto simp: patched_map_def map_member_get)
qed

section \<open>The clock\<close>

text \<open>The pool's status on the API server after a pass that wrote \<^verbatim>\<open>new\<close>, starting from what is stored.\<close>

definition pool_status_stored :: "pool_status \<Rightarrow> pool_status \<Rightarrow> pool_status" where
  "pool_status_stored old new = new\<lparr>
     pt_unneeded_since := patched_map (pt_unneeded_since old) (pt_unneeded_since new) (pt_unneeded_since old),
     pt_needed := patched_map (pt_needed old) (pt_needed new) (pt_needed old) \<rparr>"

lemma bt_get_collect_in: "bt_get (bt_collect kvs) k = Some v \<Longrightarrow> (k, v) \<in> set kvs"
proof -
  have "bt_get (foldl (\<lambda>m (k, v). bt_insert k v m) m kvs) k = Some v \<Longrightarrow> (k, v) \<in> set kvs \<or> bt_get m k = Some v" for m
  proof (induction kvs arbitrary: m)
    case (Cons e kvs)
    then have "(k, v) \<in> set kvs \<or> bt_get (bt_insert (fst e) (snd e) m) k = Some v" by (simp add: case_prod_beta)
    then show ?case by (cases e) (auto simp: bt_get_insert split: if_splits)
  qed simp
  from this [of "[]"] show "bt_get (bt_collect kvs) k = Some v \<Longrightarrow> ?thesis" by (simp add: bt_collect_def)
qed

text \<open>A plan keeps the clock it finds.\<close>

lemma plan_keeps_clock:
  assumes "bt_get (pl_unneeded_since (plan_of s)) name = Some t'" "bt_get (sn_unneeded_since s) name = Some t"
  shows "t' = t"
proof -
  have "(name, t') \<in> set (map (\<lambda>m. (m_name m, since_of s m)) (filter (\<lambda>m. busy_note s m = None) (candidates s)))"
    using assms(1) by (intro bt_get_collect_in) (simp add: plan_sel plan_unneeded_def)
  then show ?thesis using assms(2) by (auto simp: since_of_def)
qed

lemma pool_written_clock:
  "pl_written (pool_reconcile env pool) = Some st \<Longrightarrow> bt_ok (pt_unneeded_since st)"
  by (auto simp: pool_reconcile_def pool_status_after_def plan_sel plan_maps_ok Let_def case_prod_beta
      split: sum.splits if_splits)

text \<open>C37: The clock of an unneeded machine does not start again after it was needed: when a pass
  finds the machine needed and drops it from \<^verbatim>\<open>unneededSince\<close>, but some other machine is still
  unneeded, the stored status keeps its old clock, and the next pass that finds it unneeded
  counts the time in which it was needed as time in which it was not.\<close>

theorem clock_survives_being_needed:
  assumes old: "po_status pool = Some old" "bt_get (pt_unneeded_since old) name = Some t"
    and pass: "pl_written (pool_reconcile env pool) = Some st"
    and needed: "bt_get (pt_unneeded_since st) name = None" "pt_unneeded_since st \<noteq> []"
    and again: "po_status pool' = Some (pool_status_stored old st)"
      "bt_get (pl_unneeded_since (plan_of (snapshot_of env' pool' (unwrap_or (po_status pool') default_pool_status)))) name = Some t'"
  shows "t' = t"
proof (rule plan_keeps_clock [OF again(2)])
  have "pt_unneeded_since st \<noteq> pt_unneeded_since old" using old(2) needed(1) by auto
  then have "bt_get (pt_unneeded_since (pool_status_stored old st)) name = Some t"
    using bt_get_patched [OF pool_written_clock [OF pass]] old(2) needed
    by (simp add: pool_status_stored_def patched_map_def)
  then show "bt_get (sn_unneeded_since (snapshot_of env' pool' (unwrap_or (po_status pool') default_pool_status))) name = Some t"
    by (simp add: snapshot_of_def again(1))
qed

text \<open>Two machines, the first unneeded for 500 of the 600 seconds it takes.  It is then needed for a
  pod that must not be evicted; 200 seconds later the pod is gone, and the pool powers it off at
  once.\<close>

definition clock_machine :: "string \<Rightarrow> npmc" where
  "clock_machine n = (pool_machine (default_npmc_status\<lparr> st_phase := Ph_On, st_node_ready := True, st_power_state := PS_On \<rparr>))
     \<lparr> np_name := n, np_spec := (np_spec (pool_machine default_npmc_status))\<lparr> nm_node_name := n \<rparr> \<rparr>"

definition clock_pool :: "pool_status \<Rightarrow> pool" where
  "clock_pool st = (sample_pool 0)\<lparr> po_status := Some st \<rparr>"

definition clock_env :: "int \<Rightarrow> kpod list \<Rightarrow> pool \<Rightarrow> pool_env" where
  "clock_env now pods pool = idle_pool_env\<lparr> pe_nodes := [idle_node, idle_node\<lparr> no_name := ''n2'' \<rparr>], pe_pods := pods,
     pe_machines := [clock_machine ''n1'', clock_machine ''n2''], pe_pools := [pool], pe_now := secs now \<rparr>"

abbreviation "clock_before \<equiv> default_pool_status\<lparr> pt_unneeded_since := [(''n1'', secs 99500), (''n2'', secs 99900)] \<rparr>"

abbreviation "naked_pod \<equiv> empty_pod\<lparr> p_name := Some ''job'', p_namespace := Some ''default'',
  p_spec := Some (empty_pod_spec\<lparr> pd_node_name := Some ''n1'' \<rparr>) \<rparr>"

definition clock_between :: pool_status where
  "clock_between = \<lparr> pt_members = [''n1'', ''n2''], pt_conflicts = [], pt_releasable = [],
     pt_needed = [(''n1'', ''busy: blocked by default/job (not managed by a controller)''),
       (''n2'', ''unneeded since 03:45:00Z, eligible at 03:55:00Z'')],
     pt_total_nodes = 2, pt_online_nodes = 2, pt_pending_pods = 0, pt_last_scale_up_time = None,
     pt_last_scale_down_time = None, pt_unneeded_since = [(''n2'', secs 99900)],
     pt_message = Some ''steady'', pt_conditions = [],
     pt_recent_decisions = [\<lparr> dr_time = secs 100000, dr_action = DA_NoAction, dr_node = None,
       dr_reason = ''n2 unneeded since 03:45:00Z, eligible at 03:55:00Z'',
       dr_candidates = ''n2(w0 0c/0Gi) > n1(w0 0c/0Gi)'' \<rparr>] \<rparr>"

abbreviation "clock_later \<equiv> clock_pool (pool_status_stored clock_before clock_between)"

abbreviation "clock_snapshot \<equiv> snapshot_of (clock_env 100200 [] clock_later) clock_later
  (unwrap_or (po_status clock_later) default_pool_status)"

lemma clock_needed_for_a_pod:
  "pl_written (pool_reconcile (clock_env 100000 [naked_pod] (clock_pool clock_before)) (clock_pool clock_before))
     = Some clock_between"
  by code_simp

lemma clock_powers_off: "map fst (dn_power_off (scale_down clock_snapshot)) = [''n1'']"
  by code_simp

lemma clock_runs: "bt_get (plan_unneeded clock_snapshot) ''n1'' \<noteq> None"
  by code_simp

lemma clock_survives_being_needed_witness:
  "bt_get (pt_unneeded_since clock_between) ''n1'' = None
   \<and> bt_get (pl_unneeded_since (plan_of clock_snapshot)) ''n1'' = Some (secs 99500)
   \<and> map fst (pl_power_off (plan_of clock_snapshot)) = [''n1'']"
proof -
  obtain t' where t': "bt_get (pl_unneeded_since (plan_of clock_snapshot)) ''n1'' = Some t'"
    using clock_runs by (auto simp: plan_sel)
  have "t' = secs 99500"
    by (rule clock_survives_being_needed [OF _ _ clock_needed_for_a_pod _ _ _ t'])
      (simp_all add: clock_pool_def clock_between_def)
  then show ?thesis using t' clock_powers_off by (simp add: plan_sel clock_between_def)
qed

end
