(* ===== verification/Cli.thy ===== *)
theory Cli
  imports Commands
begin

text \<open>
  The rest of \<^verbatim>\<open>main.rs\<close>: the commands with the defaults of their arguments, the context \<^verbatim>\<open>run\<close> hands
  to the controllers, and \<^verbatim>\<open>main\<close>, which picks the command.  What the host offers is the record
  \<^verbatim>\<open>host\<close>; parsing the arguments is clap's, the schemas are schemars'.
\<close>

section \<open>Arguments\<close>

text \<open>The values of the arguments that are not given.\<close>

definition default_driver_args :: driver_args where
  "default_driver_args = \<lparr> da_namespace = ''kube-hardware-autoscaler'', da_op_timeout_seconds = 60,
     da_shutdown_image = None, da_relay_image = ''ghcr.io/safewords/kube-hardware-autoscaler:latest'' \<rparr>"

definition default_webhook_args :: webhook_args where
  "default_webhook_args = \<lparr> wa_webhook_addr = None, wa_webhook_service = ''kube-hardware-autoscaler-webhook'',
     wa_webhook_service_port = 443, wa_webhook_secret = ''kube-hardware-autoscaler-webhook-tls'',
     wa_webhook_config_name = ''kube-hardware-autoscaler'', wa_webhook_owner_cluster_role = None \<rparr>"

definition default_metrics_addr :: socket_addr where
  "default_metrics_addr = (V4 (Ipv4 0 0 0 0), 8080)"

definition DEFAULT_WAKE_PORT :: nat where "DEFAULT_WAKE_PORT = 9"

record run_args =
  rn_drivers :: driver_args
  rn_metrics_addr :: socket_addr
  rn_dry_run :: bool
  rn_decision_verbosity :: decision_verbosity
  rn_webhook :: webhook_args

definition default_run_args :: run_args where
  "default_run_args = \<lparr> rn_drivers = default_driver_args, rn_metrics_addr = default_metrics_addr,
     rn_dry_run = False, rn_decision_verbosity = V_Summary, rn_webhook = default_webhook_args \<rparr>"

datatype command =
    Cmd_Run run_args
  | Cmd_Wake string nat "string option"
  | Cmd_Crds
  | Cmd_Drivers bool
  | Cmd_Power string power_verb "string option" driver_args

section \<open>The context of the controllers\<close>

record host =
  ho_start :: start_world
  ho_settings :: driver_settings
  ho_devices :: devices
  ho_secrets :: "string \<Rightarrow> string \<Rightarrow> string + secret option"
  ho_api :: api_world
  ho_interfaces :: "string + net_interface list"
  ho_socket :: udp_socket
  ho_crds :: "string \<times> string"
  ho_schema :: "string \<Rightarrow> string"

record operator_context =
  oc_drivers :: driver_context
  oc_dry_run :: bool
  oc_decision_verbosity :: decision_verbosity
  oc_identity_cache :: identity_cache
  oc_warned :: "string btmap"

definition drivers_of :: "host \<Rightarrow> driver_args \<Rightarrow> driver_context" where
  "drivers_of h args = driver_context_for (ho_settings h) (ho_devices h) (ho_secrets h) args"

definition operator_context_for :: "host \<Rightarrow> run_args \<Rightarrow> operator_context" where
  "operator_context_for h args = \<lparr> oc_drivers = drivers_of h (rn_drivers args), oc_dry_run = rn_dry_run args,
     oc_decision_verbosity = rn_decision_verbosity args, oc_identity_cache = [], oc_warned = [] \<rparr>"

text \<open>The start, and what the controllers get when it succeeds.\<close>

record run_outcome =
  ro_result :: "string + operator_context"
  ro_log :: "start_event list"

definition run_operator :: "host \<Rightarrow> run_args \<Rightarrow> run_outcome" where
  "run_operator h args =
     (case start (ho_start h) (settings_of (rn_drivers args) (rn_webhook args)) of
        (Inl e, log) \<Rightarrow> \<lparr> ro_result = Inl e, ro_log = log \<rparr>
      | (Inr _, log) \<Rightarrow> \<lparr> ro_result = Inr (operator_context_for h args), ro_log = log \<rparr>)"

section \<open>main\<close>

datatype command_outcome =
    Did_run run_outcome
  | Did_wake "string + nat" "packet list"
  | Did_print "printed list"
  | Did_power "power_run option"

definition crds_command :: "host \<Rightarrow> printed list" where
  "crds_command h = (case ho_crds h of (machines, pools) \<Rightarrow>
     [Out (machines @ [CHR 0x0A] @ ''---'' @ [CHR 0x0A] @ pools)])"

fun main_command :: "host \<Rightarrow> command \<Rightarrow> command_outcome" where
  "main_command h (Cmd_Run args) = Did_run (run_operator h args)"
| "main_command h (Cmd_Wake mac port broadcast) =
     (case wake_command (ho_interfaces h) (ho_socket h) mac port broadcast of (r, sent) \<Rightarrow> Did_wake r sent)"
| "main_command h Cmd_Crds = Did_print (crds_command h)"
| "main_command h (Cmd_Drivers schemas) = Did_print (drivers_command (ho_settings h) (ho_schema h) schemas)"
| "main_command h (Cmd_Power name verb via args) =
     Did_power (power_command (ho_api h) (drivers_of h args) name verb via)"

section \<open>What the flags do\<close>

text \<open>Without an address the webhook is neither served nor registered, and no Secret is written.\<close>

lemma no_webhook_by_default:
  "set (ro_log (run_operator h (default_run_args\<lparr> rn_drivers := args \<rparr>))) \<subseteq> {R_Metrics_served, R_Ready, R_Controllers}"
  by (auto simp: run_operator_def default_run_args_def settings_of_def default_webhook_args_def start_def
      start_webhook_def split: sum.splits prod.splits)

text \<open>A dry run changes nothing about the start: the flag reaches the controllers only, and with it
  every reconciliation of theirs.\<close>

lemma dry_run_reaches_controllers:
  "ro_log (run_operator h (args\<lparr> rn_dry_run := d \<rparr>)) = ro_log (run_operator h args)
   \<and> (ro_result (run_operator h (args\<lparr> rn_dry_run := d \<rparr>)) = Inr ctx \<longrightarrow> oc_dry_run ctx = d)"
  by (auto simp: run_operator_def operator_context_for_def split: prod.splits sum.splits)

text \<open>The host command pods run the relay image unless another one is named, an empty name
  included.\<close>

lemma shutdown_image_default:
  "shutdown_image_of (default_driver_args\<lparr> da_relay_image := i \<rparr>) = i"
  "shutdown_image_of (default_driver_args\<lparr> da_relay_image := i, da_shutdown_image := Some '''' \<rparr>) = i"
  by (simp_all add: shutdown_image_of_def default_driver_args_def)

text \<open>The operator and the \<^verbatim>\<open>power\<close> subcommand with the same arguments use the same drivers, but only
  the operator knows a dry run: \<^verbatim>\<open>power\<close> acts whatever the operator was told.\<close>

lemma power_uses_operator_drivers:
  assumes "ro_result (run_operator h args) = Inr ctx"
  shows "main_command h (Cmd_Power name verb via (rn_drivers args))
    = Did_power (power_command (ho_api h) (oc_drivers ctx) name verb via)"
  using assms by (auto simp: run_operator_def operator_context_for_def split: prod.splits sum.splits)

end
