(* ===== verification/Spec2Isabelle.thy ===== *)
theory Spec2Isabelle
  imports Plan_Safety Identity Membership Machine_Phases Pool_Safety Wol Ping Webhook Redfish Pikvm Nanokvm Jetkvm Ipmi
    Catalog Metrics Machine_Status Pool_Status Commands Control_Loop Shutdown Power_Reasons Decisions_Carried Evictions
    Stale_Clock Cli
begin

text \<open>
  \<^bold>\<open>A verification library for kube-hardware-autoscaler.\<close>

  The operator powers machines on and off as pods need them.  Two controllers share the work.
  The pool controller (\<^verbatim>\<open>src/src/controller/node_scaling_pool.rs\<close>) looks at the pods and at the
  machines its selector selects, computes a plan (\<^verbatim>\<open>src/src/scaling.rs\<close>) and writes power decisions
  on the machines.  The machine controller
  (\<^verbatim>\<open>src/src/controller/node_power_management_config.rs\<close>) carries a decision out, behind four safety
  gates, through a chain of management interfaces (\<^verbatim>\<open>src/src/drivers\<close>).  The two communicate only
  through the status of the custom resources (\<^verbatim>\<open>src/src/crd.rs\<close>).

  \<^bold>\<open>Which theory models what.\<close>
  \<^item> \<^verbatim>\<open>Prelude\<close>: 64-bit wrap-around, instants in nanoseconds, options, Rust's iterator minima, ordered
    string maps (\<^verbatim>\<open>BTreeMap\<close>, with their laws as the locale \<^verbatim>\<open>kv_map\<close>), comparison sorts (\<^verbatim>\<open>Ordering\<close>,
    with the laws of a total order as the locale \<^verbatim>\<open>total_cmp\<close>) and decimal text.  \<^verbatim>\<open>Json\<close>, \<^verbatim>\<open>KubeObjects\<close>:
    the values and the parts of Pods and Nodes the operator reads.  \<^verbatim>\<open>Float64\<close>: IEEE binary64 as
    \<^verbatim>\<open>resources.rs\<close> uses it.
  \<^item> \<^verbatim>\<open>Crd\<close>: \<^verbatim>\<open>crd.rs\<close>, the custom resources as records with the code's field names and a prefix per
    record, and the rules that resolve a setting between a machine and its pools.
  \<^item> \<^verbatim>\<open>Resources\<close>, \<^verbatim>\<open>Identity\<close>, \<^verbatim>\<open>Membership\<close>: \<^verbatim>\<open>resources.rs\<close>, \<^verbatim>\<open>identity.rs\<close>, \<^verbatim>\<open>membership.rs\<close>.
  \<^item> \<^verbatim>\<open>Pods\<close>, \<^verbatim>\<open>Order\<close>, \<^verbatim>\<open>Plan_Up\<close>, \<^verbatim>\<open>Plan_Down\<close>, \<^verbatim>\<open>Plan\<close>: \<^verbatim>\<open>scaling.rs\<close>.  The state of the scale-up loop is
    the record \<^verbatim>\<open>up_state\<close>, that of the scale-down loop \<^verbatim>\<open>down_state\<close>; \<^verbatim>\<open>plan_of\<close> composes them as \<^verbatim>\<open>plan\<close>
    does.  \<^verbatim>\<open>Plan_Safety\<close> proves what a plan may do.
  \<^item> \<^verbatim>\<open>Chain\<close>: \<^verbatim>\<open>drivers/mod.rs\<close> and \<^verbatim>\<open>drivers/chain.rs\<close>; \<^verbatim>\<open>Inband\<close>: \<^verbatim>\<open>drivers/inband.rs\<close>.
  \<^item> \<^verbatim>\<open>ControllerBase\<close>: \<^verbatim>\<open>controller/mod.rs\<close>, the merge patches sent and what they do to an object
    (RFC 7386, through the locale \<^verbatim>\<open>merge_patch\<close>).
  \<^item> \<^verbatim>\<open>Lifecycle\<close>: the pure functions of the machine controller; \<^verbatim>\<open>Reconciler\<close>: its \<^verbatim>\<open>Reconciler\<close>, as
    functions from a state \<^verbatim>\<open>rs\<close> (the status being written and the log of everything done outside)
    to a state; \<^verbatim>\<open>NodeController\<close>: its \<^verbatim>\<open>reconcile\<close>.  \<^verbatim>\<open>Reconciler_Safety\<close>, \<^verbatim>\<open>Machine_Safety\<close> and
    \<^verbatim>\<open>Machine_Phases\<close> prove which commands a pass sends, what must hold before, and how phases move.
  \<^item> \<^verbatim>\<open>PoolController\<close>: \<^verbatim>\<open>node_scaling_pool.rs\<close>; \<^verbatim>\<open>Pool_Safety\<close> proves what it may decide.
  \<^item> \<^verbatim>\<open>Net\<close>: IP addresses, integers and text as Rust's standard library reads and prints them.  \<^verbatim>\<open>Wake\<close>,
    \<^verbatim>\<open>Wol\<close>: \<^verbatim>\<open>wake.rs\<close> and \<^verbatim>\<open>drivers/wol.rs\<close>, magic packets and the pods that relay them.  \<^verbatim>\<open>Ping\<close>:
    \<^verbatim>\<open>drivers/ping.rs\<close>.  \<^verbatim>\<open>Http\<close>: what the HTTP drivers share, with \<^verbatim>\<open>Redfish\<close>, \<^verbatim>\<open>Pikvm\<close> and \<^verbatim>\<open>Nanokvm\<close>
    for the files of these names; \<^verbatim>\<open>Jetkvm\<close>, \<^verbatim>\<open>Ipmi\<close> likewise.  \<^verbatim>\<open>Power_Button\<close> is the contract of the
    two drivers that work a toggling button, a locale both are shown to meet.
  \<^item> \<^verbatim>\<open>Webhook\<close>: \<^verbatim>\<open>webhook.rs\<close>.
  \<^item> \<^verbatim>\<open>Catalog\<close>: the catalog of \<^verbatim>\<open>drivers/mod.rs\<close> made of the seven driver models, so that a chain can be
    built from the operator's own drivers.  \<^verbatim>\<open>Metrics\<close>: \<^verbatim>\<open>metrics.rs\<close> and what both controllers record.
    \<^verbatim>\<open>Commands\<close>: \<^verbatim>\<open>main.rs\<close>, its subcommands as functions, the start as a function from what it finds
    to the log of its steps, the stop as the relation \<^verbatim>\<open>stop_step\<close>.  \<^verbatim>\<open>Cli\<close>: the arguments with their
    defaults, the context the controllers get and \<^verbatim>\<open>main\<close>, which picks the command.
  \<^item> \<^verbatim>\<open>Machine_Status\<close>, \<^verbatim>\<open>Pool_Status\<close>: the statuses that are stored are well formed.  That the
    Reconciler leaves a field alone is proved once for any field, in the locale \<^verbatim>\<open>observed_field\<close>.
  \<^item> \<^verbatim>\<open>Pass_Property\<close>: the locales \<^verbatim>\<open>steady_property\<close>, \<^verbatim>\<open>leaving_property\<close> and \<^verbatim>\<open>pass_property\<close>, each of which
    extends the one before: a property of the status and of what was sent, kept by each operation of
    the Reconciler, is kept by a whole pass.  The locale \<^verbatim>\<open>observed_field\<close> is one of its instances,
    others are in \<^verbatim>\<open>Control_Loop\<close> and \<^verbatim>\<open>Evictions\<close>.
  \<^item> \<^verbatim>\<open>Control_Loop\<close>: both controllers and the stored objects, the relation \<^verbatim>\<open>control_loop\<close>, whose steps
    are an edit by somebody else, a pass over the pools, the arrival of one of its decisions, and the
    read and the write of a pass over a machine, in any order.
  \<^item> \<^verbatim>\<open>Power_Reasons\<close>: over a whole reconciliation, every reason to power a machine off, what a
    contradicting reading holds back, and which actions are on record afterwards.  \<^verbatim>\<open>Evictions\<close>: which
    pods it evicts.  \<^verbatim>\<open>Decisions_Carried\<close>: a decision that arrived is what it drives to.
  \<^item> \<^verbatim>\<open>Shutdown\<close>: a decided power-off comes to its end.  \<^verbatim>\<open>Stale_Clock\<close>: what the patch of the pool
    controller leaves of the unneeded clocks on the server.

  \<^bold>\<open>How code becomes definitions.\<close>
  Errors are sums (\<^verbatim>\<open>Inl\<close> the rendered error), absent fields options, \<^verbatim>\<open>?\<close> an \<^verbatim>\<open>Inl\<close> that ends the pass.
  An instant is an integer number of nanoseconds; \<^verbatim>\<open>as i64\<close> and \<^verbatim>\<open>as u32\<close> casts and \<^verbatim>\<open>i64\<close> additions wrap
  as the release build does.  What the API server, the management interfaces and the clock answer
  are fields of the environment records, the API server's as functions of how much has been sent
  before, so that nothing is assumed about answers being alike or successful.  Everything sent is
  logged in order: reads, metrics and log lines are not.  Caches are lists in any order.

  \<^bold>\<open>What the properties show.\<close>
  The plan: power-offs are justified, agreed by all pools, bounded and never mixed with power-ons;
  power-ons respect the maximum and serve pending pods; both are computed by total functions.  The
  machine controller: at most one command per pass, no real one in a dry run, none while the reading
  is Off and the Node alive (but for 90 seconds after an own power-off); a machine that is up is
  powered off only after its drain (or once its drain timed out, when configured), and any other
  power-off is that of a boot or a wake that is overdue; \<^verbatim>\<open>PoweringOff\<close> is reached through
  \<^verbatim>\<open>Draining\<close> only (over whole runs, by induction on the relation \<^verbatim>\<open>machine_run\<close>); the step that
  takes a machine offline cuts the power exactly when a shutdown is overdue, at most every 90
  seconds; only pods that may be moved are evicted; and own actions are not taken for manual ones
  within the time they may take.  The two together: a decision that reached an automatic machine is
  what a pass that is free to steer drives to; however the passes of both interleave, a machine
  that is up is drained, suspended or powered off only after all pools agreed in one decision; and where
  nothing stands in the way three passes take a decided machine from drained to off.  The drivers: a toggling button is pressed only
  when the state read is not the wanted one, a reset goes to the system that was read, relays run on
  Ready neighbours only, a probe reports Off only after a definite failure.  The webhook: it refuses
  exactly the pools that newly name a missing Node, serves the certificate its Secret holds, and is
  registered only once it serves; it replaces a certificate only at the version it read.  The statuses: whatever is stored is well formed, and the gauges
  agree with it.  With the real catalog a machine is powered through its own interfaces only, never
  through a probe, by drivers that hold the credentials these interfaces name.  Stopping: every run ends, and nothing is unregistered before the signal.
  Some theorems record where the code does less than its comments say: they are listed as findings.

  \<^bold>\<open>Fuel and bounds.\<close>  No definition needs fuel: the loops run over a list or a numeral and are
  structural recursions, but for two with a measure (the carries of the ICMP checksum, \<^verbatim>\<open>fold_carries\<close>,
  and the key material of NanoKVM passwords, \<^verbatim>\<open>derive_material\<close>).  The two loops that wait for the
  network run over what the network delivers and have no value while that does not end them; that they
  end once a deadline has passed is \<^verbatim>\<open>Ping.ping_ends\<close> and \<^verbatim>\<open>Jetkvm.jet_reading_ends\<close>.

  \<^bold>\<open>Not modelled.\<close>  Other crates: HTTP, MQTT and IPMI clients, RFC 3339 times, base64, MD5 and AES, the
  making of certificates, the Prometheus registry, the command line parser; they are arguments of the
  definitions that use them.  Accepting HTTPS connections for the webhook, log lines, the informers that
  fill the caches and the queue of the controller runtime: library calls without logic of the program's
  own.  Serialization and schemas of the custom resources and of the drivers' configurations, which are
  serde's and schemars': status patches compare records instead of JSON, and decoding a configuration is
  a parameter of the catalog.
\<close>

end
